(* ===== verification/Prelude.thy ===== *)
theory Prelude
  imports Main "HOL-Library.Word" "HOL-Library.Char_ord" "HOL-Library.List_Lexorder"
    "HOL-Library.Multiset" "HOL-Library.AList"
begin

text \<open>
  The vocabulary every component of the development shares.

  \<^item> The types the Go code computes with: a string is its bytes (\<^typ>\<open>string\<close>, as Go's
    \<open>len\<close> and indexing see it), \<open>time.Time\<close> is the instant in nanoseconds since Go's zero
    time, \<open>time.Duration\<close> is nanoseconds, \<open>uuid.UUID\<close> is sixteen bytes read as one word, and
    sized integers are words.
  \<^item> The parts of Go's standard library the program uses: \<open>strconv\<close> decimal rendering,
    \<open>strings.TrimSpace\<close>, \<open>strings.Cut\<close>, \<open>strings.CutPrefix\<close>, \<open>time.Duration.String\<close>
    and \<open>slices.SortFunc\<close>.
  \<^item> Tables: \<open>UPDATE ... WHERE\<close> over a list of rows, and what it does to row identity.
  \<^item> The contract a comparison needs for sorting by it to have one answer, as a locale.
\<close>

subsection \<open>Types\<close>

type_synonym time = int
type_synonym duration = int
type_synonym uuid = "128 word"
type_synonym int32 = "32 word"
type_synonym int64 = "64 word"
type_synonym uint8 = "8 word"

named_theorems table_simps \<open>rewrite rules for statements over tables of rows\<close>
named_theorems order_simps \<open>unfolding rules of the orderings rows and tasks are sorted by\<close>

abbreviation (input) nanosecond :: duration where "nanosecond \<equiv> 1"
abbreviation millisecond :: duration where "millisecond \<equiv> 1000000"
abbreviation second :: duration where "second \<equiv> 1000000000"
abbreviation minute :: duration where "minute \<equiv> 60 * second"
abbreviation hour :: duration where "hour \<equiv> 60 * minute"

subsection \<open>Decimal rendering\<close>

definition digit :: "nat \<Rightarrow> char" where
  "digit d = char_of (48 + d)"

fun dec :: "nat \<Rightarrow> string" where
  "dec n = (if n < 10 then [digit n] else dec (n div 10) @ [digit (n mod 10)])"

declare dec.simps [simp del]

definition itoa :: "int \<Rightarrow> string" where
  "itoa i = (if i < 0 then ''-'' @ dec (nat (- i)) else dec (nat i))"

text \<open>Reading decimal digits back: the inverse that makes rendering injective.\<close>

definition digit_val :: "char \<Rightarrow> nat" where
  "digit_val c = of_char c - 48"

definition dec_val :: "string \<Rightarrow> nat" where
  "dec_val s = foldl (\<lambda>acc c. acc * 10 + digit_val c) 0 s"

subsection \<open>Strings\<close>

text \<open>
  \<open>unicode.IsSpace\<close> on the UTF-8 encoding of one code point: the six ASCII spaces, U+0085,
  U+00A0, U+1680, U+2000 to U+200A, U+2028, U+2029, U+202F, U+205F and U+3000.
\<close>

definition spaces :: "string list" where
  "spaces =
     [[CHR 0x09], [CHR 0x0A], [CHR 0x0B], [CHR 0x0C], [CHR 0x0D], [CHR 0x20],
      [CHR 0xC2, CHR 0x85], [CHR 0xC2, CHR 0xA0],
      [CHR 0xE1, CHR 0x9A, CHR 0x80],
      [CHR 0xE2, CHR 0x80, CHR 0x80], [CHR 0xE2, CHR 0x80, CHR 0x81],
      [CHR 0xE2, CHR 0x80, CHR 0x82], [CHR 0xE2, CHR 0x80, CHR 0x83],
      [CHR 0xE2, CHR 0x80, CHR 0x84], [CHR 0xE2, CHR 0x80, CHR 0x85],
      [CHR 0xE2, CHR 0x80, CHR 0x86], [CHR 0xE2, CHR 0x80, CHR 0x87],
      [CHR 0xE2, CHR 0x80, CHR 0x88], [CHR 0xE2, CHR 0x80, CHR 0x89],
      [CHR 0xE2, CHR 0x80, CHR 0x8A],
      [CHR 0xE2, CHR 0x80, CHR 0xA8], [CHR 0xE2, CHR 0x80, CHR 0xA9],
      [CHR 0xE2, CHR 0x80, CHR 0xAF], [CHR 0xE2, CHR 0x81, CHR 0x9F],
      [CHR 0xE3, CHR 0x80, CHR 0x80]]"

definition starts_with :: "string \<Rightarrow> string \<Rightarrow> bool" where
  "starts_with p s \<longleftrightarrow> take (length p) s = p"

definition ends_with :: "string \<Rightarrow> string \<Rightarrow> bool" where
  "ends_with p s \<longleftrightarrow> length p \<le> length s \<and> drop (length s - length p) s = p"

text \<open>How many bytes a space at the front (at the back) of the string takes; 0 for none.\<close>

definition space_front :: "string \<Rightarrow> nat" where
  "space_front s = (case filter (\<lambda>p. starts_with p s) spaces of [] \<Rightarrow> 0 | p # _ \<Rightarrow> length p)"

definition space_back :: "string \<Rightarrow> nat" where
  "space_back s = (case filter (\<lambda>p. ends_with p s) spaces of [] \<Rightarrow> 0 | p # _ \<Rightarrow> length p)"

function trim_left :: "string \<Rightarrow> string" where
  "trim_left s = (if s = [] \<or> space_front s = 0 then s else trim_left (drop (space_front s) s))"
  by pat_completeness auto
termination
  by (relation "measure length") auto

function trim_right :: "string \<Rightarrow> string" where
  "trim_right s =
     (if s = [] \<or> space_back s = 0 then s else trim_right (take (length s - space_back s) s))"
  by pat_completeness auto
termination
  by (relation "measure length") auto

declare trim_left.simps [simp del] trim_right.simps [simp del]

definition trim_space :: "string \<Rightarrow> string" where
  "trim_space s = trim_right (trim_left s)"

text \<open>\<open>strings.Cut\<close> at a one-byte separator: before, after, and whether it was found.\<close>

fun cut :: "char \<Rightarrow> string \<Rightarrow> string \<times> string \<times> bool" where
  "cut sep [] = ([], [], False)"
| "cut sep (c # cs) =
     (if c = sep then ([], cs, True)
      else (case cut sep cs of (b, a, ok) \<Rightarrow> if ok then (c # b, a, True) else (c # cs, [], False)))"

definition cut_prefix :: "string \<Rightarrow> string \<Rightarrow> string option" where
  "cut_prefix p s = (if starts_with p s then Some (drop (length p) s) else None)"

text \<open>ASCII lower case, which is what \<open>strings.ToLower\<close> does to the ASCII strings it is given.\<close>

definition lower_char :: "char \<Rightarrow> char" where
  "lower_char c =
     (let n = (of_char c :: nat) in if 65 \<le> n \<and> n \<le> 90 then char_of (n + 32) else c)"

definition lower :: "string \<Rightarrow> string" where
  "lower s = map lower_char s"

subsection \<open>Durations as text\<close>

text \<open>
  \<open>time.Duration.String\<close>: \<open>1h2m3.5s\<close>, with a smaller unit below one second.
  The fraction drops its trailing zeros and, when nothing is left, its point.
\<close>

fun pad_dec :: "nat \<Rightarrow> nat \<Rightarrow> string" where
  "pad_dec 0 v = []"
| "pad_dec (Suc k) v = pad_dec k (v div 10) @ [digit (v mod 10)]"

definition drop_zeros :: "string \<Rightarrow> string" where
  "drop_zeros s = rev (dropWhile (\<lambda>c. c = CHR ''0'') (rev s))"

definition dur_frac :: "nat \<Rightarrow> nat \<Rightarrow> string" where
  "dur_frac prec v =
     (let ds = drop_zeros (pad_dec prec (v mod 10 ^ prec)) in if ds = [] then [] else ''.'' @ ds)"

definition duration_abs :: "nat \<Rightarrow> string" where
  "duration_abs u =
     (if u = 0 then ''0s''
      else if u < 1000 then dec u @ ''ns''
      else if u < 1000000 then dec (u div 1000) @ dur_frac 3 u @ [CHR 0xC2, CHR 0xB5, CHR ''s'']
      else if u < 1000000000 then dec (u div 1000000) @ dur_frac 6 u @ ''ms''
      else
        (let secs = u div 1000000000; mins = secs div 60; hours = mins div 60 in
           (if hours > 0 then dec hours @ ''h'' else []) @
           (if mins > 0 then dec (mins mod 60) @ ''m'' else []) @
           dec (secs mod 60) @ dur_frac 9 u @ ''s''))"

definition duration_string :: "duration \<Rightarrow> string" where
  "duration_string d = (if d < 0 then ''-'' else []) @ duration_abs (nat \<bar>d\<bar>)"

subsection \<open>Sorting by a comparison\<close>

fun insert_by :: "('a \<Rightarrow> 'a \<Rightarrow> bool) \<Rightarrow> 'a \<Rightarrow> 'a list \<Rightarrow> 'a list" where
  "insert_by lt x [] = [x]"
| "insert_by lt x (y # ys) = (if lt y x then y # insert_by lt x ys else x # y # ys)"

definition sort_by :: "('a \<Rightarrow> 'a \<Rightarrow> bool) \<Rightarrow> 'a list \<Rightarrow> 'a list" where
  "sort_by lt xs = foldr (insert_by lt) xs []"

text \<open>
  \<open>%q\<close>: a Go string literal. Bytes outside ASCII are kept, as they are for printable text.
\<close>

definition hex_nibble :: "nat \<Rightarrow> char" where
  "hex_nibble d = ''0123456789abcdef'' ! d"

definition quote_char :: "char \<Rightarrow> string" where
  "quote_char c =
     (let n = (of_char c :: nat) in
      if n = 34 then [char_of (92 :: nat), c]
      else if n = 92 then [c, c]
      else if n = 7 then [char_of (92 :: nat), CHR ''a'']
      else if n = 8 then [char_of (92 :: nat), CHR ''b'']
      else if n = 9 then [char_of (92 :: nat), CHR ''t'']
      else if n = 10 then [char_of (92 :: nat), CHR ''n'']
      else if n = 11 then [char_of (92 :: nat), CHR ''v'']
      else if n = 12 then [char_of (92 :: nat), CHR ''f'']
      else if n = 13 then [char_of (92 :: nat), CHR ''r'']
      else if n < 32 \<or> n = 127 then [char_of (92 :: nat), CHR ''x'', hex_nibble (n div 16), hex_nibble (n mod 16)]
      else [c])"

definition go_quote :: "string \<Rightarrow> string" where
  "go_quote s = [char_of (34 :: nat)] @ concat (map quote_char s) @ [char_of (34 :: nat)]"

subsection \<open>Tables\<close>

text \<open>
  A table is its list of rows. An \<open>UPDATE\<close> rewrites the rows its \<open>WHERE\<close> selects and
  leaves every other row alone; it reports how many it selected.
\<close>

definition sql_update :: "('r \<Rightarrow> bool) \<Rightarrow> ('r \<Rightarrow> 'r) \<Rightarrow> 'r list \<Rightarrow> 'r list" where
  "sql_update P f rows = map (\<lambda>r. if P r then f r else r) rows"

definition sql_count :: "('r \<Rightarrow> bool) \<Rightarrow> 'r list \<Rightarrow> nat" where
  "sql_count P rows = length (filter P rows)"

definition sql_find :: "('r \<Rightarrow> 'k) \<Rightarrow> 'k \<Rightarrow> 'r list \<Rightarrow> 'r option" where
  "sql_find key k rows = find (\<lambda>r. key r = k) rows"

subsection \<open>Decimal rendering is injective\<close>

lemma digit_val_digit [simp]: "d < 10 \<Longrightarrow> digit_val (digit d) = d"
  by (simp add: digit_val_def digit_def)

lemma dec_val_snoc [simp]: "dec_val (s @ [c]) = dec_val s * 10 + digit_val c"
  by (simp add: dec_val_def)

lemma dec_val_dec [simp]: "dec_val (dec n) = n"
proof (induction n rule: dec.induct)
  case (1 n)
  show ?case
  proof (cases "n < 10")
    case True
    then show ?thesis by (simp add: dec.simps [of n] dec_val_def)
  next
    case False
    then show ?thesis by (simp add: dec.simps [of n] 1)
  qed
qed

lemma dec_inject [simp]: "dec m = dec n \<longleftrightarrow> m = n"
  by (metis dec_val_dec)

lemma digit_code: "d < 10 \<Longrightarrow> of_char (digit d) = 48 + d"
  by (simp add: digit_def)

lemma digit_not:
  assumes "d < 10" and "\<not> (48 \<le> (of_char c :: nat) \<and> of_char c < (58 :: nat))"
  shows "digit d \<noteq> c"
  using digit_code [OF assms(1)] assms by auto

lemma dec_digits: "\<forall>c \<in> set (dec n). \<exists>d < 10. c = digit d"
proof (induction n rule: dec.induct)
  case (1 n)
  show ?case
  proof (cases "n < 10")
    case True
    then show ?thesis by (auto simp: dec.simps [of n])
  next
    case False
    then have "\<forall>c \<in> set (dec (n div 10)). \<exists>d < 10. c = digit d" by (rule 1)
    moreover have "\<exists>d < 10. digit (n mod 10) = digit d" by (rule exI [of _ "n mod 10"]) simp
    ultimately show ?thesis using False by (auto simp: dec.simps [of n])
  qed
qed

lemma dec_not_minus: "CHR ''-'' \<notin> set (dec n)"
  using dec_digits [of n] digit_not [of _ "CHR ''-''"] by fastforce

lemma dec_not_colon: "CHR '':'' \<notin> set (dec n)"
  using dec_digits [of n] digit_not [of _ "CHR '':''"] by fastforce

lemma itoa_inject [simp]: "itoa i = itoa j \<longleftrightarrow> i = j"
proof
  assume eq: "itoa i = itoa j"
  have no: "dec a \<noteq> CHR ''-'' # dec b" for a b
    using dec_not_minus [of a] by (metis list.set_intros(1))
  show "i = j"
    using eq no by (auto simp: itoa_def split: if_splits) (metis no)+
qed simp

subsection \<open>Cutting strings\<close>

lemma starts_with_append [simp]: "starts_with p (p @ s)"
  by (simp add: starts_with_def)

lemma cut_prefix_append [simp]: "cut_prefix p (p @ s) = Some s"
  by (simp add: cut_prefix_def)

lemma cut_prefix_Some: "cut_prefix p s = Some r \<longleftrightarrow> s = p @ r"
  by (auto simp: cut_prefix_def starts_with_def) (metis append_take_drop_id)

lemma cut_at: "sep \<notin> set b \<Longrightarrow> cut sep (b @ sep # a) = (b, a, True)"
  by (induction b) auto

lemma cut_missing: "sep \<notin> set s \<Longrightarrow> cut sep s = (s, [], False)"
  by (induction s) auto

lemma cut_found: "cut sep s = (b, a, True) \<Longrightarrow> s = b @ sep # a \<and> sep \<notin> set b"
  by (induction s arbitrary: b a) (auto split: if_splits prod.splits)

text \<open>Two strings built around a separator the left part never contains agree part by part.\<close>

lemma append_sep_inject:
  fixes sep :: char
  assumes "a @ sep # b = c @ sep # d" and "sep \<notin> set a" and "sep \<notin> set c"
  shows "a = c \<and> b = d"
proof -
  have "(a, b, True) = cut sep (a @ sep # b)" by (simp only: cut_at [OF assms(2)])
  also have "\<dots> = (c, d, True)" by (simp only: assms(1) cut_at [OF assms(3)])
  finally show ?thesis by simp
qed

subsection \<open>Tables: what an update keeps\<close>

lemma sql_update_ids [table_simps]:
  "(\<And>r. key (f r) = key r) \<Longrightarrow> map key (sql_update P f rows) = map key rows"
  by (simp add: sql_update_def)

lemma length_sql_update [simp, table_simps]: "length (sql_update P f rows) = length rows"
  by (simp add: sql_update_def)

lemma set_sql_update [table_simps]:
  "set (sql_update P f rows) = (\<lambda>r. if P r then f r else r) ` set rows"
  by (simp add: sql_update_def)

lemma sql_update_none: "(\<And>r. r \<in> set rows \<Longrightarrow> \<not> P r) \<Longrightarrow> sql_update P f rows = rows"
  by (simp add: sql_update_def map_idI)

lemma sql_count_zero: "(\<And>r. r \<in> set rows \<Longrightarrow> \<not> P r) \<Longrightarrow> sql_count P rows = 0"
  by (simp add: sql_count_def)

lemma sql_find_in: "sql_find key k rows = Some r \<Longrightarrow> r \<in> set rows \<and> key r = k"
  by (auto simp: sql_find_def find_Some_iff in_set_conv_nth)

lemma sql_find_unique:
  "distinct (map key rows) \<Longrightarrow> r \<in> set rows \<Longrightarrow> key r = k \<Longrightarrow> sql_find key k rows = Some r"
  by (induction rows) (auto simp: sql_find_def rev_image_eqI)

lemma sql_find_update:
  assumes "\<And>r. key (f r) = key r"
  shows "sql_find key k (sql_update P f rows) =
    map_option (\<lambda>r. if P r then f r else r) (sql_find key k rows)"
  using assms by (induction rows) (auto simp: sql_find_def sql_update_def)

lemma distinct_key_eq:
  "distinct (map key rows) \<Longrightarrow> r \<in> set rows \<Longrightarrow> s \<in> set rows \<Longrightarrow> key r = key s \<Longrightarrow> r = s"
  by (metis sql_find_unique option.inject)

text \<open>Selecting by key hits at most one row.\<close>

lemma sql_count_by_key:
  assumes "distinct (map key rows)" and "\<And>r. P r \<Longrightarrow> key r = k"
  shows "sql_count P rows \<le> 1"
  using assms
proof (induction rows)
  case (Cons r rows)
  show ?case
  proof (cases "P r")
    case True
    with Cons.prems have "\<And>s. s \<in> set rows \<Longrightarrow> \<not> P s" by (auto simp: rev_image_eqI)
    then show ?thesis using True by (simp add: sql_count_def)
  next
    case False
    with Cons show ?thesis by (simp add: sql_count_def)
  qed
qed (simp add: sql_count_def)

lemma sql_count_key_iff:
  assumes "distinct (map key rows)" and "\<And>r. P r \<Longrightarrow> key r = k"
  shows "sql_count P rows = 1 \<longleftrightarrow> (\<exists>r \<in> set rows. P r)"
proof -
  have "sql_count P rows = 0 \<longleftrightarrow> \<not> (\<exists>r \<in> set rows. P r)"
    by (auto simp: sql_count_def filter_empty_conv)
  moreover have "sql_count P rows \<le> 1" by (rule sql_count_by_key [OF assms(1)]) (rule assms(2))
  ultimately show ?thesis by linarith
qed

subsection \<open>Sorting by a comparison: the contract\<close>

lemma set_insert_by [simp]: "set (insert_by lt x xs) = insert x (set xs)"
  by (induction xs) auto

lemma mset_insert_by [simp]: "mset (insert_by lt x xs) = add_mset x (mset xs)"
  by (induction xs) auto

lemma sort_by_Nil [simp]: "sort_by lt [] = []"
  by (simp add: sort_by_def)

lemma sort_by_Cons: "sort_by lt (x # xs) = insert_by lt x (sort_by lt xs)"
  by (simp add: sort_by_def)

lemma mset_sort_by [simp]: "mset (sort_by lt xs) = mset xs"
  by (induction xs) (simp_all add: sort_by_Cons)

lemma set_sort_by [simp]: "set (sort_by lt xs) = set xs"
  by (metis mset_sort_by set_mset_mset)

lemma length_sort_by [simp]: "length (sort_by lt xs) = length xs"
  by (metis mset_sort_by size_mset)

text \<open>
  What a comparison must promise: a strict order that separates any two elements whose sort
  keys differ. Sorting then has exactly one answer, whatever algorithm computes it and
  whatever order the elements were collected in.
\<close>

locale sort_order =
  fixes lt :: "'a \<Rightarrow> 'a \<Rightarrow> bool" and key :: "'a \<Rightarrow> 'k"
  assumes lt_irrefl: "\<not> lt a a"
    and lt_trans: "lt a b \<Longrightarrow> lt b c \<Longrightarrow> lt a c"
    and lt_total: "key a \<noteq> key b \<Longrightarrow> lt a b \<or> lt b a"
begin

lemma lt_asym: "lt a b \<Longrightarrow> \<not> lt b a"
  using lt_irrefl lt_trans by blast

lemma insert_by_sorted:
  assumes "sorted_wrt lt xs" and "key x \<notin> key ` set xs"
  shows "sorted_wrt lt (insert_by lt x xs)"
  using assms
proof (induction xs)
  case (Cons y ys)
  show ?case
  proof (cases "lt y x")
    case True
    with Cons show ?thesis by auto
  next
    case False
    with Cons.prems(2) lt_total [of x y] have "lt x y" by auto
    with Cons.prems(1) False show ?thesis by (auto intro: lt_trans)
  qed
qed simp

lemma sort_by_sorted: "distinct (map key xs) \<Longrightarrow> sorted_wrt lt (sort_by lt xs)"
  by (induction xs) (auto simp: sort_by_Cons intro!: insert_by_sorted)

lemma sorted_unique:
  assumes "sorted_wrt lt xs" and "sorted_wrt lt ys" and "set xs = set ys"
  shows "xs = ys"
  using assms
proof (induction xs arbitrary: ys)
  case Nil
  then show ?case by simp
next
  case (Cons x xs)
  then obtain y zs where ys: "ys = y # zs" by (cases ys) auto
  have xy: "x = y"
  proof (rule ccontr)
    assume "x \<noteq> y"
    with Cons.prems ys have "lt x y" and "lt y x" by (metis insertE list.set(2) list.set_intros(1) sorted_wrt.simps(2))+
    then show False using lt_asym by blast
  qed
  have "x \<notin> set xs" using Cons.prems(1) lt_irrefl by auto
  moreover have "y \<notin> set zs" using Cons.prems(2) ys lt_irrefl by auto
  ultimately have "set xs = set zs" using Cons.prems(3) ys xy by auto
  with Cons.IH Cons.prems ys xy show ?case by auto
qed

text \<open>Any sorted arrangement of the same elements is the one \<open>sort_by\<close> returns.\<close>

lemma sort_by_canonical:
  assumes "distinct (map key xs)" and "sorted_wrt lt ys" and "set ys = set xs"
  shows "sort_by lt xs = ys"
  using assms by (intro sorted_unique) (auto simp: sort_by_sorted)

lemma sort_by_order_irrelevant:
  assumes "distinct (map key xs)" and "distinct (map key ys)" and "set xs = set ys"
  shows "sort_by lt xs = sort_by lt ys"
  using assms by (intro sorted_unique) (auto simp: sort_by_sorted)

lemma sort_by_filter:
  assumes "distinct (map key xs)"
  shows "sort_by lt (filter P xs) = filter P (sort_by lt xs)"
  using assms by (intro sort_by_canonical) (auto simp: distinct_map_filter sort_by_sorted sorted_wrt_filter)

text \<open>What follows an element of a sorted list is what the order puts after it.\<close>

lemma filter_lt_nth:
  assumes "sorted_wrt lt xs" and "k < length xs"
  shows "filter (lt (xs ! k)) xs = drop (Suc k) xs"
proof -
  have "xs = take (Suc k) xs @ drop (Suc k) xs" by simp
  moreover have "filter (lt (xs ! k)) (take (Suc k) xs) = []"
    using assms lt_irrefl lt_asym
    by (fastforce simp: filter_empty_conv in_set_conv_nth sorted_wrt_iff_nth_less less_Suc_eq)
  moreover have "filter (lt (xs ! k)) (drop (Suc k) xs) = drop (Suc k) xs"
    using assms by (auto simp: filter_id_conv in_set_conv_nth sorted_wrt_iff_nth_less)
  ultimately show ?thesis by (metis append_Nil filter_append)
qed

end

end
