(* ===== verification/Apperr.thy ===== *)
theory Apperr
  imports Prelude
begin

text \<open>
  Errors: the shared vocabulary of \<open>internal/apperr\<close> and the error values of the program.

  A Go error is a tree: a value of a concrete type, possibly wrapping others. The datatype
  below has one constructor per concrete error type the program creates or tests for, and
  \<open>chain\<close> is the order in which \<open>errors.Is\<close> and \<open>errors.As\<close> visit the tree.
  A function returning \<open>(T, error)\<close> is a value of \<open>'a result\<close>.
\<close>

subsection \<open>Kinds (kind.go)\<close>

type_synonym kind = uint8

abbreviation Internal :: kind where "Internal \<equiv> 0"
abbreviation Invalid :: kind where "Invalid \<equiv> 1"
abbreviation Unauthenticated :: kind where "Unauthenticated \<equiv> 2"
abbreviation Forbidden :: kind where "Forbidden \<equiv> 3"
abbreviation NotFound :: kind where "NotFound \<equiv> 4"
abbreviation Conflict :: kind where "Conflict \<equiv> 5"
abbreviation Unprocessable :: kind where "Unprocessable \<equiv> 6"
abbreviation Exhausted :: kind where "Exhausted \<equiv> 7"
abbreviation Unavailable :: kind where "Unavailable \<equiv> 8"
abbreviation Timeout :: kind where "Timeout \<equiv> 9"
abbreviation Canceled :: kind where "Canceled \<equiv> 10"

definition normalize :: "kind \<Rightarrow> kind" where
  "normalize k = (if k > Canceled then Internal else k)"

definition kind_string :: "kind \<Rightarrow> string" where
  "kind_string k =
     (let n = normalize k in
      if n = Invalid then ''invalid''
      else if n = Unauthenticated then ''unauthenticated''
      else if n = Forbidden then ''forbidden''
      else if n = NotFound then ''not_found''
      else if n = Conflict then ''conflict''
      else if n = Unprocessable then ''unprocessable''
      else if n = Exhausted then ''exhausted''
      else if n = Unavailable then ''unavailable''
      else if n = Timeout then ''timeout''
      else if n = Canceled then ''canceled''
      else ''internal'')"

definition kind_message :: "kind \<Rightarrow> string" where
  "kind_message k =
     (let n = normalize k in
      if n = Invalid then ''invalid argument''
      else if n = Unauthenticated then ''unauthenticated''
      else if n = Forbidden then ''forbidden''
      else if n = NotFound then ''not found''
      else if n = Conflict then ''conflict''
      else if n = Unprocessable then ''unprocessable request''
      else if n = Exhausted then ''too many requests''
      else if n = Unavailable then ''temporarily unavailable''
      else if n = Timeout then ''timed out''
      else if n = Canceled then ''canceled''
      else ''internal error'')"

definition kind_retryable :: "kind \<Rightarrow> bool" where
  "kind_retryable k =
     (let n = normalize k in
      n = Unavailable \<or> n = Timeout \<or> n = Internal \<or> n = Canceled \<or> n = Exhausted)"

subsection \<open>Error values\<close>

text \<open>
  \<open>AppError\<close> is \<open>*apperr.Error\<close>. \<open>WrapError\<close> is \<open>fmt.Errorf\<close> with a text and one
  \<open>%w\<close> at its end, and any library error that unwraps to another (\<open>retrypolicy.ExceededError\<close>); \<open>WrapBoth\<close> is \<open>fmt.Errorf("%w: %w", a, b)\<close>. The constants are the
  standard library's and the queue's sentinels. \<open>LibError\<close> is a sentinel of a library the
  program compares with or receives (\<open>pgx.ErrNoRows\<close>, \<open>circuitbreaker.ErrOpen\<close>,
  \<open>budget.ErrExceeded\<close>, \<open>timeout.ErrExceeded\<close>, \<open>http.ErrAbortHandler\<close>, and the type \<open>*http.MaxBytesError\<close>), carrying whatever text the library gives it. \<open>PlainError\<close> is any error without a type of its own
  here, a driver's or \<open>errors.New\<close>'s. \<open>PanicError\<close> stands where the code would panic.
\<close>

datatype lib_sentinel = NoRows | CircuitOpen | BudgetExceeded | TimeLimitExceeded | MaxBytes | AbortHandler

datatype go_error =
    AppError (err_kind: kind) (err_field: string) (err_msg: string) (err_cause: "go_error option")
  | WrapError string go_error
  | WrapBoth go_error go_error
  | ContextCanceled
  | DeadlineExceeded
  | ErrTerminal
  | SnoozeError duration string
  | LibError lib_sentinel string
  | PlainError string
  | PanicError string

type_synonym 'a result = "go_error + 'a"

fun chain :: "go_error \<Rightarrow> go_error list" where
  "chain (AppError k f m None) = [AppError k f m None]"
| "chain (AppError k f m (Some c)) = AppError k f m (Some c) # chain c"
| "chain (WrapError t e) = WrapError t e # chain e"
| "chain (WrapBoth a b) = WrapBoth a b # chain a @ chain b"
| "chain e = [e]"

fun is_app :: "go_error \<Rightarrow> bool" where
  "is_app (AppError k f m c) = True"
| "is_app e = False"

fun is_snooze_value :: "go_error \<Rightarrow> bool" where
  "is_snooze_value (SnoozeError d r) = True"
| "is_snooze_value e = False"

text \<open>\<open>errors.As\<close> for the two types it is used with.\<close>

definition as_app :: "go_error \<Rightarrow> go_error option" where
  "as_app e = find is_app (chain e)"

definition as_snooze :: "go_error \<Rightarrow> go_error option" where
  "as_snooze e = find is_snooze_value (chain e)"

subsection \<open>Classified errors (error.go)\<close>

fun error_text :: "go_error \<Rightarrow> string" where
  "error_text (AppError k f m c) =
     (if f \<noteq> [] then f @ '': '' else []) @
     (if m \<noteq> [] then m else kind_message k) @
     (case c of None \<Rightarrow> [] | Some e \<Rightarrow> '': '' @ error_text e)"
| "error_text (WrapError t e) = t @ error_text e"
| "error_text (WrapBoth a b) = error_text a @ '': '' @ error_text b"
| "error_text ContextCanceled = ''context canceled''"
| "error_text DeadlineExceeded = ''context deadline exceeded''"
| "error_text ErrTerminal = ''terminal''"
| "error_text (SnoozeError d r) =
     (if r = [] then ''snoozed for '' @ duration_string d
      else ''snoozed for '' @ duration_string d @ '': '' @ r)"
| "error_text (LibError s t) = t"
| "error_text (PlainError t) = t"
| "error_text (PanicError t) = t"

text \<open>\<open>Error.Is\<close>: a classified error matches a target that is classified the same way.\<close>

definition app_is :: "go_error \<Rightarrow> go_error \<Rightarrow> bool" where
  "app_is e target = (case as_app target of None \<Rightarrow> False | Some t \<Rightarrow> err_kind t = err_kind e)"

text \<open>\<open>errors.Is\<close>: some error of the chain is the target, or says that it matches it.\<close>

definition errors_is :: "go_error \<Rightarrow> go_error \<Rightarrow> bool" where
  "errors_is e target = list_ex (\<lambda>x. x = target \<or> (is_app x \<and> app_is x target)) (chain e)"

fun is_lib :: "lib_sentinel \<Rightarrow> go_error \<Rightarrow> bool" where
  "is_lib s (LibError s' t) = (s' = s)"
| "is_lib s e = False"

definition errors_is_lib :: "go_error \<Rightarrow> lib_sentinel \<Rightarrow> bool" where
  "errors_is_lib e s = list_ex (is_lib s) (chain e)"

definition New :: "kind \<Rightarrow> string \<Rightarrow> go_error" where
  "New k m = AppError k [] m None"

definition Wrap :: "kind \<Rightarrow> go_error \<Rightarrow> string \<Rightarrow> go_error" where
  "Wrap k e m = AppError k [] m (Some e)"

definition Field :: "string \<Rightarrow> string \<Rightarrow> go_error" where
  "Field name m = AppError Invalid name m None"

definition KindOf :: "go_error option \<Rightarrow> kind" where
  "KindOf err =
     (case err of
        None \<Rightarrow> Internal
      | Some e \<Rightarrow>
          (case as_app e of
             Some a \<Rightarrow> err_kind a
           | None \<Rightarrow>
               if errors_is e ContextCanceled then Canceled
               else if errors_is e DeadlineExceeded then Timeout
               else Internal))"

definition Is :: "go_error option \<Rightarrow> kind \<Rightarrow> bool" where
  "Is err k \<longleftrightarrow> KindOf err = k"

definition FieldOf :: "go_error \<Rightarrow> string" where
  "FieldOf e = (case as_app e of Some a \<Rightarrow> err_field a | None \<Rightarrow> [])"

definition Message :: "go_error option \<Rightarrow> string" where
  "Message err =
     (let k = KindOf err in
      if k = Internal then kind_message Internal
      else
        (case Option.bind err as_app of
           None \<Rightarrow> kind_message k
         | Some a \<Rightarrow>
             (let m = (if err_msg a = [] then kind_message (err_kind a) else err_msg a) in
              if err_field a \<noteq> [] then err_field a @ '': '' @ m else m)))"

definition Retryable :: "go_error option \<Rightarrow> bool" where
  "Retryable err = kind_retryable (KindOf err)"

subsection \<open>Facts about kinds\<close>

lemma kind_cases:
  assumes "k \<le> Canceled"
  shows "k \<in> {Internal, Invalid, Unauthenticated, Forbidden, NotFound, Conflict, Unprocessable,
              Exhausted, Unavailable, Timeout, Canceled}"
proof -
  have "unat k \<le> 10" using assms by (simp add: word_le_nat_alt)
  then have "unat k \<in> {0, 1, 2, 3, 4, 5, 6, 7, 8, 9, 10}" by (simp; presburger)
  then have "word_of_nat (unat k) \<in> (word_of_nat ` {0, 1, 2, 3, 4, 5, 6, 7, 8, 9, 10} :: kind set)"
    by (rule imageI)
  then show ?thesis by simp
qed

lemma normalize_le [simp]: "normalize k \<le> Canceled"
  by (simp add: normalize_def not_less)

lemma normalize_idem [simp]: "normalize (normalize k) = normalize k"
  by (simp add: normalize_def)

lemma normalize_id [simp]: "k \<le> Canceled \<Longrightarrow> normalize k = k"
  by (simp add: normalize_def not_less [symmetric])

lemma kind_string_normalize: "kind_string (normalize k) = kind_string k"
  by (simp add: kind_string_def)

lemma kind_retryable_normalize: "kind_retryable (normalize k) = kind_retryable k"
  by (simp add: kind_retryable_def)

subsection \<open>Facts about chains\<close>

lemma chain_not_Nil [simp]: "chain e \<noteq> []"
  by (cases e rule: chain.cases) auto

lemma chain_self: "e \<in> set (chain e)"
  by (cases e rule: chain.cases) auto

lemma hd_chain [simp]: "hd (chain e) = e"
  by (cases e rule: chain.cases) auto

lemma chain_Cons: "chain e = e # tl (chain e)"
  by (metis chain_not_Nil hd_chain list.collapse)

lemma as_app_AppError [simp]: "as_app (AppError k f m c) = Some (AppError k f m c)"
  unfolding as_app_def by (subst chain_Cons) simp

lemma as_app_WrapError [simp]: "as_app (WrapError t e) = as_app e"
  by (simp add: as_app_def)

lemma as_app_is_app: "as_app e = Some a \<Longrightarrow> is_app a \<and> a \<in> set (chain e)"
  by (auto simp: as_app_def find_Some_iff in_set_conv_nth)

lemma is_app_elim: "is_app a \<Longrightarrow> (\<And>k f m c. a = AppError k f m c \<Longrightarrow> P) \<Longrightarrow> P"
  by (cases a) auto

lemma errors_is_WrapError [simp]:
  "(\<And>t' e'. target \<noteq> WrapError t' e') \<Longrightarrow> errors_is (WrapError t e) target = errors_is e target"
  by (auto simp: errors_is_def)

lemma errors_is_self [simp]: "errors_is e e"
  using chain_self [of e] by (auto simp: errors_is_def list_ex_iff)

lemma KindOf_WrapError [simp]: "KindOf (Some (WrapError t e)) = KindOf (Some e)"
  by (simp add: KindOf_def)

lemma KindOf_AppError [simp]: "KindOf (Some (AppError k f m c)) = k"
  by (simp add: KindOf_def)

lemma KindOf_wraps [simp]: "KindOf (Some (foldr WrapError ts e)) = KindOf (Some e)"
  by (induction ts) simp_all

lemma as_app_wraps [simp]: "as_app (foldr WrapError ts e) = as_app e"
  by (induction ts) simp_all

lemma Retryable_WrapError [simp]: "Retryable (Some (WrapError t e)) = Retryable (Some e)"
  by (simp add: Retryable_def)

end
