(* ===== verification/Job_Table.thy ===== *)
theory Job_Table
  imports Apperr
begin

text \<open>
  The jobs table and every statement the program runs on it: the schema's \<open>jobs\<close> table, the
  producer's insert (\<open>internal/outbox/outbox.go\<close>), the worker's statements
  (\<open>internal/queue/store.go\<close>) and the maintenance statements (\<open>internal/queue/maintenance.go\<close>),
  with the job vocabulary of \<open>internal/queue/queue.go\<close>.

  A statement is a function on the table, applied atomically at the instant \<open>now\<close>. What the
  database may do to a call is a \<open>db_outcome\<close>: succeed, fail without effect, or take effect
  and lose the answer. How long a claimed job had waited, a metric the code computes in floating
  point, is not part of the job a claim returns here.
\<close>

subsection \<open>The schema\<close>

datatype job_state =
    StateAvailable | StateScheduled | StateRunning | StateRetryable
  | StateSucceeded | StateCancelled | StateDiscarded

fun state_text :: "job_state \<Rightarrow> string" where
  "state_text StateAvailable = ''available''"
| "state_text StateScheduled = ''scheduled''"
| "state_text StateRunning = ''running''"
| "state_text StateRetryable = ''retryable''"
| "state_text StateSucceeded = ''succeeded''"
| "state_text StateCancelled = ''cancelled''"
| "state_text StateDiscarded = ''discarded''"

record job_error =
  je_at :: time
  je_attempt :: int
  je_worker :: "string option"
  je_error :: string

record job_row =
  j_id :: int
  j_kind :: string
  j_payload :: string
  j_state :: job_state
  j_priority :: int
  j_attempt :: int
  j_max_attempts :: int
  j_scheduled_at :: time
  j_locked_by :: "string option"
  j_locked_at :: "time option"
  j_lease :: "time option"
  j_heartbeat_at :: "time option"
  j_attempted_by :: "string list"
  j_errors :: "job_error list"
  j_unique_key :: "string option"
  j_created_at :: time
  j_finalized_at :: "time option"

type_synonym jobs = "job_row list"

text \<open>\<open>queue.Job\<close>: what a claim hands to a worker.\<close>

record job =
  job_id :: int
  job_kind :: string
  job_payload :: string
  job_attempt :: int
  job_max_attempts :: int

datatype db_outcome = DbOk | DbFailed go_error | DbLost go_error

fun db_run :: "db_outcome \<Rightarrow> (go_error \<Rightarrow> go_error) \<Rightarrow> 'a \<times> jobs \<Rightarrow> jobs \<Rightarrow> 'a result \<times> jobs" where
  "db_run DbOk wrap (a, rows') rows = (Inr a, rows')"
| "db_run (DbFailed e) wrap (a, rows') rows = (Inl (wrap e), rows)"
| "db_run (DbLost e) wrap (a, rows') rows = (Inl (wrap e), rows')"

definition live :: "job_state \<Rightarrow> bool" where
  "live s \<longleftrightarrow> s = StateAvailable \<or> s = StateScheduled \<or> s = StateRunning \<or> s = StateRetryable"

text \<open>The partial unique index \<open>jobs_unique_key_idx\<close>.\<close>

definition key_taken :: "string option \<Rightarrow> jobs \<Rightarrow> bool" where
  "key_taken k rows \<longleftrightarrow> k \<noteq> None \<and> list_ex (\<lambda>r. live (j_state r) \<and> j_unique_key r = k) rows"

subsection \<open>The producer (outbox.go)\<close>

record 'p outbox_job =
  ob_kind :: string
  ob_payload :: 'p
  ob_unique_key :: string
  ob_max_attempts :: int

text \<open>
  The row an insert adds. The identity column takes the next value of its sequence whether or
  not the row is kept. \<open>CHECK (max_attempts >= 1)\<close> refuses a negative override.
\<close>

definition new_row :: "int \<Rightarrow> time \<Rightarrow> string \<Rightarrow> string \<Rightarrow> string \<Rightarrow> int \<Rightarrow> job_row" where
  "new_row i now kind payload key limit =
     \<lparr>j_id = i, j_kind = kind, j_payload = payload, j_state = StateAvailable, j_priority = 0,
      j_attempt = 0, j_max_attempts = (if limit = 0 then 5 else limit), j_scheduled_at = now,
      j_locked_by = None, j_locked_at = None, j_lease = None, j_heartbeat_at = None,
      j_attempted_by = [], j_errors = [], j_unique_key = (if key = [] then None else Some key),
      j_created_at = now, j_finalized_at = None\<rparr>"

definition check_violation :: go_error where
  "check_violation = PlainError ''violates check constraint''"

definition Enqueue ::
  "('p \<Rightarrow> string result) \<Rightarrow> db_outcome \<Rightarrow> time \<Rightarrow> int \<Rightarrow> 'p outbox_job \<Rightarrow> jobs \<Rightarrow> bool result \<times> jobs"
where
  "Enqueue marshal db now seq j rows =
     (if ob_kind j = [] then (Inl (PlainError ''outbox: job kind is required''), rows)
      else
        (case marshal (ob_payload j) of
           Inl e \<Rightarrow> (Inl (WrapError (''outbox: marshal payload for '' @ ob_kind j @ '': '') e), rows)
         | Inr payload \<Rightarrow>
             (let wrap = WrapError (''outbox: enqueue '' @ ob_kind j @ '': '');
                  row = new_row seq now (ob_kind j) payload (ob_unique_key j) (ob_max_attempts j) in
              if j_max_attempts row < 1 then db_run (DbFailed check_violation) wrap (False, rows) rows
              else if key_taken (j_unique_key row) rows then db_run db wrap (False, rows) rows
              else db_run db wrap (True, rows @ [row]) rows)))"

subsection \<open>The worker's statements (store.go)\<close>

definition claimable :: "time \<Rightarrow> job_row \<Rightarrow> bool" where
  "claimable now r \<longleftrightarrow> j_state r = StateAvailable \<and> j_scheduled_at r \<le> now"

definition claim_before :: "job_row \<Rightarrow> job_row \<Rightarrow> bool" where
  "claim_before a b \<longleftrightarrow>
     (j_priority a < j_priority b \<or> j_priority a = j_priority b \<and>
       (j_scheduled_at a < j_scheduled_at b \<or> j_scheduled_at a = j_scheduled_at b \<and> j_id a < j_id b))"

text \<open>
  The rows the claim's CTE selects: due, not locked by a concurrent statement (\<open>SKIP LOCKED\<close>),
  the first \<open>batch\<close> of them in index order.
\<close>

definition claim_ids :: "(int \<Rightarrow> bool) \<Rightarrow> nat \<Rightarrow> time \<Rightarrow> jobs \<Rightarrow> int list" where
  "claim_ids locked batch now rows =
     map j_id (take batch (sort_by claim_before
       (filter (\<lambda>r. claimable now r \<and> \<not> locked (j_id r)) rows)))"

definition claim_row :: "string \<Rightarrow> duration \<Rightarrow> time \<Rightarrow> job_row \<Rightarrow> job_row" where
  "claim_row w lease now r =
     r\<lparr>j_state := StateRunning, j_attempt := j_attempt r + 1, j_locked_by := Some w,
       j_locked_at := Some now, j_lease := Some (now + lease), j_heartbeat_at := Some now,
       j_attempted_by := j_attempted_by r @ [w]\<rparr>"

definition job_of :: "job_row \<Rightarrow> job" where
  "job_of r = \<lparr>job_id = j_id r, job_kind = j_kind r, job_payload = j_payload r,
     job_attempt = j_attempt r, job_max_attempts = j_max_attempts r\<rparr>"

definition Claim ::
  "db_outcome \<Rightarrow> (int \<Rightarrow> bool) \<Rightarrow> time \<Rightarrow> string \<Rightarrow> nat \<Rightarrow> duration \<Rightarrow> jobs \<Rightarrow> job list result \<times> jobs" where
  "Claim db locked now w batch lease rows =
     (let ids = claim_ids locked batch now rows;
          rows' = sql_update (\<lambda>r. j_id r \<in> set ids) (claim_row w lease now) rows in
      db_run db (WrapError ''queue: claim: '')
        (map job_of (filter (\<lambda>r. j_id r \<in> set ids) rows'), rows') rows)"

definition held_by :: "string \<Rightarrow> int list \<Rightarrow> job_row \<Rightarrow> bool" where
  "held_by w ids r \<longleftrightarrow> j_id r \<in> set ids \<and> j_state r = StateRunning \<and> j_locked_by r = Some w"

definition Heartbeat ::
  "db_outcome \<Rightarrow> time \<Rightarrow> string \<Rightarrow> int list \<Rightarrow> duration \<Rightarrow> jobs \<Rightarrow> nat result \<times> jobs" where
  "Heartbeat db now w ids lease rows =
     (if ids = [] then (Inr 0, rows)
      else
        db_run db (WrapError ''queue: heartbeat: '')
          (sql_count (held_by w ids) rows,
           sql_update (held_by w ids)
             (\<lambda>r. r\<lparr>j_heartbeat_at := Some now, j_lease := Some (now + lease)\<rparr>) rows) rows)"

text \<open>The claim guard, and the lock columns every completion clears.\<close>

definition claimGuard :: "string \<Rightarrow> job \<Rightarrow> job_row \<Rightarrow> bool" where
  "claimGuard w j r \<longleftrightarrow> j_id r = job_id j \<and> j_state r = StateRunning \<and> j_locked_by r = Some w \<and>
     j_attempt r = job_attempt j"

definition unlock :: "job_row \<Rightarrow> job_row" where
  "unlock r = r\<lparr>j_locked_by := None, j_locked_at := None, j_lease := None\<rparr>"

definition log_error :: "time \<Rightarrow> string option \<Rightarrow> string \<Rightarrow> job_row \<Rightarrow> job_row" where
  "log_error now w t r =
     r\<lparr>j_errors := j_errors r @ [\<lparr>je_at = now, je_attempt = j_attempt r, je_worker = w, je_error = t\<rparr>]\<rparr>"

text \<open>\<open>errText\<close> keeps 1024 bytes of a longer text and marks the cut with U+2026, in UTF-8.\<close>

definition errText :: "go_error option \<Rightarrow> string" where
  "errText err =
     (case err of
        None \<Rightarrow> []
      | Some e \<Rightarrow>
          (let s = error_text e in
           if length s > 1024 then take 1024 s @ map char_of [226, 128, 166 :: nat] else s))"

definition guarded ::
  "db_outcome \<Rightarrow> string \<Rightarrow> string \<Rightarrow> job \<Rightarrow> (job_row \<Rightarrow> job_row) \<Rightarrow> jobs \<Rightarrow> bool result \<times> jobs" where
  "guarded db op w j f rows =
     db_run db (WrapError (''queue: '' @ op @ '' job '' @ itoa (job_id j) @ '': ''))
       (sql_count (claimGuard w j) rows = 1, sql_update (claimGuard w j) f rows) rows"

definition Succeed :: "db_outcome \<Rightarrow> time \<Rightarrow> string \<Rightarrow> job \<Rightarrow> jobs \<Rightarrow> bool result \<times> jobs" where
  "Succeed db now w j rows =
     guarded db ''succeed'' w j
       (\<lambda>r. unlock (r\<lparr>j_state := StateSucceeded, j_finalized_at := Some now\<rparr>)) rows"

definition Retry ::
  "db_outcome \<Rightarrow> time \<Rightarrow> string \<Rightarrow> job \<Rightarrow> duration \<Rightarrow> go_error \<Rightarrow> jobs \<Rightarrow> bool result \<times> jobs" where
  "Retry db now w j delay cause rows =
     guarded db ''retry'' w j
       (\<lambda>r. log_error now (Some w) (errText (Some cause))
              (unlock (r\<lparr>j_state := StateRetryable, j_scheduled_at := now + delay\<rparr>))) rows"

definition terminal ::
  "db_outcome \<Rightarrow> time \<Rightarrow> string \<Rightarrow> job \<Rightarrow> job_state \<Rightarrow> go_error \<Rightarrow> jobs \<Rightarrow> bool result \<times> jobs" where
  "terminal db now w j st cause rows =
     guarded db (state_text st) w j
       (\<lambda>r. log_error now (Some w) (errText (Some cause))
              (unlock (r\<lparr>j_state := st, j_finalized_at := Some now\<rparr>))) rows"

definition Cancel ::
  "db_outcome \<Rightarrow> time \<Rightarrow> string \<Rightarrow> job \<Rightarrow> go_error \<Rightarrow> jobs \<Rightarrow> bool result \<times> jobs" where
  "Cancel db now w j cause rows = terminal db now w j StateCancelled cause rows"

definition Discard ::
  "db_outcome \<Rightarrow> time \<Rightarrow> string \<Rightarrow> job \<Rightarrow> go_error \<Rightarrow> jobs \<Rightarrow> bool result \<times> jobs" where
  "Discard db now w j cause rows = terminal db now w j StateDiscarded cause rows"

definition Store_Snooze ::
  "db_outcome \<Rightarrow> time \<Rightarrow> string \<Rightarrow> job \<Rightarrow> duration \<Rightarrow> jobs \<Rightarrow> bool result \<times> jobs" where
  "Store_Snooze db now w j delay rows =
     guarded db ''snooze'' w j
       (\<lambda>r. unlock (r\<lparr>j_state := StateScheduled, j_attempt := j_attempt r - 1,
                     j_scheduled_at := now + delay\<rparr>)) rows"

definition release_row :: "job_row \<Rightarrow> job_row" where
  "release_row r = unlock (r\<lparr>j_state := StateAvailable, j_attempt := j_attempt r - 1\<rparr>)"

definition Release :: "db_outcome \<Rightarrow> string \<Rightarrow> int list \<Rightarrow> jobs \<Rightarrow> nat result \<times> jobs" where
  "Release db w ids rows =
     (if ids = [] then (Inr 0, rows)
      else
        db_run db (WrapError ''queue: release: '')
          (sql_count (held_by w ids) rows, sql_update (held_by w ids) release_row rows) rows)"

record stat =
  st_kind :: string
  st_state :: job_state
  st_count :: nat
  st_oldest :: time

text \<open>
  \<open>Stats\<close> groups the live rows by kind and state. The group's age is reported here as the
  instant its oldest row was due; the code subtracts it from \<open>now()\<close>.
\<close>

definition stat_of :: "job_row list \<Rightarrow> string \<times> job_state \<Rightarrow> stat" where
  "stat_of lv g =
     (let rs = filter (\<lambda>r. j_kind r = fst g \<and> j_state r = snd g) lv in
      \<lparr>st_kind = fst g, st_state = snd g, st_count = length rs,
       st_oldest = Min (set (map j_scheduled_at rs))\<rparr>)"

definition Stats :: "db_outcome \<Rightarrow> jobs \<Rightarrow> stat list result" where
  "Stats db rows =
     (let lv = filter (\<lambda>r. live (j_state r)) rows in
      fst (db_run db (WrapError ''queue: stats: '')
        (map (stat_of lv) (remdups (map (\<lambda>r. (j_kind r, j_state r)) lv)), rows) rows))"

subsection \<open>The maintenance statements (maintenance.go)\<close>

definition lease_text :: string where
  "lease_text = ''lease expired: the worker holding this job stopped heartbeating''"

definition expired :: "time \<Rightarrow> job_row \<Rightarrow> bool" where
  "expired now r \<longleftrightarrow> j_state r = StateRunning \<and> (\<exists>l \<in> set_option (j_lease r). l < now)"

definition reap_row :: "time \<Rightarrow> duration \<Rightarrow> int \<Rightarrow> job_row \<Rightarrow> job_row" where
  "reap_row now delay cap r =
     log_error now (j_locked_by r) lease_text
       (unlock (r\<lparr>j_state := (if j_attempt r \<ge> min (j_max_attempts r) cap then StateDiscarded
                             else StateRetryable),
                 j_scheduled_at := now + delay,
                 j_finalized_at := (if j_attempt r \<ge> j_max_attempts r then Some now else None)\<rparr>))"

definition Reap ::
  "db_outcome \<Rightarrow> time \<Rightarrow> duration \<Rightarrow> int \<Rightarrow> jobs \<Rightarrow> (nat \<times> nat) result \<times> jobs" where
  "Reap db now delay cap rows =
     (let hit = map (reap_row now delay cap) (filter (expired now) rows);
          rows' = sql_update (expired now) (reap_row now delay cap) rows in
      case db of
        DbOk \<Rightarrow>
          (Inr (sql_count (\<lambda>r. j_state r \<noteq> StateDiscarded) hit, sql_count (\<lambda>r. j_state r = StateDiscarded) hit),
           rows')
      | DbFailed e \<Rightarrow> (Inl (WrapError ''queue: reap: '' e), rows)
      | DbLost e \<Rightarrow> (Inl e, rows'))"

definition due :: "time \<Rightarrow> job_row \<Rightarrow> bool" where
  "due now r \<longleftrightarrow> (j_state r = StateRetryable \<or> j_state r = StateScheduled) \<and> j_scheduled_at r \<le> now"

definition Schedule :: "db_outcome \<Rightarrow> time \<Rightarrow> jobs \<Rightarrow> nat result \<times> jobs" where
  "Schedule db now rows =
     db_run db (WrapError ''queue: schedule: '')
       (sql_count (due now) rows, sql_update (due now) (\<lambda>r. r\<lparr>j_state := StateAvailable\<rparr>) rows) rows"

definition purgeable :: "time \<Rightarrow> duration \<Rightarrow> duration \<Rightarrow> job_row \<Rightarrow> bool" where
  "purgeable now succeeded discarded r \<longleftrightarrow>
     (\<exists>f \<in> set_option (j_finalized_at r).
        j_state r = StateSucceeded \<and> f < now - succeeded \<or>
        (j_state r = StateCancelled \<or> j_state r = StateDiscarded) \<and> f < now - discarded)"

abbreviation purgeBatch :: nat where "purgeBatch \<equiv> 10000"

definition Purge ::
  "db_outcome \<Rightarrow> time \<Rightarrow> duration \<Rightarrow> duration \<Rightarrow> jobs \<Rightarrow> nat result \<times> jobs" where
  "Purge db now succeeded discarded rows =
     (let ids = map j_id (take purgeBatch (filter (purgeable now succeeded discarded) rows)) in
      db_run db (WrapError ''queue: purge: '')
        (sql_count (\<lambda>r. j_id r \<in> set ids) rows, filter (\<lambda>r. j_id r \<notin> set ids) rows) rows)"

end
