(* ===== verification/Backoff.thy ===== *)
theory Backoff
  imports Prelude
begin

text \<open>
  Retry delays, \<open>internal/queue/backoff.go\<close>.

  The code computes in \<open>float64\<close>. Every value it forms is an integer below \<open>2^1023\<close> or such an
  integer divided by \<open>2^53\<close>, so a float is modelled exactly by the integer it stands for, and
  every operation rounds its exact result to 53 significant bits, ties to even: \<open>fl\<close>.
  \<open>math.Pow(x, 4)\<close> squares twice, rounding each time. \<open>rand.Float64\<close> draws \<open>k / 2^53\<close> for a
  53-bit \<open>k\<close>, which is an argument.
\<close>

fun bit_length :: "nat \<Rightarrow> nat" where
  "bit_length n = (if n = 0 then 0 else Suc (bit_length (n div 2)))"

declare bit_length.simps [simp del]

definition fl_nat :: "nat \<Rightarrow> nat" where
  "fl_nat n =
     (if n < 2 ^ 53 then n
      else
        (let e = bit_length n - 53; q = n div 2 ^ e; r = n mod 2 ^ e; half = 2 ^ (e - 1) in
         if r < half \<or> r = half \<and> even q then q * 2 ^ e else (q + 1) * 2 ^ e))"

definition fl :: "int \<Rightarrow> int" where
  "fl i = (if i < 0 then - int (fl_nat (nat (- i))) else int (fl_nat (nat i)))"

record backoff =
  b_base :: duration
  b_max :: duration
  b_jitter :: string

definition NewBackoff :: "duration \<Rightarrow> duration \<Rightarrow> string \<Rightarrow> backoff" where
  "NewBackoff base mx jitter = \<lparr>b_base = base, b_max = mx, b_jitter = jitter\<rparr>"

definition pow4 :: "int \<Rightarrow> int" where
  "pow4 x = fl (fl (x * x) * fl (x * x))"

definition backoff_raw :: "backoff \<Rightarrow> int \<Rightarrow> duration" where
  "backoff_raw b attempt =
     (let n = (if attempt < 1 then 1 else attempt);
          window = fl (fl (b_base b) * pow4 (fl n)) in
      if window > fl (b_max b) then b_max b else window)"

definition backoff_For :: "backoff \<Rightarrow> nat \<Rightarrow> int \<Rightarrow> duration" where
  "backoff_For b k attempt =
     (let raw = backoff_raw b attempt in
      if b_jitter b = ''none'' then raw
      else if b_jitter b = ''equal'' then
        (let half = raw div 2 in half + fl (int k * fl half) div 2 ^ 53)
      else fl (int k * fl raw) div 2 ^ 53)"

subsection \<open>Rounding\<close>

lemma bit_length_le: "n \<noteq> 0 \<Longrightarrow> 2 ^ (bit_length n - 1) \<le> n"
proof (induction n rule: bit_length.induct)
  case (1 n)
  show ?case
  proof (cases "n div 2 = 0")
    case True
    with 1(2) show ?thesis by (simp add: bit_length.simps [of n] bit_length.simps [of 0])
  next
    case False
    then have "bit_length (n div 2) \<ge> 1" by (simp add: bit_length.simps [of "n div 2"])
    then have "2 ^ (bit_length n - 1) = 2 * (2 :: nat) ^ (bit_length (n div 2) - 1)"
      using 1(2) by (simp add: bit_length.simps [of n] power_Suc [symmetric] del: power_Suc)
    with 1(1) [OF 1(2) False] show ?thesis by linarith
  qed
qed

lemma less_bit_length: "n < 2 ^ bit_length n"
proof (induction n rule: bit_length.induct)
  case (1 n)
  then show ?case by (cases "n = 0") (auto simp: bit_length.simps [of n])
qed

lemma bit_length_ge: "2 ^ 53 \<le> n \<Longrightarrow> 54 \<le> bit_length n"
proof (rule ccontr)
  assume "2 ^ 53 \<le> n" and "\<not> 54 \<le> bit_length n"
  then have "(2 :: nat) ^ bit_length n \<le> 2 ^ 53" by (intro power_increasing) simp_all
  with less_bit_length [of n] \<open>2 ^ 53 \<le> n\<close> show False by linarith
qed

lemma round_error:
  fixes q r half :: nat
  assumes "r < 2 * half"
  shows "\<bar>int (if r < half \<or> r = half \<and> even q then q * (2 * half) else (q + 1) * (2 * half)) -
    int (q * (2 * half) + r)\<bar> \<le> int half"
  using assms by (auto simp: algebra_simps)

text \<open>Rounding is within one part in \<open>2^53\<close> of the exact value.\<close>

lemma fl_nat_error: "\<bar>int (fl_nat n) - int n\<bar> * 2 ^ 53 \<le> int n"
proof (cases "n < 2 ^ 53")
  case True
  then show ?thesis by (simp add: fl_nat_def)
next
  case False
  define e where "e = bit_length n - 53"
  define half :: nat where "half = 2 ^ (e - 1)"
  have e: "1 \<le> e" "bit_length n - 1 = (e - 1) + 53" using bit_length_ge [of n] False by (simp_all add: e_def)
  have two: "(2 :: nat) ^ e = 2 * half" using e(1) by (simp add: half_def power_Suc [symmetric] del: power_Suc)
  define q r where "q = n div 2 ^ e" and "r = n mod 2 ^ e"
  have n: "n = q * (2 * half) + r" unfolding q_def r_def two [symmetric] by (rule div_mult_mod_eq [symmetric])
  have r: "r < 2 * half" unfolding r_def two [symmetric] by simp
  have "fl_nat n = (if r < half \<or> r = half \<and> even q then q * (2 * half) else (q + 1) * (2 * half))"
    using False unfolding fl_nat_def e_def [symmetric] half_def [symmetric] q_def r_def two [symmetric] Let_def
    by simp
  then have "\<bar>int (fl_nat n) - int n\<bar> \<le> int half"
    using round_error [OF r, of q] by (simp only: n [symmetric])
  moreover have "half * 2 ^ 53 \<le> n"
    using bit_length_le [of n] False unfolding half_def e(2) power_add by (cases "n = 0") simp_all
  then have "int half * 2 ^ 53 \<le> int n" by (metis of_nat_le_iff of_nat_mult of_nat_numeral of_nat_power)
  ultimately show ?thesis by (smt (verit) mult_right_mono zero_le_power)
qed

lemma fl_error: "0 \<le> n \<Longrightarrow> \<bar>fl n - n\<bar> * 2 ^ 53 \<le> n"
  using fl_nat_error [of "nat n"] by (simp add: fl_def)

lemma fl_nonneg: "0 \<le> n \<Longrightarrow> 0 \<le> fl n"
  by (simp add: fl_def)

lemma fl_exact: "0 \<le> n \<Longrightarrow> n \<le> 2 ^ 53 \<Longrightarrow> fl n = n"
proof -
  assume n: "0 \<le> n" "n \<le> 2 ^ 53"
  show "fl n = n"
  proof (cases "n < 2 ^ 53")
    case True
    then have "nat n < 2 ^ 53" using n(1) by (simp add: nat_less_iff)
    then show ?thesis using n(1) by (simp add: fl_def fl_nat_def)
  next
    case False
    then have "n = 2 ^ 53" using n(2) by simp
    then show ?thesis by (simp add: fl_def fl_nat_def bit_length.simps Let_def)
  qed
qed

lemma fl_lower: "0 \<le> n \<Longrightarrow> min n (2 ^ 53) \<le> fl n"
proof (cases "n \<le> 2 ^ 53")
  case False
  assume "0 \<le> n"
  then have "(n - fl n) * 2 ^ 53 \<le> n" using fl_error [of n] by (smt (verit) mult_right_mono zero_le_power)
  with False show ?thesis by simp
qed (simp add: fl_exact)

lemma fl_upper: "0 \<le> n \<Longrightarrow> (fl n - n) * 2 ^ 53 \<le> n"
  using fl_error [of n] by (smt (verit) mult_right_mono zero_le_power)

subsection \<open>The window\<close>

text \<open>What saturates at \<open>2^53\<close> stays saturated under products.\<close>

lemma saturating_mult:
  fixes a b x y m :: int
  assumes "min x m \<le> a" and "min y m \<le> b" and "1 \<le> x" and "1 \<le> y" and "1 \<le> m"
  shows "min (x * y) m \<le> a * b"
proof -
  have a: "1 \<le> a" and b: "1 \<le> b" using assms by auto
  consider "m \<le> a" | "m \<le> b" | "x \<le> a" "y \<le> b" using assms(1,2) by linarith
  then show ?thesis
  proof cases
    case 1
    then have "m * 1 \<le> a * b" using b assms(5) by (intro mult_mono) simp_all
    then show ?thesis by simp
  next
    case 2
    then have "1 * m \<le> a * b" using a assms(5) by (intro mult_mono) simp_all
    then show ?thesis by simp
  next
    case 3
    then have "x * y \<le> a * b" using assms(3,4) a b by (intro mult_mono) simp_all
    then show ?thesis by simp
  qed
qed

lemma fl_saturating:
  assumes "min x (2 ^ 53) \<le> a" and "1 \<le> x"
  shows "min x (2 ^ 53) \<le> fl a"
proof -
  have "0 \<le> a" using assms by (smt (verit) zero_le_power)
  with fl_lower [of a] assms(1) show ?thesis by linarith
qed

lemma backoff_raw_exact:
  assumes "1 \<le> b_base b" and "0 \<le> b_max b" and "b_max b \<le> 2 ^ 53" and "1 \<le> n"
  shows "backoff_raw b n = min (b_max b) (b_base b * n ^ 4)"
proof -
  let ?B = "2 ^ 53 :: int" and ?w = "fl (fl (b_base b) * pow4 (fl n))"
  have sq: "1 \<le> n * n" and four: "n * n * (n * n) = n ^ 4"
    using assms(4) by (simp_all add: power4_eq_xxxx mult.assoc) (smt (verit) mult_le_cancel_left1)
  have four1: "1 \<le> n ^ 4" using assms(4) by simp
  have mx: "fl (b_max b) = b_max b" using assms(2,3) by (simp add: fl_exact)
  show ?thesis
  proof (cases "b_base b * n ^ 4 \<le> b_max b")
    case True
    then have le: "b_base b * n ^ 4 \<le> ?B" using assms(3) by simp
    have "n ^ 4 \<le> b_base b * n ^ 4" using assms(1) four1 by (simp add: mult_le_cancel_right1)
    then have p: "n ^ 4 \<le> ?B" using le by linarith
    have "n * n \<le> n * n * (n * n)" using sq by (simp add: mult_le_cancel_left1)
    then have q: "n * n \<le> ?B" using p four by linarith
    have r: "n \<le> n * n" using assms(4) by (simp add: mult_le_cancel_left1)
    have nB: "n \<le> ?B" using q r by linarith
    have s: "b_base b \<le> b_base b * n ^ 4" using assms(1) four1 by (simp add: mult_le_cancel_left1)
    have "pow4 (fl n) = n ^ 4"
      using p sq q four1 fl_exact [OF _ nB] fl_exact [of "n * n"] fl_exact [of "n ^ 4"] assms(4)
      by (simp add: pow4_def four)
    moreover have "fl (b_base b) = b_base b" using assms(1) s le by (intro fl_exact) linarith+
    ultimately have "?w = b_base b * n ^ 4" using assms(1) le four1 by (simp add: fl_exact)
    with True show ?thesis using assms(4) mx by (simp add: backoff_raw_def Let_def)
  next
    case False
    have n: "min n ?B \<le> fl n" using assms(4) by (intro fl_lower) simp
    have "min (n * n) ?B \<le> fl (fl n * fl n)"
      using saturating_mult [OF n n] assms(4) by (intro fl_saturating sq) simp_all
    from saturating_mult [OF this this] have "min (n * n * (n * n)) ?B \<le> pow4 (fl n)"
      unfolding pow4_def four using sq four1 by (intro fl_saturating) simp_all
    moreover have "min (b_base b) ?B \<le> fl (b_base b)" using assms(1) by (intro fl_lower) simp
    ultimately have "min (b_base b * n ^ 4) ?B \<le> fl (b_base b) * pow4 (fl n)"
      unfolding four using assms(1) four1 saturating_mult by simp
    then have "min (b_base b * n ^ 4) ?B \<le> ?w"
      using assms(1) four1 mult_mono [of 1 "b_base b" 1 "n ^ 4"] by (intro fl_saturating) simp_all
    with False assms(3) have "b_max b \<le> ?w" by linarith
    with False show ?thesis using assms(4) mx by (simp add: backoff_raw_def Let_def)
  qed
qed

subsection \<open>The delay\<close>

text \<open>A draw scaled by a window stays below the window.\<close>

lemma draw_bounds:
  assumes "k < 2 ^ 53" and "0 \<le> h" and "h \<le> 2 ^ 53"
  shows "0 \<le> fl (int k * fl h) div 2 ^ 53" and "fl (int k * fl h) div 2 ^ 53 \<le> h"
    and "0 < h \<Longrightarrow> fl (int k * fl h) div 2 ^ 53 < h"
proof -
  have h: "fl h = h" using assms by (simp add: fl_exact)
  let ?n = "int k * h"
  have n0: "0 \<le> ?n" using assms(2) by simp
  show "0 \<le> fl (int k * fl h) div 2 ^ 53" using fl_nonneg [OF n0] h by (simp add: pos_imp_zdiv_nonneg_iff)
  have "int k < int (2 ^ 53)" using assms(1) by (simp only: of_nat_less_iff)
  then have "int k \<le> 2 ^ 53 - 1" by simp
  then have kn: "?n \<le> (2 ^ 53 - 1) * h" using assms(2) by (rule mult_right_mono)
  show strict: "fl (int k * fl h) div 2 ^ 53 < h" if "0 < h"
  proof -
    have "fl ?n * 2 ^ 53 \<le> ?n * (2 ^ 53 + 1)" using fl_upper [OF n0] by (simp add: algebra_simps)
    also have "\<dots> \<le> (2 ^ 53 - 1) * h * (2 ^ 53 + 1)" using kn by (rule mult_right_mono) simp
    also have "\<dots> < (h * 2 ^ 53) * 2 ^ 53" using that by simp
    finally have "fl ?n < h * 2 ^ 53" by (simp only: mult_less_cancel_right) simp
    then show ?thesis using h by (simp add: div_less_iff_less_mult)
  qed
  show "fl (int k * fl h) div 2 ^ 53 \<le> h"
  proof (cases "0 < h")
    case True
    from strict [OF this] show ?thesis by (rule less_imp_le)
  next
    case False
    then have "h = 0" using assms(2) by simp
    then show ?thesis by (simp add: fl_def fl_nat_def)
  qed
qed

lemma backoff_raw_bounds:
  assumes "1 \<le> b_base b" and "0 \<le> b_max b" and "b_max b \<le> 2 ^ 53"
  shows "0 \<le> backoff_raw b n" and "backoff_raw b n \<le> b_max b"
proof -
  have "backoff_raw b n = backoff_raw b (max n 1)" by (simp add: backoff_raw_def max_def)
  also have "\<dots> = min (b_max b) (b_base b * (max n 1) ^ 4)" by (rule backoff_raw_exact [OF assms]) simp
  finally have eq: "backoff_raw b n = min (b_max b) (b_base b * (max n 1) ^ 4)" .
  have "0 \<le> b_base b * (max n 1) ^ 4" using assms(1) by simp
  then show "0 \<le> backoff_raw b n" and "backoff_raw b n \<le> b_max b" using eq assms(2) by simp_all
qed

lemma backoff_For_bounds:
  assumes "1 \<le> b_base b" and "0 \<le> b_max b" and "b_max b \<le> 2 ^ 53" and "k < 2 ^ 53"
  shows "0 \<le> backoff_For b k n" and "backoff_For b k n \<le> b_max b"
proof -
  note r = backoff_raw_bounds [OF assms(1-3), of n]
  have half: "0 \<le> backoff_raw b n div 2" "backoff_raw b n div 2 \<le> 2 ^ 53" using r assms(3) by linarith+
  have d: "0 \<le> fl (int k * fl (backoff_raw b n)) div 2 ^ 53"
    "fl (int k * fl (backoff_raw b n)) div 2 ^ 53 \<le> backoff_raw b n"
    using draw_bounds [OF assms(4) r(1)] r(2) assms(3) by auto
  have e: "0 \<le> fl (int k * fl (backoff_raw b n div 2)) div 2 ^ 53"
    "fl (int k * fl (backoff_raw b n div 2)) div 2 ^ 53 \<le> backoff_raw b n div 2"
    using draw_bounds [OF assms(4) half] by blast+
  then have "backoff_raw b n div 2 + fl (int k * fl (backoff_raw b n div 2)) div 2 ^ 53 \<le> backoff_raw b n"
    by linarith
  then show "0 \<le> backoff_For b k n" and "backoff_For b k n \<le> b_max b"
    using d e half r by (simp_all add: backoff_For_def Let_def)
qed

text \<open>
  C24: The retry delay: with a positive base and a cap of at most \<open>2^53\<close> nanoseconds (104 days),
  the un-jittered window is exactly the cap or \<open>base * attempt^4\<close>, whichever is smaller, with no
  rounding and no overflow however large the attempt; no jitter returns it, full jitter returns a
  delay in \<open>[0, window)\<close> and equal jitter one in \<open>[window / 2, window)\<close>.
\<close>
theorem backoff_window:
  assumes "1 \<le> b_base b" and "0 < b_max b" and "b_max b \<le> 2 ^ 53" and "1 \<le> n" and "k < 2 ^ 53"
  shows "backoff_raw b n = min (b_max b) (b_base b * n ^ 4) \<and>
    (let d = backoff_For b k n; w = backoff_raw b n in
     if b_jitter b = ''none'' then d = w
     else if b_jitter b = ''equal'' then w div 2 \<le> d \<and> d < w
     else 0 \<le> d \<and> d < w)"
proof -
  have r: "backoff_raw b n = min (b_max b) (b_base b * n ^ 4)"
    using assms by (intro backoff_raw_exact) simp_all
  have "1 * 1 \<le> b_base b * n ^ 4" using assms(1,4) by (intro mult_mono) simp_all
  then have w: "0 < backoff_raw b n" "backoff_raw b n \<le> 2 ^ 53" using r assms(2,3) by simp_all
  have half: "0 \<le> backoff_raw b n div 2" "backoff_raw b n div 2 \<le> 2 ^ 53" using w by linarith+
  have d: "0 \<le> fl (int k * fl (backoff_raw b n)) div 2 ^ 53"
    "fl (int k * fl (backoff_raw b n)) div 2 ^ 53 < backoff_raw b n"
    using draw_bounds [OF assms(5) less_imp_le [OF w(1)] w(2)] w(1) by blast+
  have e: "0 \<le> fl (int k * fl (backoff_raw b n div 2)) div 2 ^ 53"
    using draw_bounds [OF assms(5) half] by blast
  have "fl (int k * fl (backoff_raw b n div 2)) div 2 ^ 53 < backoff_raw b n - backoff_raw b n div 2"
    using draw_bounds [OF assms(5) half] w(1) by (cases "0 < backoff_raw b n div 2") linarith+
  then have "backoff_raw b n div 2 + fl (int k * fl (backoff_raw b n div 2)) div 2 ^ 53 < backoff_raw b n"
    by linarith
  then show ?thesis using d e by (intro conjI [OF r]) (simp add: backoff_For_def Let_def)
qed

theorem backoff_window_witness:
  "backoff_raw (NewBackoff 1000000000 300000000000 ''full'') 3 = 81000000000 \<and>
   backoff_raw (NewBackoff 1000000000 300000000000 ''full'') 1000000000000000000 = 300000000000 \<and>
   backoff_For (NewBackoff 1000000000 300000000000 ''full'') 4503599627370496 3 < 81000000000"
  using backoff_window [of "NewBackoff 1000000000 300000000000 ''full''" 3 4503599627370496]
    backoff_window [of "NewBackoff 1000000000 300000000000 ''full''" 1000000000000000000 0]
  by (simp add: NewBackoff_def Let_def)

end
