(* ===== verification/Config.thy ===== *)
theory Config
  imports Complex_Main Apperr
begin

text \<open>
  The configuration sections of \<open>internal/config\<close>: their fields, their defaults and their
  validation rules (\<open>problems.go\<close> and one file per section), and the rules that relate two
  sections (\<open>config.go\<close>).

  Validation appends to a list of problems, passed as the last argument. A \<open>float64\<close> field is
  \<open>NaN\<close>, an infinity or the rational it stands for, and comparisons with \<open>NaN\<close> are false. A
  duration is an \<open>int64\<close>: where the code multiplies one, the product wraps. \<open>net/url\<close> and
  \<open>net.SplitHostPort\<close> are parameters.
\<close>

datatype float64 = NaN | PosInf | NegInf | Finite rat

fun f_less :: "float64 \<Rightarrow> rat \<Rightarrow> bool" where
  "f_less NaN x = False"
| "f_less PosInf x = False"
| "f_less NegInf x = True"
| "f_less (Finite y) x = (y < x)"

fun f_greater :: "float64 \<Rightarrow> rat \<Rightarrow> bool" where
  "f_greater NaN x = False"
| "f_greater PosInf x = True"
| "f_greater NegInf x = False"
| "f_greater (Finite y) x = (x < y)"

definition f_le :: "float64 \<Rightarrow> rat \<Rightarrow> bool" where
  "f_le f x \<longleftrightarrow> f_less f x \<or> f = Finite x"

definition wrap64 :: "int \<Rightarrow> int" where
  "wrap64 i = sint (word_of_int i :: int64)"

subsection \<open>Problems (problems.go)\<close>

type_synonym problems = "string list"

definition Add :: "string \<Rightarrow> string \<Rightarrow> problems \<Rightarrow> problems" where
  "Add field m p = p @ [field @ '': '' @ m]"

definition NotEmpty :: "string \<Rightarrow> string \<Rightarrow> problems \<Rightarrow> problems" where
  "NotEmpty field v p = (if trim_space v = [] then Add field ''must not be empty'' p else p)"

definition Positive :: "string \<Rightarrow> duration \<Rightarrow> problems \<Rightarrow> problems" where
  "Positive field d p = (if d \<le> 0 then Add field ''must be greater than zero'' p else p)"

definition AtLeast :: "string \<Rightarrow> int \<Rightarrow> int \<Rightarrow> problems \<Rightarrow> problems" where
  "AtLeast field v lo p =
     (if v < lo then Add field (''must be at least '' @ itoa lo @ '', got '' @ itoa v) p else p)"

fun join_with :: "string \<Rightarrow> string list \<Rightarrow> string" where
  "join_with sep [] = []"
| "join_with sep [x] = x"
| "join_with sep (x # y # xs) = x @ sep @ join_with sep (y # xs)"

definition OneOf :: "string \<Rightarrow> string \<Rightarrow> string list \<Rightarrow> problems \<Rightarrow> problems" where
  "OneOf field v allowed p =
     (if v \<in> set allowed then p
      else Add field (go_quote v @ '' is not one of: '' @ join_with '', '' allowed) p)"

definition problems_Err :: "problems \<Rightarrow> go_error option" where
  "problems_Err p =
     (if p = [] then None
      else Some (WrapError (''invalid configuration:'' @ [char_of (10 :: nat)] @ ''  '')
             (PlainError (join_with ([char_of (10 :: nat)] @ ''  '') p))))"

definition config_join :: "string \<Rightarrow> string \<Rightarrow> string" where
  "config_join prefix field = (if prefix = [] then field else prefix @ ''.'' @ field)"

subsection \<open>Service, logging, listeners\<close>

record service_cfg =
  sv_name :: string
  sv_instance :: string

definition service_defaults :: "string option \<Rightarrow> service_cfg" where
  "service_defaults hostname =
     \<lparr>sv_name = ''taskapi'',
      sv_instance = (case hostname of Some h \<Rightarrow> if h \<noteq> [] then h else ''unknown'' | None \<Rightarrow> ''unknown'')\<rparr>"

definition service_Validate :: "service_cfg \<Rightarrow> problems \<Rightarrow> problems" where
  "service_Validate s p =
     NotEmpty (config_join ''service'' ''instance'') (sv_instance s)
       (NotEmpty (config_join ''service'' ''name'') (sv_name s) p)"

record logging_cfg =
  lg_level :: string
  lg_format :: string

definition logging_defaults :: logging_cfg where
  "logging_defaults = \<lparr>lg_level = ''info'', lg_format = ''auto''\<rparr>"

definition checkLevel :: "string \<Rightarrow> string option" where
  "checkLevel s =
     (if lower (trim_space s) \<in> set [''trace'', ''debug'', ''info'', ''warn'', ''warning'', ''error'', ''err'']
      then None
      else Some (go_quote s @ '' is not one of: error, warn, info, debug, trace''))"

definition logging_Validate :: "logging_cfg \<Rightarrow> problems \<Rightarrow> problems" where
  "logging_Validate l p =
     (let p = (case checkLevel (lg_level l) of
                 Some m \<Rightarrow> Add (config_join ''logging'' ''level'') m p
               | None \<Rightarrow> p) in
      OneOf (config_join ''logging'' ''format'') (lg_format l) [''auto'', ''text'', ''json''] p)"

record http_cfg =
  ht_addr :: string
  ht_read_header_timeout :: duration
  ht_read_timeout :: duration
  ht_write_timeout :: duration
  ht_idle_timeout :: duration
  ht_shutdown_grace :: duration
  ht_max_body_bytes :: int
  ht_trusted_proxy_hops :: int

definition http_defaults :: http_cfg where
  "http_defaults =
     \<lparr>ht_addr = '':8080'', ht_read_header_timeout = 5 * second, ht_read_timeout = 15 * second,
      ht_write_timeout = 30 * second, ht_idle_timeout = 60 * second, ht_shutdown_grace = 20 * second,
      ht_max_body_bytes = 1048576, ht_trusted_proxy_hops = 0\<rparr>"

definition http_Validate :: "http_cfg \<Rightarrow> problems \<Rightarrow> problems" where
  "http_Validate h p =
     (let pth = config_join ''http'';
          p = NotEmpty (pth ''addr'') (ht_addr h) p;
          p = Positive (pth ''read_header_timeout'') (ht_read_header_timeout h) p;
          p = Positive (pth ''read_timeout'') (ht_read_timeout h) p;
          p = Positive (pth ''write_timeout'') (ht_write_timeout h) p;
          p = Positive (pth ''idle_timeout'') (ht_idle_timeout h) p;
          p = Positive (pth ''shutdown_grace'') (ht_shutdown_grace h) p;
          p = (if ht_max_body_bytes h \<le> 0 then Add (pth ''max_body_bytes'') ''must be greater than zero'' p else p)
      in if ht_trusted_proxy_hops h < 0 then Add (pth ''trusted_proxy_hops'') ''must not be negative'' p else p)"

record admin_cfg =
  ad_addr :: string
  ad_pprof :: bool

definition admin_defaults :: admin_cfg where
  "admin_defaults = \<lparr>ad_addr = '':9090'', ad_pprof = True\<rparr>"

definition admin_Validate :: "admin_cfg \<Rightarrow> problems \<Rightarrow> problems" where
  "admin_Validate a p = NotEmpty (config_join ''admin'' ''addr'') (ad_addr a) p"

subsection \<open>Storage (storage.go)\<close>

record postgres_cfg =
  pg_dsn :: string
  pg_max_conns :: int
  pg_min_conns :: int
  pg_max_conn_lifetime :: duration
  pg_max_conn_idle_time :: duration
  pg_health_check_period :: duration
  pg_connect_timeout :: duration
  pg_statement_timeout :: duration
  pg_idle_in_tx_timeout :: duration
  pg_lock_timeout :: duration

record storage_cfg =
  so_backend :: string
  so_postgres :: postgres_cfg

definition storage_defaults :: storage_cfg where
  "storage_defaults =
     \<lparr>so_backend = ''memory'',
      so_postgres =
        \<lparr>pg_dsn = [], pg_max_conns = 20, pg_min_conns = 2, pg_max_conn_lifetime = 30 * minute,
         pg_max_conn_idle_time = 5 * minute, pg_health_check_period = 30 * second,
         pg_connect_timeout = 5 * second, pg_statement_timeout = 5 * second,
         pg_idle_in_tx_timeout = 10 * second, pg_lock_timeout = 3 * second\<rparr>\<rparr>"

definition postgres_validate :: "postgres_cfg \<Rightarrow> string \<Rightarrow> problems \<Rightarrow> problems" where
  "postgres_validate pg prefix p =
     (let pth = config_join prefix;
          p = (if pg_dsn pg = [] then
                 Add (pth ''dsn'')
                   ''required when storage.backend is postgres (set TASKAPI_STORAGE_POSTGRES_DSN)'' p
               else p);
          p = (if pg_max_conns pg \<le> 0 then Add (pth ''max_conns'') ''must be greater than zero'' p else p);
          p = (if pg_min_conns pg < 0 then Add (pth ''min_conns'') ''must not be negative'' p else p);
          p = (if pg_min_conns pg > pg_max_conns pg then
                 Add (pth ''min_conns'') (''must not exceed '' @ pth ''max_conns'') p else p);
          p = Positive (pth ''connect_timeout'') (pg_connect_timeout pg) p
      in Positive (pth ''statement_timeout'') (pg_statement_timeout pg) p)"

definition storage_Validate :: "storage_cfg \<Rightarrow> problems \<Rightarrow> problems" where
  "storage_Validate s p =
     (let p = OneOf (config_join ''storage'' ''backend'') (so_backend s) [''memory'', ''postgres''] p in
      if so_backend s = ''postgres'' then
        postgres_validate (so_postgres s) (config_join ''storage'' ''postgres'') p
      else p)"

subsection \<open>The queue (queue.go)\<close>

record backoff_cfg =
  bo_base :: duration
  bo_max :: duration
  bo_jitter :: string

record retention_cfg =
  rt_succeeded :: duration
  rt_discarded :: duration
  rt_purge_interval :: duration

record queue_cfg =
  qc_workers :: int
  qc_claim_batch :: int
  qc_lease :: duration
  qc_heartbeat_interval :: duration
  qc_poll_interval :: duration
  qc_reaper_interval :: duration
  qc_fetch_cooldown :: duration
  qc_job_timeout :: duration
  qc_max_attempts :: int
  qc_backoff :: backoff_cfg
  qc_retention :: retention_cfg

definition queue_defaults :: queue_cfg where
  "queue_defaults =
     \<lparr>qc_workers = 8, qc_claim_batch = 10, qc_lease = 30 * second, qc_heartbeat_interval = 10 * second,
      qc_poll_interval = 2 * second, qc_reaper_interval = 15 * second,
      qc_fetch_cooldown = 100 * millisecond, qc_job_timeout = 1 * minute, qc_max_attempts = 5,
      qc_backoff = \<lparr>bo_base = 1 * second, bo_max = 5 * minute, bo_jitter = ''full''\<rparr>,
      qc_retention = \<lparr>rt_succeeded = 24 * hour, rt_discarded = 7 * 24 * hour, rt_purge_interval = 1 * hour\<rparr>\<rparr>"

definition backoff_validate :: "backoff_cfg \<Rightarrow> string \<Rightarrow> problems \<Rightarrow> problems" where
  "backoff_validate b prefix p =
     (let pth = config_join prefix;
          p = Positive (pth ''base'') (bo_base b) p;
          p = Positive (pth ''max'') (bo_max b) p;
          p = (if bo_max b > 0 \<and> bo_base b > bo_max b then
                 Add (pth ''base'') (''must not exceed '' @ pth ''max'') p else p)
      in OneOf (pth ''jitter'') (bo_jitter b) [''full'', ''equal'', ''none''] p)"

definition retention_validate :: "retention_cfg \<Rightarrow> string \<Rightarrow> problems \<Rightarrow> problems" where
  "retention_validate r prefix p =
     (let p = Positive (config_join prefix ''succeeded'') (rt_succeeded r) p;
          p = Positive (config_join prefix ''discarded'') (rt_discarded r) p
      in Positive (config_join prefix ''purge_interval'') (rt_purge_interval r) p)"

definition queue_Validate :: "queue_cfg \<Rightarrow> problems \<Rightarrow> problems" where
  "queue_Validate q p =
     (let pth = config_join ''queue'';
          p = AtLeast (pth ''workers'') (qc_workers q) 1 p;
          p = AtLeast (pth ''claim_batch'') (qc_claim_batch q) 1 p;
          p = AtLeast (pth ''max_attempts'') (qc_max_attempts q) 1 p;
          p = Positive (pth ''lease'') (qc_lease q) p;
          p = Positive (pth ''heartbeat_interval'') (qc_heartbeat_interval q) p;
          p = Positive (pth ''poll_interval'') (qc_poll_interval q) p;
          p = Positive (pth ''reaper_interval'') (qc_reaper_interval q) p;
          p = Positive (pth ''job_timeout'') (qc_job_timeout q) p;
          p = (if qc_fetch_cooldown q < 0 then Add (pth ''fetch_cooldown'') ''must not be negative'' p else p);
          p = (if qc_heartbeat_interval q > 0 \<and> qc_lease q > 0 \<and> wrap64 (qc_heartbeat_interval q * 3) > qc_lease q
               then Add (pth ''heartbeat_interval'')
                 (''must be at most one third of '' @ pth ''lease'' @ '' ('' @ duration_string (qc_lease q) @
                  ''), so two missed heartbeats are tolerated before the reaper acts'') p
               else p);
          p = backoff_validate (qc_backoff q) (pth ''backoff'') p
      in retention_validate (qc_retention q) (pth ''retention'') p)"

subsection \<open>Idempotency (idempotency.go)\<close>

record idempotency_cfg =
  id_enabled :: bool
  id_required :: bool
  id_ttl :: duration
  id_purge_interval :: duration
  id_max_key_bytes :: int

definition idempotency_defaults :: idempotency_cfg where
  "idempotency_defaults =
     \<lparr>id_enabled = True, id_required = False, id_ttl = 24 * hour, id_purge_interval = 1 * hour,
      id_max_key_bytes = 255\<rparr>"

definition idempotency_Validate :: "idempotency_cfg \<Rightarrow> problems \<Rightarrow> problems" where
  "idempotency_Validate i p =
     (let pth = config_join ''idempotency'';
          p = Positive (pth ''ttl'') (id_ttl i) p;
          p = Positive (pth ''purge_interval'') (id_purge_interval i) p;
          p = AtLeast (pth ''max_key_bytes'') (id_max_key_bytes i) 1 p;
          p = (if id_max_key_bytes i > 8192 then
                 Add (pth ''max_key_bytes'') ''must not exceed 8192: a longer key does not fit a btree entry'' p
               else p);
          p = (if id_ttl i > 0 \<and> id_purge_interval i > id_ttl i then
                 Add (pth ''purge_interval'')
                   (''must not exceed '' @ pth ''ttl'' @ '' ('' @ duration_string (id_ttl i) @ '')'') p
               else p)
      in if id_required i \<and> \<not> id_enabled i then
           Add (pth ''required'') (''cannot be set while '' @ pth ''enabled'' @ '' is false'') p
         else p)"

subsection \<open>Authentication (auth.go)\<close>

record auth_client =
  ac_id :: string
  ac_tier :: string
  ac_token_sha256 :: string

record auth_cfg =
  au_mode :: string
  au_realm :: string
  au_clients :: "auth_client list"

definition auth_defaults :: auth_cfg where
  "auth_defaults =
     \<lparr>au_mode = ''optional'', au_realm = ''taskapi'',
      au_clients =
        [\<lparr>ac_id = ''demo'', ac_tier = ''standard'',
          ac_token_sha256 = ''064462d4b78abaa304c5b4ab22e4a29119dbf18b3a8d7fc86e2fc633429f7dce''\<rparr>,
         \<lparr>ac_id = ''worker'', ac_tier = ''internal'',
          ac_token_sha256 = ''46f8c89e2172e93598e17b2a9e0261bb7848cfe389bf3d46bb98cc50c8b4710c''\<rparr>]\<rparr>"

definition sha256Hex :: "string \<Rightarrow> bool" where
  "sha256Hex s \<longleftrightarrow> length s = 64 \<and> set s \<subseteq> set ''0123456789abcdefABCDEF''"

text \<open>
  One iteration of \<open>validateClients\<close>: the maps \<open>seenID\<close> and \<open>seenToken\<close>, the index and
  the problems so far.
\<close>

definition check_client ::
  "nat \<Rightarrow> auth_client \<Rightarrow> (string \<rightharpoonup> nat) \<times> (string \<rightharpoonup> string) \<times> problems \<Rightarrow>
   (string \<rightharpoonup> nat) \<times> (string \<rightharpoonup> string) \<times> problems"
where
  "check_client i c st =
     (case st of (seenID, seenToken, p) \<Rightarrow>
        let pth = (\<lambda>f. ''auth.clients['' @ dec i @ ''].'' @ f);
            (seenID, p) =
              (if ac_id c = [] then (seenID, Add (pth ''id'') ''must not be empty'' p)
               else
                 (seenID(ac_id c \<mapsto> i),
                  (case seenID (ac_id c) of
                     Some prev \<Rightarrow>
                       Add (pth ''id'') (''duplicate client id '' @ go_quote (ac_id c) @
                         '' (also at auth.clients['' @ dec prev @ ''])'') p
                   | None \<Rightarrow> p)));
            p = OneOf (pth ''tier'') (ac_tier c) [''anonymous'', ''standard'', ''internal''] p
        in if ac_token_sha256 c = [] then
             (seenID, seenToken, Add (pth ''token_sha256'') ''must not be empty'' p)
           else if \<not> sha256Hex (ac_token_sha256 c) then
             (seenID, seenToken,
              Add (pth ''token_sha256'')
                ''must be 64 hexadecimal characters: store the SHA-256 of the token, never the token itself'' p)
           else
             (let lo = lower (ac_token_sha256 c) in
              (seenID, seenToken(lo \<mapsto> ac_id c),
               (case seenToken lo of
                  Some prev \<Rightarrow>
                    Add (pth ''token_sha256'') (''duplicate token, already used by client '' @ go_quote prev) p
                | None \<Rightarrow> p))))"

fun check_clients ::
  "nat \<Rightarrow> auth_client list \<Rightarrow> (string \<rightharpoonup> nat) \<times> (string \<rightharpoonup> string) \<times> problems \<Rightarrow>
   (string \<rightharpoonup> nat) \<times> (string \<rightharpoonup> string) \<times> problems"
where
  "check_clients i [] st = st"
| "check_clients i (c # cs) st = check_clients (Suc i) cs (check_client i c st)"

definition validateClients :: "auth_cfg \<Rightarrow> problems \<Rightarrow> problems" where
  "validateClients a p = snd (snd (check_clients 0 (au_clients a) (Map.empty, Map.empty, p)))"

definition auth_Validate :: "auth_cfg \<Rightarrow> problems \<Rightarrow> problems" where
  "auth_Validate a p =
     (let pth = config_join ''auth'';
          p = OneOf (pth ''mode'') (au_mode a) [''optional'', ''required'', ''off''] p;
          p = NotEmpty (pth ''realm'') (au_realm a) p;
          p = validateClients a p
      in if au_mode a = ''required'' \<and> au_clients a = [] then
           Add (pth ''clients'')
             ''auth.mode is required but no clients are configured: every request would be rejected'' p
         else p)"

subsection \<open>Rate limits, breaker, webhook, observability\<close>

record quota_cfg =
  qt_rate :: float64
  qt_burst :: int

record ratelimit_cfg =
  rl_enabled :: bool
  rl_global_inflight :: int
  rl_key_ttl :: duration
  rl_sweep_interval :: duration
  rl_anonymous :: quota_cfg
  rl_standard :: quota_cfg
  rl_internal :: quota_cfg

definition ratelimit_defaults :: ratelimit_cfg where
  "ratelimit_defaults =
     \<lparr>rl_enabled = True, rl_global_inflight = 200, rl_key_ttl = 10 * minute, rl_sweep_interval = 1 * minute,
      rl_anonymous = \<lparr>qt_rate = Finite 10, qt_burst = 20\<rparr>,
      rl_standard = \<lparr>qt_rate = Finite 100, qt_burst = 200\<rparr>,
      rl_internal = \<lparr>qt_rate = Finite 1000, qt_burst = 2000\<rparr>\<rparr>"

definition quota_validate :: "quota_cfg \<Rightarrow> string \<Rightarrow> problems \<Rightarrow> problems" where
  "quota_validate q prefix p =
     (let p = (if f_le (qt_rate q) 0 then Add (config_join prefix ''rate'') ''must be greater than zero'' p else p)
      in AtLeast (config_join prefix ''burst'') (qt_burst q) 1 p)"

definition ratelimit_Validate :: "ratelimit_cfg \<Rightarrow> problems \<Rightarrow> problems" where
  "ratelimit_Validate r p =
     (if \<not> rl_enabled r then p
      else
        (let pth = config_join ''ratelimit'';
             p = AtLeast (pth ''global_inflight'') (rl_global_inflight r) 1 p;
             p = Positive (pth ''key_ttl'') (rl_key_ttl r) p;
             p = Positive (pth ''sweep_interval'') (rl_sweep_interval r) p;
             p = quota_validate (rl_anonymous r) (pth ''tiers.anonymous'') p;
             p = quota_validate (rl_standard r) (pth ''tiers.standard'') p
         in quota_validate (rl_internal r) (pth ''tiers.internal'') p))"

record breaker_cfg =
  br_failure_rate :: float64
  br_min_throughput :: int
  br_window :: duration
  br_open_duration :: duration
  br_half_open_max_calls :: int
  br_half_open_success :: int

definition breaker_defaults :: breaker_cfg where
  "breaker_defaults =
     \<lparr>br_failure_rate = Finite (1 / 2), br_min_throughput = 20, br_window = 10 * second,
      br_open_duration = 30 * second, br_half_open_max_calls = 5, br_half_open_success = 3\<rparr>"

definition breaker_validate :: "breaker_cfg \<Rightarrow> string \<Rightarrow> problems \<Rightarrow> problems" where
  "breaker_validate b prefix p =
     (let pth = config_join prefix;
          p = (if f_le (br_failure_rate b) 0 \<or> f_greater (br_failure_rate b) 1 then
                 Add (pth ''failure_rate_threshold'') ''must be in (0, 1]'' p else p);
          p = (if br_min_throughput b < 1 then
                 Add (pth ''min_throughput'')
                   ''must be at least 1: without a floor, one failure out of one request opens the circuit'' p
               else p);
          p = Positive (pth ''window'') (br_window b) p;
          p = Positive (pth ''open_duration'') (br_open_duration b) p;
          p = (if br_half_open_max_calls b < 1 then
                 Add (pth ''half_open_max_calls'') ''must be at least 1'' p else p);
          p = (if br_half_open_success b < 1 then
                 Add (pth ''half_open_success_threshold'') ''must be at least 1'' p else p)
      in if br_half_open_max_calls b \<ge> 1 \<and> br_half_open_success b > br_half_open_max_calls b then
           Add (pth ''half_open_success_threshold'')
             (''must not exceed '' @ pth ''half_open_max_calls'' @ '', or the circuit can never close'') p
         else p)"

definition breaker_Validate :: "breaker_cfg \<Rightarrow> problems \<Rightarrow> problems" where
  "breaker_Validate b p = breaker_validate b (config_join ''breaker'' ''webhook'') p"

record webhook_cfg =
  wh_url :: string
  wh_timeout :: duration
  wh_max_attempts :: int
  wh_base :: duration
  wh_max :: duration
  wh_budget :: float64

definition webhook_defaults :: webhook_cfg where
  "webhook_defaults =
     \<lparr>wh_url = [], wh_timeout = 3 * second, wh_max_attempts = 3, wh_base = 200 * millisecond,
      wh_max = 5 * second, wh_budget = Finite (3602879701896397 / 18014398509481984)\<rparr>"

definition webhook_retry_validate :: "webhook_cfg \<Rightarrow> string \<Rightarrow> problems \<Rightarrow> problems" where
  "webhook_retry_validate w prefix p =
     (let pth = config_join prefix;
          p = AtLeast (pth ''max_attempts'') (wh_max_attempts w) 1 p;
          p = Positive (pth ''base'') (wh_base w) p;
          p = Positive (pth ''max'') (wh_max w) p;
          p = (if wh_base w > wh_max w then Add (pth ''base'') (''must not exceed '' @ pth ''max'') p else p)
      in if f_le (wh_budget w) 0 \<or> f_greater (wh_budget w) 1 then
           Add (pth ''budget_max_rate'') ''must be in (0, 1]'' p
         else p)"

text \<open>What \<open>url.Parse\<close> returns, as far as the check looks: scheme and host, or an error text.\<close>

definition checkHTTPURL ::
  "(string \<Rightarrow> string + string \<times> string) \<Rightarrow> string \<Rightarrow> string \<Rightarrow> problems \<Rightarrow> problems" where
  "checkHTTPURL parse field raw p =
     (case parse raw of
        Inl e \<Rightarrow> Add field (''is not a valid URL: '' @ e) p
      | Inr (scheme, host) \<Rightarrow>
          if scheme \<noteq> ''http'' \<and> scheme \<noteq> ''https'' then
            Add field (''scheme '' @ go_quote scheme @ '' is not supported (want http or https)'') p
          else if host = [] then Add field ''is missing a host'' p
          else p)"

definition webhook_Validate ::
  "(string \<Rightarrow> string + string \<times> string) \<Rightarrow> webhook_cfg \<Rightarrow> problems \<Rightarrow> problems" where
  "webhook_Validate parse w p =
     (let pth = config_join ''webhook'';
          p = (if wh_url w \<noteq> [] then checkHTTPURL parse (pth ''url'') (wh_url w) p else p);
          p = Positive (pth ''timeout'') (wh_timeout w) p
      in webhook_retry_validate w (pth ''retry'') p)"

record observability_cfg =
  ob_metrics :: bool
  ob_native_histograms :: bool
  ob_tracing :: bool
  ob_otlp_endpoint :: string
  ob_sample_ratio :: float64

definition observability_defaults :: observability_cfg where
  "observability_defaults =
     \<lparr>ob_metrics = True, ob_native_histograms = True, ob_tracing = False, ob_otlp_endpoint = [],
      ob_sample_ratio = Finite (3602879701896397 / 36028797018963968)\<rparr>"

definition observability_Validate :: "observability_cfg \<Rightarrow> problems \<Rightarrow> problems" where
  "observability_Validate v p =
     (let pth = config_join ''observability'';
          p = (if ob_tracing v \<and> ob_otlp_endpoint v = [] then
                 Add (pth ''tracing.otlp_endpoint'') ''required when tracing is enabled'' p else p)
      in if f_less (ob_sample_ratio v) 0 \<or> f_greater (ob_sample_ratio v) 1 then
           Add (pth ''tracing.sample_ratio'') ''must be between 0 and 1'' p
         else p)"

subsection \<open>The whole configuration (config.go)\<close>

record config =
  cf_service :: service_cfg
  cf_logging :: logging_cfg
  cf_http :: http_cfg
  cf_admin :: admin_cfg
  cf_storage :: storage_cfg
  cf_queue :: queue_cfg
  cf_idempotency :: idempotency_cfg
  cf_auth :: auth_cfg
  cf_ratelimit :: ratelimit_cfg
  cf_breaker :: breaker_cfg
  cf_webhook :: webhook_cfg
  cf_observability :: observability_cfg

text \<open>The standard library's parsers the rules call.\<close>

record config_lib =
  url_parse :: "string \<Rightarrow> string + string \<times> string"
  split_host_port :: "string \<Rightarrow> (string \<times> string) option"

definition Defaults :: "string option \<Rightarrow> config" where
  "Defaults hostname =
     \<lparr>cf_service = service_defaults hostname, cf_logging = logging_defaults, cf_http = http_defaults,
      cf_admin = admin_defaults, cf_storage = storage_defaults, cf_queue = queue_defaults,
      cf_idempotency = idempotency_defaults, cf_auth = auth_defaults, cf_ratelimit = ratelimit_defaults,
      cf_breaker = breaker_defaults, cf_webhook = webhook_defaults,
      cf_observability = observability_defaults\<rparr>"

definition ephemeralPort :: "config_lib \<Rightarrow> string \<Rightarrow> bool" where
  "ephemeralPort cl addr =
     (case split_host_port cl addr of None \<Rightarrow> False | Some (h, port) \<Rightarrow> port = ''0'')"

definition validateAcrossSections :: "config_lib \<Rightarrow> config \<Rightarrow> problems \<Rightarrow> problems" where
  "validateAcrossSections cl c p =
     (let p = (if ad_addr (cf_admin c) = ht_addr (cf_http c) \<and> \<not> ephemeralPort cl (ad_addr (cf_admin c)) then
                 Add ''admin.addr''
                   ''must differ from http.addr: pprof and metrics must never be reachable on the public listener'' p
               else p)
      in if wh_timeout (cf_webhook c) > 0 \<and> br_open_duration (cf_breaker c) > 0 \<and>
            wh_timeout (cf_webhook c) > br_open_duration (cf_breaker c) then
           Add ''webhook.timeout'' ''must not exceed breaker.webhook.open_duration'' p
         else p)"

definition config_problems :: "config_lib \<Rightarrow> config \<Rightarrow> problems" where
  "config_problems cl c =
     validateAcrossSections cl c
       (observability_Validate (cf_observability c)
       (webhook_Validate (url_parse cl) (cf_webhook c)
       (breaker_Validate (cf_breaker c)
       (ratelimit_Validate (cf_ratelimit c)
       (auth_Validate (cf_auth c)
       (idempotency_Validate (cf_idempotency c)
       (queue_Validate (cf_queue c)
       (storage_Validate (cf_storage c)
       (admin_Validate (cf_admin c)
       (http_Validate (cf_http c)
       (logging_Validate (cf_logging c)
       (service_Validate (cf_service c) []))))))))))))"

definition config_Validate :: "config_lib \<Rightarrow> config \<Rightarrow> go_error option" where
  "config_Validate cl c = problems_Err (config_problems cl c)"

definition Redacted :: "config \<Rightarrow> config" where
  "Redacted c =
     (if pg_dsn (so_postgres (cf_storage c)) \<noteq> [] then
        c\<lparr>cf_storage := (cf_storage c)\<lparr>so_postgres :=
            (so_postgres (cf_storage c))\<lparr>pg_dsn := map char_of [194, 171 :: nat] @ ''redacted'' @
              map char_of [194, 187 :: nat]\<rparr>\<rparr>\<rparr>
      else c)"

subsection \<open>What acceptance means\<close>

named_theorems config_simps

lemma Add_not_Nil [simp]: "Add f m p \<noteq> []"
  by (simp add: Add_def)

lemma NotEmpty_Nil [simp]: "NotEmpty f v p = [] \<longleftrightarrow> trim_space v \<noteq> [] \<and> p = []"
  by (simp add: NotEmpty_def)

lemma Positive_Nil [simp]: "Positive f d p = [] \<longleftrightarrow> 0 < d \<and> p = []"
  by (auto simp: Positive_def)

lemma AtLeast_Nil [simp]: "AtLeast f v lo p = [] \<longleftrightarrow> lo \<le> v \<and> p = []"
  by (auto simp: AtLeast_def)

lemma OneOf_Nil [simp]: "OneOf f v allowed p = [] \<longleftrightarrow> v \<in> set allowed \<and> p = []"
  by (simp add: OneOf_def)

lemma problems_Err_None [simp]: "problems_Err p = None \<longleftrightarrow> p = []"
  by (simp add: problems_Err_def)

definition queue_ok :: "queue_cfg \<Rightarrow> bool" where
  "queue_ok q \<longleftrightarrow> 1 \<le> qc_workers q \<and> 1 \<le> qc_claim_batch q \<and> 1 \<le> qc_max_attempts q \<and> 0 < qc_lease q \<and>
     0 < qc_heartbeat_interval q \<and> 0 < qc_poll_interval q \<and> 0 < qc_reaper_interval q \<and>
     0 < qc_job_timeout q \<and> 0 \<le> qc_fetch_cooldown q \<and> wrap64 (qc_heartbeat_interval q * 3) \<le> qc_lease q \<and>
     0 < bo_base (qc_backoff q) \<and> bo_base (qc_backoff q) \<le> bo_max (qc_backoff q) \<and>
     bo_jitter (qc_backoff q) \<in> {''full'', ''equal'', ''none''} \<and>
     0 < rt_succeeded (qc_retention q) \<and> 0 < rt_discarded (qc_retention q) \<and> 0 < rt_purge_interval (qc_retention q)"

lemma backoff_validate_Nil [config_simps]:
  "backoff_validate b prefix p = [] \<longleftrightarrow> p = [] \<and> 0 < bo_base b \<and> bo_base b \<le> bo_max b \<and>
     bo_jitter b \<in> {''full'', ''equal'', ''none''}"
  by (auto simp: backoff_validate_def Let_def)

lemma retention_validate_Nil [config_simps]:
  "retention_validate r prefix p = [] \<longleftrightarrow> p = [] \<and> 0 < rt_succeeded r \<and> 0 < rt_discarded r \<and> 0 < rt_purge_interval r"
  by (auto simp: retention_validate_def Let_def)

lemma queue_Validate_Nil [config_simps]: "queue_Validate q p = [] \<longleftrightarrow> p = [] \<and> queue_ok q"
  by (auto simp: queue_Validate_def Let_def config_simps queue_ok_def split: if_splits)

definition client_ok :: "auth_client \<Rightarrow> bool" where
  "client_ok c \<longleftrightarrow> ac_id c \<noteq> [] \<and> ac_tier c \<in> {''anonymous'', ''standard'', ''internal''} \<and>
     sha256Hex (ac_token_sha256 c)"

lemma sha256Hex_not_Nil: "sha256Hex t \<Longrightarrow> t \<noteq> []"
  by (auto simp: sha256Hex_def)

lemma check_client_ok:
  assumes "client_ok c" and "seenID (ac_id c) = None" and "seenToken (lower (ac_token_sha256 c)) = None"
  shows "check_client i c (seenID, seenToken, []) =
    (seenID(ac_id c \<mapsto> i), seenToken(lower (ac_token_sha256 c) \<mapsto> ac_id c), [])"
  using assms sha256Hex_not_Nil by (auto simp: check_client_def client_ok_def OneOf_def Let_def)

lemma check_client_bad:
  assumes "\<not> (p = [] \<and> client_ok c \<and> seenID (ac_id c) = None \<and> seenToken (lower (ac_token_sha256 c)) = None)"
  shows "snd (snd (check_client i c (seenID, seenToken, p))) \<noteq> []"
  using assms
  by (auto simp: check_client_def client_ok_def Let_def split: if_splits option.splits prod.splits)

lemma check_clients_keep: "snd (snd st) \<noteq> [] \<Longrightarrow> snd (snd (check_clients i cs st)) \<noteq> []"
proof (induction cs arbitrary: i st)
  case (Cons c cs)
  obtain a b p where st: "st = (a, b, p)" by (cases st) auto
  show ?case using Cons.IH check_client_bad [of p c a b i] Cons.prems by (simp add: st)
qed simp

lemma check_clients_Nil:
  "snd (snd (check_clients i cs (seenID, seenToken, p))) = [] \<longleftrightarrow>
     p = [] \<and> list_all client_ok cs \<and> distinct (map ac_id cs) \<and>
     distinct (map (\<lambda>c. lower (ac_token_sha256 c)) cs) \<and>
     (\<forall>c \<in> set cs. seenID (ac_id c) = None \<and> seenToken (lower (ac_token_sha256 c)) = None)"
proof (induction cs arbitrary: i seenID seenToken p)
  case (Cons c cs)
  show ?case
  proof (cases "p = [] \<and> client_ok c \<and> seenID (ac_id c) = None \<and> seenToken (lower (ac_token_sha256 c)) = None")
    case True
    then have "check_client i c (seenID, seenToken, p) =
        (seenID(ac_id c \<mapsto> i), seenToken(lower (ac_token_sha256 c) \<mapsto> ac_id c), [])"
      using check_client_ok by simp
    then show ?thesis using True Cons.IH by (auto simp: image_iff split: if_splits)
  next
    case False
    have "snd (snd (check_clients (Suc i) cs (check_client i c (seenID, seenToken, p)))) \<noteq> []"
      by (rule check_clients_keep, rule check_client_bad) (rule False)
    then show ?thesis using False by auto
  qed
qed simp

definition auth_ok :: "auth_cfg \<Rightarrow> bool" where
  "auth_ok a \<longleftrightarrow> au_mode a \<in> {''optional'', ''required'', ''off''} \<and> trim_space (au_realm a) \<noteq> [] \<and>
     list_all client_ok (au_clients a) \<and> distinct (map ac_id (au_clients a)) \<and>
     distinct (map (\<lambda>c. lower (ac_token_sha256 c)) (au_clients a)) \<and>
     (au_mode a = ''required'' \<longrightarrow> au_clients a \<noteq> [])"

lemma auth_Validate_Nil [config_simps]: "auth_Validate a p = [] \<longleftrightarrow> p = [] \<and> auth_ok a"
  by (auto simp: auth_Validate_def validateClients_def check_clients_Nil auth_ok_def Let_def split: if_splits)

lemma service_Validate_Nil [config_simps]:
  "service_Validate v p = [] \<longleftrightarrow> p = [] \<and> trim_space (sv_name v) \<noteq> [] \<and> trim_space (sv_instance v) \<noteq> []"
  by (auto simp: service_Validate_def)

lemma logging_Validate_Nil [config_simps]:
  "logging_Validate l p = [] \<longleftrightarrow> p = [] \<and> checkLevel (lg_level l) = None \<and> lg_format l \<in> {''auto'', ''text'', ''json''}"
  by (auto simp: logging_Validate_def Let_def split: option.splits)

definition http_ok :: "http_cfg \<Rightarrow> bool" where
  "http_ok h \<longleftrightarrow> trim_space (ht_addr h) \<noteq> [] \<and> 0 < ht_read_header_timeout h \<and> 0 < ht_read_timeout h \<and>
     0 < ht_write_timeout h \<and> 0 < ht_idle_timeout h \<and> 0 < ht_shutdown_grace h \<and>
     0 < ht_max_body_bytes h \<and> 0 \<le> ht_trusted_proxy_hops h"

lemma http_Validate_Nil [config_simps]: "http_Validate h p = [] \<longleftrightarrow> p = [] \<and> http_ok h"
  by (auto simp: http_Validate_def http_ok_def Let_def)

lemma admin_Validate_Nil [config_simps]: "admin_Validate a p = [] \<longleftrightarrow> p = [] \<and> trim_space (ad_addr a) \<noteq> []"
  by (auto simp: admin_Validate_def)

definition idempotency_ok :: "idempotency_cfg \<Rightarrow> bool" where
  "idempotency_ok i \<longleftrightarrow> 0 < id_purge_interval i \<and> id_purge_interval i \<le> id_ttl i \<and>
     1 \<le> id_max_key_bytes i \<and> id_max_key_bytes i \<le> 8192 \<and> (id_required i \<longrightarrow> id_enabled i)"

lemma idempotency_Validate_Nil [config_simps]: "idempotency_Validate i p = [] \<longleftrightarrow> p = [] \<and> idempotency_ok i"
  by (auto simp: idempotency_Validate_def idempotency_ok_def Let_def)

definition breaker_ok :: "breaker_cfg \<Rightarrow> bool" where
  "breaker_ok b \<longleftrightarrow> \<not> f_le (br_failure_rate b) 0 \<and> \<not> f_greater (br_failure_rate b) 1 \<and> 1 \<le> br_min_throughput b \<and>
     0 < br_window b \<and> 0 < br_open_duration b \<and> 1 \<le> br_half_open_success b \<and>
     br_half_open_success b \<le> br_half_open_max_calls b"

lemma breaker_Validate_Nil [config_simps]: "breaker_Validate b p = [] \<longleftrightarrow> p = [] \<and> breaker_ok b"
  by (auto simp: breaker_Validate_def breaker_validate_def breaker_ok_def Let_def)

lemma storage_Validate_Nil [config_simps]:
  "storage_Validate v p = [] \<longleftrightarrow> p = [] \<and> so_backend v \<in> {''memory'', ''postgres''} \<and>
     (so_backend v = ''postgres'' \<longrightarrow>
        pg_dsn (so_postgres v) \<noteq> [] \<and> 0 < pg_max_conns (so_postgres v) \<and> 0 \<le> pg_min_conns (so_postgres v) \<and>
        pg_min_conns (so_postgres v) \<le> pg_max_conns (so_postgres v) \<and>
        0 < pg_connect_timeout (so_postgres v) \<and> 0 < pg_statement_timeout (so_postgres v))"
  by (auto simp: storage_Validate_def postgres_validate_def Let_def)

lemma quota_validate_Nil [config_simps]:
  "quota_validate q prefix p = [] \<longleftrightarrow> p = [] \<and> \<not> f_le (qt_rate q) 0 \<and> 1 \<le> qt_burst q"
  by (auto simp: quota_validate_def Let_def)

lemma ratelimit_Validate_Nil [config_simps]:
  "ratelimit_Validate r p = [] \<longleftrightarrow> p = [] \<and>
     (rl_enabled r \<longrightarrow> 1 \<le> rl_global_inflight r \<and> 0 < rl_key_ttl r \<and> 0 < rl_sweep_interval r \<and>
        (\<forall>q \<in> {rl_anonymous r, rl_standard r, rl_internal r}. \<not> f_le (qt_rate q) 0 \<and> 1 \<le> qt_burst q))"
  by (auto simp: ratelimit_Validate_def Let_def config_simps)

lemma checkHTTPURL_Nil [config_simps]:
  "checkHTTPURL parse field raw p = [] \<longleftrightarrow> p = [] \<and>
     (\<exists>scheme host. parse raw = Inr (scheme, host) \<and> scheme \<in> {''http'', ''https''} \<and> host \<noteq> [])"
  by (auto simp: checkHTTPURL_def split: sum.splits prod.splits)

lemma webhook_Validate_Nil [config_simps]:
  "webhook_Validate parse w p = [] \<longleftrightarrow> p = [] \<and>
     (wh_url w \<noteq> [] \<longrightarrow> (\<exists>scheme host. parse (wh_url w) = Inr (scheme, host) \<and>
        scheme \<in> {''http'', ''https''} \<and> host \<noteq> [])) \<and>
     0 < wh_timeout w \<and> 1 \<le> wh_max_attempts w \<and> 0 < wh_base w \<and> wh_base w \<le> wh_max w \<and>
     \<not> f_le (wh_budget w) 0 \<and> \<not> f_greater (wh_budget w) 1"
  by (auto simp: webhook_Validate_def webhook_retry_validate_def Let_def config_simps)

lemma observability_Validate_Nil [config_simps]:
  "observability_Validate v p = [] \<longleftrightarrow> p = [] \<and> (ob_tracing v \<longrightarrow> ob_otlp_endpoint v \<noteq> []) \<and>
     \<not> f_less (ob_sample_ratio v) 0 \<and> \<not> f_greater (ob_sample_ratio v) 1"
  by (auto simp: observability_Validate_def Let_def)

lemma validateAcrossSections_Nil [config_simps]:
  "validateAcrossSections cl c p = [] \<longleftrightarrow> p = [] \<and>
     (ad_addr (cf_admin c) = ht_addr (cf_http c) \<longrightarrow> ephemeralPort cl (ad_addr (cf_admin c))) \<and>
     (0 < wh_timeout (cf_webhook c) \<and> 0 < br_open_duration (cf_breaker c) \<longrightarrow>
        wh_timeout (cf_webhook c) \<le> br_open_duration (cf_breaker c))"
  by (auto simp: validateAcrossSections_def Let_def)

lemma accepted_sections:
  assumes "config_Validate cl c = None"
  shows "queue_ok (cf_queue c)" and "auth_ok (cf_auth c)" and "http_ok (cf_http c)"
    and "idempotency_ok (cf_idempotency c)" and "breaker_ok (cf_breaker c)"
    and "0 < wh_timeout (cf_webhook c)" and "wh_timeout (cf_webhook c) \<le> br_open_duration (cf_breaker c)"
  using assms by (auto simp: config_Validate_def config_problems_def config_simps breaker_ok_def)

lemma wrap64_id: "- (2 ^ 63) \<le> i \<Longrightarrow> i < 2 ^ 63 \<Longrightarrow> wrap64 i = i"
  by (simp add: wrap64_def signed_of_int signed_take_bit_int_eq_self)

lemma trim_space_plain:
  assumes "space_front s = 0" and "space_back s = 0"
  shows "trim_space s = s"
  using assms by (simp add: trim_space_def trim_left.simps [of s] trim_right.simps [of s])

lemmas trim_eval = trim_space_plain space_front_def space_back_def spaces_def starts_with_def ends_with_def

lemma defaults_problems: "config_problems cl (Defaults None) = []"
proof -
  have a: "auth_ok auth_defaults"
    by (simp add: auth_ok_def auth_defaults_def client_ok_def sha256Hex_def lower_def lower_char_def trim_eval)
  have q: "queue_ok queue_defaults"
    by (simp add: queue_ok_def queue_defaults_def wrap64_id)
  have l: "checkLevel ''info'' = None"
    by (simp add: checkLevel_def trim_eval lower_def lower_char_def)
  show ?thesis
    using a q l
    by (simp add: config_problems_def config_simps Defaults_def service_defaults_def
        logging_defaults_def http_defaults_def http_ok_def admin_defaults_def storage_defaults_def
        idempotency_defaults_def idempotency_ok_def ratelimit_defaults_def breaker_defaults_def breaker_ok_def
        webhook_defaults_def observability_defaults_def f_le_def trim_eval)
qed

text \<open>
  The built-in defaults are accepted by the program's own validation, whatever the URL and
  address parsers do.
\<close>
theorem defaults_accepted: "config_Validate cl (Defaults None) = None"
  by (simp add: config_Validate_def defaults_problems)

text \<open>
  C25: A configuration the program accepts gives every client a distinct id and a distinct token digest
  (compared without case) of 64 hexadecimal digits and a tier of the closed set, refuses to require
  authentication with no client, keeps the purge interval within the key's lifetime, keeps one delivery
  attempt within the breaker's open window, and, for a heartbeat interval below 24 years, leaves room for
  two missed heartbeats inside a lease.
\<close>
theorem accepted_config_sound:
  assumes "config_Validate cl c = None"
  shows "list_all client_ok (au_clients (cf_auth c)) \<and> distinct (map ac_id (au_clients (cf_auth c))) \<and>
    distinct (map (\<lambda>k. lower (ac_token_sha256 k)) (au_clients (cf_auth c))) \<and>
    (au_mode (cf_auth c) = ''required'' \<longrightarrow> au_clients (cf_auth c) \<noteq> []) \<and>
    id_purge_interval (cf_idempotency c) \<le> id_ttl (cf_idempotency c) \<and>
    wh_timeout (cf_webhook c) \<le> br_open_duration (cf_breaker c) \<and>
    (qc_heartbeat_interval (cf_queue c) < 2 ^ 61 \<longrightarrow> 3 * qc_heartbeat_interval (cf_queue c) \<le> qc_lease (cf_queue c))"
  using accepted_sections [OF assms] wrap64_id [of "qc_heartbeat_interval (cf_queue c) * 3"]
  by (auto simp: auth_ok_def idempotency_ok_def queue_ok_def)

theorem accepted_config_sound_witness:
  "3 * qc_heartbeat_interval (cf_queue (Defaults None)) \<le> qc_lease (cf_queue (Defaults None)) \<and>
   distinct (map ac_id (au_clients (cf_auth (Defaults None))))"
proof -
  have "config_Validate \<lparr>url_parse = (\<lambda>s. Inr (''http'', s)), split_host_port = (\<lambda>s. None)\<rparr> (Defaults None) = None"
    by (simp add: config_Validate_def defaults_problems)
  from accepted_config_sound [OF this] show ?thesis by (simp add: Defaults_def queue_defaults_def)
qed

end
