(* ===== verification/Pool.thy ===== *)
theory Pool
  imports Job_Table Backoff Config
begin

text \<open>
  The worker pool: the vocabulary of \<open>internal/queue/queue.go\<close> (what a handler's error means)
  and \<open>internal/queue/pool.go\<close> (claiming, dispatching, running, heartbeating, draining), with the
  event fan-out of \<open>events.go\<close>.

  A handler is a function from a job to what it returned, or the value it panicked with. The
  pool's own state is the set of jobs in flight, each with the cancel function of its running
  handler once there is one (a context is named by a number), and the contexts cancelled so
  far. Logging, spans and timers have no part in the decisions modelled here.
\<close>

subsection \<open>What a handler's error means (queue.go)\<close>

definition IsTerminal :: "go_error \<Rightarrow> bool" where
  "IsTerminal e = errors_is e ErrTerminal"

definition Terminal :: "go_error option \<Rightarrow> go_error" where
  "Terminal err = (case err of None \<Rightarrow> ErrTerminal | Some e \<Rightarrow> WrapBoth ErrTerminal e)"

definition Snooze :: "duration \<Rightarrow> string \<Rightarrow> go_error" where
  "Snooze d reason = SnoozeError d reason"

datatype outcome =
    OutcomeSucceeded | OutcomeRetried | OutcomeCancelled | OutcomeDiscarded | OutcomeSnoozed | OutcomeLost

text \<open>\<open>Unmarshal\<close>: a payload that does not decode is terminal. The decoder is a parameter.\<close>

definition jsonPayload :: "(string \<Rightarrow> 'v result) \<Rightarrow> job \<Rightarrow> 'v result" where
  "jsonPayload decode j =
     (case decode (job_payload j) of
        Inl e \<Rightarrow> Inl (Terminal (Some (WrapError
                   (''queue: payload of job '' @ itoa (job_id j) @ '' is not usable: '') e)))
      | Inr v \<Rightarrow> Inr v)"

subsection \<open>Running one job (pool.go)\<close>

datatype handler_result = Returned "go_error option" | Panicked string

type_synonym handlers = "string \<Rightarrow> (job \<Rightarrow> handler_result) option"

definition invoke :: "handlers \<Rightarrow> job \<Rightarrow> go_error option" where
  "invoke hs j =
     (case hs (job_kind j) of
        None \<Rightarrow> Some (Terminal (Some (PlainError (''no handler for kind '' @ go_quote (job_kind j)))))
      | Some h \<Rightarrow>
          (case h j of
             Returned e \<Rightarrow> e
           | Panicked r \<Rightarrow> Some (PlainError (''handler panicked: '' @ r))))"

definition retryable :: "go_error \<Rightarrow> bool" where
  "retryable e = (if IsTerminal e then False else Retryable (Some e))"

definition isSnooze :: "go_error \<Rightarrow> bool" where
  "isSnooze e \<longleftrightarrow> as_snooze e \<noteq> None"

definition maxAttempts :: "queue_cfg \<Rightarrow> job \<Rightarrow> int" where
  "maxAttempts cfg j =
     (if qc_max_attempts cfg > 0 \<and> qc_max_attempts cfg < job_max_attempts j then qc_max_attempts cfg
      else job_max_attempts j)"

definition pool_backoff :: "queue_cfg \<Rightarrow> backoff" where
  "pool_backoff cfg =
     NewBackoff (bo_base (qc_backoff cfg)) (bo_max (qc_backoff cfg)) (bo_jitter (qc_backoff cfg))"

fun snooze_for :: "go_error \<Rightarrow> duration" where
  "snooze_for (SnoozeError d r) = d"
| "snooze_for e = 0"

definition pool_write ::
  "queue_cfg \<Rightarrow> string \<Rightarrow> nat \<Rightarrow> db_outcome \<Rightarrow> time \<Rightarrow> job \<Rightarrow> go_error option \<Rightarrow> jobs \<Rightarrow>
   outcome \<times> bool result \<times> jobs"
where
  "pool_write cfg w k db now j cause rows =
     (case cause of
        None \<Rightarrow> (OutcomeSucceeded, Succeed db now w j rows)
      | Some e \<Rightarrow>
          (case as_snooze e of
             Some s \<Rightarrow> (OutcomeSnoozed, Store_Snooze db now w j (snooze_for s) rows)
           | None \<Rightarrow>
               if \<not> retryable e then (OutcomeCancelled, Cancel db now w j e rows)
               else if job_attempt j \<ge> maxAttempts cfg j then (OutcomeDiscarded, Discard db now w j e rows)
               else
                 (OutcomeRetried,
                  Retry db now w j (backoff_For (pool_backoff cfg) k (job_attempt j)) e rows)))"

definition finish ::
  "queue_cfg \<Rightarrow> string \<Rightarrow> nat \<Rightarrow> db_outcome \<Rightarrow> time \<Rightarrow> job \<Rightarrow> go_error option \<Rightarrow> jobs \<Rightarrow> outcome \<times> jobs"
where
  "finish cfg w k db now j cause rows =
     (case pool_write cfg w k db now j cause rows of
        (outc, Inl e, rows') \<Rightarrow> (OutcomeLost, rows')
      | (outc, Inr held, rows') \<Rightarrow> (if \<not> held then OutcomeLost else outc, rows'))"

subsection \<open>Jobs in flight\<close>

type_synonym inflight = "(int \<times> nat option) list"

definition track :: "int \<Rightarrow> nat option \<Rightarrow> inflight \<Rightarrow> inflight" where
  "track i cancel fs = AList.update i cancel fs"

definition untrack :: "int \<Rightarrow> inflight \<Rightarrow> inflight" where
  "untrack i fs = AList.delete i fs"

definition snapshot :: "inflight \<Rightarrow> int list \<times> nat list" where
  "snapshot fs = (map fst fs, List.map_filter snd fs)"

definition inflightCount :: "inflight \<Rightarrow> nat" where
  "inflightCount fs = length fs"

text \<open>
  \<open>run\<close>: the handler's context is registered for the time the handler and the completion
  write take, then the job is forgotten; the event names the outcome.
\<close>

definition pool_run ::
  "queue_cfg \<Rightarrow> string \<Rightarrow> handlers \<Rightarrow> nat \<Rightarrow> nat \<Rightarrow> db_outcome \<Rightarrow> time \<Rightarrow> job \<Rightarrow> inflight \<Rightarrow> jobs \<Rightarrow>
   outcome \<times> inflight \<times> jobs"
where
  "pool_run cfg w hs ctx k db now j fs rows =
     (let fs = track (job_id j) (Some ctx) fs;
          (outc, rows') = finish cfg w k db now j (invoke hs j) rows
      in (outc, untrack (job_id j) fs, rows'))"

subsection \<open>Claiming and dispatching\<close>

text \<open>
  The dispatch loop of \<open>claimBatch\<close>. \<open>stop\<close> says at which hand-off, if any, the pool's
  context ends: that job is handed back and the loop returns.
\<close>

fun dispatch ::
  "nat option \<Rightarrow> db_outcome \<Rightarrow> string \<Rightarrow> job list \<Rightarrow> inflight \<Rightarrow> jobs \<Rightarrow> bool \<times> job list \<times> inflight \<times> jobs"
where
  "dispatch stop db w [] fs rows = (True, [], fs, rows)"
| "dispatch (Some 0) db w (j # js) fs rows =
     (False, [], untrack (job_id j) (track (job_id j) None fs), snd (Release db w [job_id j] rows))"
| "dispatch stop db w (j # js) fs rows =
     (case dispatch (map_option (\<lambda>n. n - 1) stop) db w js (track (job_id j) None fs) rows of
        (ok, ds, fs', rows') \<Rightarrow> (ok, j # ds, fs', rows'))"

definition claimBatch ::
  "queue_cfg \<Rightarrow> string \<Rightarrow> bool \<Rightarrow> nat option \<Rightarrow> db_outcome \<Rightarrow> db_outcome \<Rightarrow> (int \<Rightarrow> bool) \<Rightarrow> time \<Rightarrow>
   inflight \<Rightarrow> jobs \<Rightarrow> bool \<times> job list \<times> inflight \<times> jobs"
where
  "claimBatch cfg w stopped stop claim_db release_db locked now fs rows =
     (if stopped then (False, [], fs, rows)
      else
        (case Claim claim_db locked now w (nat (qc_claim_batch cfg)) (qc_lease cfg) rows of
           (Inl e, rows') \<Rightarrow> (False, [], fs, rows')
         | (Inr [], rows') \<Rightarrow> (False, [], fs, rows')
         | (Inr claimed, rows') \<Rightarrow>
             (case dispatch stop release_db w claimed fs rows' of
                (ok, ds, fs', rows'') \<Rightarrow>
                  (ok \<and> int (length claimed) = qc_claim_batch cfg, ds, fs', rows''))))"

subsection \<open>Heartbeat and drain\<close>

text \<open>The contexts of the handlers a heartbeat cancels are returned.\<close>

definition beat ::
  "queue_cfg \<Rightarrow> string \<Rightarrow> db_outcome \<Rightarrow> time \<Rightarrow> inflight \<Rightarrow> jobs \<Rightarrow> nat list \<times> jobs" where
  "beat cfg w db now fs rows =
     (let (ids, cancels) = snapshot fs in
      if ids = [] then ([], rows)
      else
        (case Heartbeat db now w ids (qc_lease cfg) rows of
           (Inl e, rows') \<Rightarrow> ([], rows')
         | (Inr held, rows') \<Rightarrow> (if held = length ids then [] else cancels, rows')))"

text \<open>
  Cancelling a handler's context lets it return, and what it then does to the table is not the pool's to say:
  \<open>on_cancel\<close> maps a context to it. \<open>releaseInflight\<close> releases first and cancels the contexts one after the
  other on the table the release left, also when the release failed.
\<close>

definition releaseInflight ::
  "string \<Rightarrow> db_outcome \<Rightarrow> (nat \<Rightarrow> jobs \<Rightarrow> jobs) \<Rightarrow> inflight \<Rightarrow> jobs \<Rightarrow> go_error option \<times> jobs" where
  "releaseInflight w db on_cancel fs rows =
     (let (ids, cancels) = snapshot fs in
      if ids = [] then (None, rows)
      else
        let (res, rows1) = Release db w ids rows;
            rows2 = fold on_cancel cancels rows1
        in (case res of
              Inl e \<Rightarrow> (Some (WrapError ''queue: release in-flight jobs: '' e), rows2)
            | Inr n \<Rightarrow> (None, rows2)))"

text \<open>
  \<open>Stop\<close> polls the in-flight set until it is empty or the drain deadline passes; the list is
  what it sees at each poll before the deadline, the last argument what is in flight at it.
\<close>

fun Stop ::
  "string \<Rightarrow> db_outcome \<Rightarrow> (nat \<Rightarrow> jobs \<Rightarrow> jobs) \<Rightarrow> inflight list \<Rightarrow> inflight \<Rightarrow> jobs \<Rightarrow> go_error option \<times> jobs" where
  "Stop w db on_cancel [] fs rows = releaseInflight w db on_cancel fs rows"
| "Stop w db on_cancel (seen # polls) fs rows =
     (if inflightCount seen = 0 then (None, rows) else Stop w db on_cancel polls fs rows)"

definition pool_wait :: "bool \<Rightarrow> bool \<Rightarrow> duration \<Rightarrow> bool" where
  "pool_wait ctx_done draining d = (if d \<le> 0 then True else \<not> (ctx_done \<or> draining))"


definition NewPool :: "bool \<Rightarrow> nat \<Rightarrow> string \<Rightarrow> go_error option" where
  "NewPool has_store handler_count workerID =
     (if \<not> has_store then Some (PlainError ''queue: a store is required'')
      else if handler_count = 0 then Some (PlainError ''queue: at least one handler is required'')
      else if workerID = [] then Some (PlainError ''queue: a worker id is required'')
      else None)"

subsection \<open>Completion events (events.go)\<close>

text \<open>A subscriber is its channel: capacity and what is queued in it.\<close>

record 'e subs =
  sub_next :: nat
  sub_chans :: "(nat \<times> nat \<times> 'e list) list"

definition Subscribe :: "int \<Rightarrow> 'e subs \<Rightarrow> nat \<times> 'e subs" where
  "Subscribe buf s =
     (let cap = (if buf < 1 then 16 else nat buf); i = Suc (sub_next s) in
      (i, \<lparr>sub_next = i, sub_chans = AList.update i (cap, []) (sub_chans s)\<rparr>))"

definition Unsubscribe :: "nat \<Rightarrow> 'e subs \<Rightarrow> 'e subs" where
  "Unsubscribe i s = s\<lparr>sub_chans := AList.delete i (sub_chans s)\<rparr>"

definition publish :: "'e \<Rightarrow> 'e subs \<Rightarrow> 'e subs" where
  "publish e s =
     s\<lparr>sub_chans := map (\<lambda>(i, cap, q). (i, cap, if length q < cap then q @ [e] else q)) (sub_chans s)\<rparr>"

end
