(* ===== verification/Job_Lifecycle.thy ===== *)
theory Job_Lifecycle
  imports Pool
begin

text \<open>
  The life of a job: every statement of \<open>store.go\<close>, \<open>maintenance.go\<close> and \<open>outbox.go\<close>, issued
  in any order by any number of producers, workers and maintenance replicas, as a step relation
  on the jobs table.

  Every statement but the insert and the purge rewrites rows one by one, so the development
  rests on \<open>row_step\<close>: what any of them may do to one row. From it follow the invariant of
  the table, the monotonicity that makes the claim guard work, and the finality of the final
  states.
\<close>

subsection \<open>Rows\<close>

definition row_ok :: "job_row \<Rightarrow> bool" where
  "row_ok r \<longleftrightarrow>
     (j_state r = StateRunning \<longleftrightarrow> j_locked_by r \<noteq> None) \<and>
     (j_state r = StateRunning \<longleftrightarrow> j_locked_at r \<noteq> None) \<and>
     (j_state r = StateRunning \<longleftrightarrow> j_lease r \<noteq> None) \<and>
     0 \<le> j_attempt r \<and> j_attempt r \<le> j_max_attempts r \<and> 1 \<le> j_max_attempts r \<and>
     j_attempt r \<le> int (length (j_attempted_by r)) \<and>
     (j_state r = StateRunning \<longrightarrow> 1 \<le> j_attempt r) \<and>
     (live (j_state r) \<and> j_state r \<noteq> StateRunning \<longrightarrow> j_attempt r < j_max_attempts r) \<and>
     (j_finalized_at r \<noteq> None \<longrightarrow> \<not> live (j_state r)) \<and>
     (j_state r = StateSucceeded \<or> j_state r = StateCancelled \<longrightarrow> j_finalized_at r \<noteq> None)"

text \<open>The attempts a row has used up: the one running is not used up yet.\<close>

definition used :: "job_row \<Rightarrow> int" where
  "used r = (if j_state r = StateRunning then j_attempt r - 1 else j_attempt r)"

definition row_step :: "job_row \<Rightarrow> job_row \<Rightarrow> bool" where
  "row_step r r' \<longleftrightarrow>
     j_id r' = j_id r \<and> j_unique_key r' = j_unique_key r \<and> j_max_attempts r' = j_max_attempts r \<and>
     row_ok r' \<and> (live (j_state r') \<longrightarrow> live (j_state r)) \<and> used r \<le> used r' \<and>
     (\<not> live (j_state r) \<longrightarrow> r' = r)"

lemma row_step_refl: "row_ok r \<Longrightarrow> row_step r r"
  by (simp add: row_step_def)

lemmas row_defs = row_ok_def row_step_def used_def live_def

lemma claim_row_step:
  "row_ok r \<Longrightarrow> claimable now' r \<Longrightarrow> row_step r (claim_row w lease now r)"
  by (auto simp: row_defs claimable_def claim_row_def)

lemma beat_row_step:
  "row_ok r \<Longrightarrow> held_by w ids r \<Longrightarrow>
   row_step r (r\<lparr>j_heartbeat_at := Some now, j_lease := Some (now + lease)\<rparr>)"
  by (auto simp: row_defs held_by_def)

lemma release_row_step: "row_ok r \<Longrightarrow> held_by w ids r \<Longrightarrow> row_step r (release_row r)"
  by (auto simp: row_defs held_by_def release_row_def unlock_def)

lemma final_row_step:
  assumes "row_ok r" and "claimGuard w j r" and "st \<in> {StateSucceeded, StateCancelled, StateDiscarded}"
  shows "row_step r (unlock (r\<lparr>j_state := st, j_finalized_at := Some now\<rparr>))"
  using assms by (auto simp: row_defs claimGuard_def unlock_def)

lemma log_row_step: "row_step r r' \<Longrightarrow> j_state r = StateRunning \<Longrightarrow> row_step r (log_error now w t r')"
  by (auto simp: row_defs log_error_def)

lemma retry_row_step:
  assumes "row_ok r" and "claimGuard w j r" and "job_attempt j < j_max_attempts r"
  shows "row_step r (unlock (r\<lparr>j_state := StateRetryable, j_scheduled_at := t\<rparr>))"
  using assms by (auto simp: row_defs claimGuard_def unlock_def)

lemma snooze_row_step:
  assumes "row_ok r" and "claimGuard w j r"
  shows "row_step r (unlock (r\<lparr>j_state := StateScheduled, j_attempt := j_attempt r - 1, j_scheduled_at := t\<rparr>))"
  using assms by (auto simp: row_defs claimGuard_def unlock_def)

lemma reap_row_step: "row_ok r \<Longrightarrow> expired now' r \<Longrightarrow> row_step r (reap_row now delay cap r)"
  by (auto simp: row_defs expired_def reap_row_def unlock_def log_error_def)

lemma due_row_step: "row_ok r \<Longrightarrow> due now r \<Longrightarrow> row_step r (r\<lparr>j_state := StateAvailable\<rparr>)"
  by (auto simp: row_defs due_def)

subsection \<open>Statements on the table\<close>

definition rows_step :: "jobs \<Rightarrow> jobs \<Rightarrow> bool" where
  "rows_step rows rows' \<longleftrightarrow> (\<exists>f. rows' = map f rows \<and> (\<forall>r \<in> set rows. row_step r (f r)))"

abbreviation rows_ok :: "jobs \<Rightarrow> bool" where "rows_ok rows \<equiv> \<forall>r \<in> set rows. row_ok r"

lemma rows_step_refl: "rows_ok rows \<Longrightarrow> rows_step rows rows"
  unfolding rows_step_def by (rule exI [of _ id]) (simp add: row_step_refl)

lemma rows_step_update:
  assumes "rows_ok rows" and "\<And>r. r \<in> set rows \<Longrightarrow> P r \<Longrightarrow> row_step r (f r)"
  shows "rows_step rows (sql_update P f rows)"
  unfolding rows_step_def sql_update_def
  using assms row_step_refl by (intro exI [of _ "\<lambda>r. if P r then f r else r"]) auto

lemma rows_step_db_run:
  assumes "rows_ok rows" and "rows_step rows rows'"
  shows "rows_step rows (snd (db_run db wrap (a, rows') rows))"
  using assms rows_step_refl by (cases db) auto

lemma rows_step_guarded:
  assumes "rows_ok rows" and "\<And>r. r \<in> set rows \<Longrightarrow> claimGuard w j r \<Longrightarrow> row_step r (f r)"
  shows "rows_step rows (snd (guarded db op w j f rows))"
  unfolding guarded_def by (intro rows_step_db_run rows_step_update) (use assms in auto)

lemma Claim_step:
  assumes "rows_ok rows" and "distinct (map j_id rows)"
  shows "rows_step rows (snd (Claim db locked now w batch lease rows))"
proof -
  have "row_step r (claim_row w lease now r)"
    if r: "r \<in> set rows" "j_id r \<in> set (claim_ids locked batch now rows)" for r
  proof -
    obtain r' where r': "r' \<in> set rows" "claimable now r'" "j_id r' = j_id r"
      using r(2) by (auto simp: claim_ids_def dest!: in_set_takeD)
    then have "r' = r" using assms(2) r(1) distinct_key_eq by metis
    with r' assms(1) claim_row_step show ?thesis by blast
  qed
  then show ?thesis unfolding Claim_def Let_def using assms(1) by (intro rows_step_db_run rows_step_update) auto
qed

lemma Heartbeat_step: "rows_ok rows \<Longrightarrow> rows_step rows (snd (Heartbeat db now w ids lease rows))"
  unfolding Heartbeat_def by (auto intro!: rows_step_db_run rows_step_update rows_step_refl beat_row_step)

lemma Release_step: "rows_ok rows \<Longrightarrow> rows_step rows (snd (Release db w ids rows))"
  unfolding Release_def by (auto intro!: rows_step_db_run rows_step_update rows_step_refl release_row_step)

lemma Reap_step: "rows_ok rows \<Longrightarrow> rows_step rows (snd (Reap db now delay cap rows))"
  unfolding Reap_def Let_def
  by (cases db) (auto intro!: rows_step_update rows_step_refl reap_row_step)

lemma Schedule_step: "rows_ok rows \<Longrightarrow> rows_step rows (snd (Schedule db now rows))"
  unfolding Schedule_def by (auto intro!: rows_step_db_run rows_step_update due_row_step)

lemma maxAttempts_le: "maxAttempts cfg j \<le> job_max_attempts j"
  by (simp add: maxAttempts_def)

lemma claimGuard_running: "claimGuard w j r \<Longrightarrow> j_state r = StateRunning"
  by (simp add: claimGuard_def)

text \<open>What a claim knows of its row: the number of attempts the row allows never changes.\<close>

definition claim_of :: "job \<Rightarrow> jobs \<Rightarrow> bool" where
  "claim_of j rows \<longleftrightarrow> (\<forall>r \<in> set rows. j_id r = job_id j \<longrightarrow> job_max_attempts j = j_max_attempts r)"

lemma pool_write_step:
  assumes "rows_ok rows" and "claim_of j rows"
  shows "rows_step rows (snd (snd (pool_write cfg w k db now j cause rows)))"
proof -
  have retry: "row_step r (log_error now (Some w) t
      (unlock (r\<lparr>j_state := StateRetryable, j_scheduled_at := d\<rparr>)))"
    if "r \<in> set rows" "claimGuard w j r" "job_attempt j < maxAttempts cfg j" for r t d
  proof -
    have "job_attempt j < j_max_attempts r"
      using that assms(2) maxAttempts_le [of cfg j] by (auto simp: claim_of_def claimGuard_def)
    then show ?thesis
      using that assms(1) by (intro log_row_step retry_row_step) (auto simp: claimGuard_running)
  qed
  have log_final: "row_step r (log_error now (Some w) t (unlock (r\<lparr>j_state := st, j_finalized_at := Some now\<rparr>)))"
    if "r \<in> set rows" "claimGuard w j r" "st \<in> {StateSucceeded, StateCancelled, StateDiscarded}" for r t st
    using that assms(1) by (intro log_row_step final_row_step) (auto simp: claimGuard_running)
  show ?thesis
    using assms(1)
    by (auto simp: pool_write_def Succeed_def Store_Snooze_def Cancel_def Discard_def terminal_def Retry_def
        split: option.splits
        intro!: rows_step_guarded final_row_step snooze_row_step retry log_final)
qed

lemma finish_rows: "snd (finish cfg w k db now j cause rows) = snd (snd (pool_write cfg w k db now j cause rows))"
  by (simp add: finish_def split: prod.splits sum.splits)

lemma finish_step:
  "rows_ok rows \<Longrightarrow> claim_of j rows \<Longrightarrow> rows_step rows (snd (finish cfg w k db now j cause rows))"
  unfolding finish_rows by (rule pool_write_step)

subsection \<open>The queue as a state machine\<close>

text \<open>
  The state is the table, the identity sequence, the database's clock and, as a history
  variable, every claim a worker was ever handed. Any statement may fail or lose its answer.
\<close>

record queue_state =
  qs_rows :: jobs
  qs_seq :: int
  qs_now :: time
  qs_claims :: "(string \<times> job) set"

fun claims_of :: "string \<Rightarrow> job list result \<Rightarrow> (string \<times> job) set" where
  "claims_of w (Inl e) = {}"
| "claims_of w (Inr js) = {w} \<times> set js"

inductive queue_step :: "queue_state \<Rightarrow> queue_state \<Rightarrow> bool" where
  Tick: "qs_now s \<le> t \<Longrightarrow> queue_step s (s\<lparr>qs_now := t\<rparr>)"
| StepEnqueue: "Enqueue marshal db (qs_now s) (qs_seq s) (j :: string outbox_job) (qs_rows s) = (res, rows') \<Longrightarrow>
    queue_step s (s\<lparr>qs_rows := rows', qs_seq := qs_seq s + 1\<rparr>)"
| StepClaim: "Claim db locked (qs_now s) w batch lease (qs_rows s) = (res, rows') \<Longrightarrow>
    queue_step s (s\<lparr>qs_rows := rows', qs_claims := qs_claims s \<union> claims_of w res\<rparr>)"
| StepHeartbeat: "Heartbeat db (qs_now s) w ids lease (qs_rows s) = (res, rows') \<Longrightarrow>
    queue_step s (s\<lparr>qs_rows := rows'\<rparr>)"
| StepFinish: "(w, j) \<in> qs_claims s \<Longrightarrow> finish cfg w k db (qs_now s) j cause (qs_rows s) = (outc, rows') \<Longrightarrow>
    queue_step s (s\<lparr>qs_rows := rows'\<rparr>)"
| StepRelease: "Release db w ids (qs_rows s) = (res, rows') \<Longrightarrow> queue_step s (s\<lparr>qs_rows := rows'\<rparr>)"
| StepReap: "Reap db (qs_now s) delay cap (qs_rows s) = (res, rows') \<Longrightarrow> queue_step s (s\<lparr>qs_rows := rows'\<rparr>)"
| StepSchedule: "Schedule db (qs_now s) (qs_rows s) = (res, rows') \<Longrightarrow> queue_step s (s\<lparr>qs_rows := rows'\<rparr>)"
| StepPurge: "Purge db (qs_now s) succ disc (qs_rows s) = (res, rows') \<Longrightarrow> queue_step s (s\<lparr>qs_rows := rows'\<rparr>)"

abbreviation queue_run :: "queue_state \<Rightarrow> queue_state \<Rightarrow> bool" where
  "queue_run \<equiv> queue_step\<^sup>*\<^sup>*"

definition queue_init :: "time \<Rightarrow> queue_state" where
  "queue_init t = \<lparr>qs_rows = [], qs_seq = 1, qs_now = t, qs_claims = {}\<rparr>"

text \<open>A key is held by at most one live job.\<close>

definition keys_ok :: "jobs \<Rightarrow> bool" where
  "keys_ok rows \<longleftrightarrow> (\<forall>a \<in> set rows. \<forall>b \<in> set rows.
     live (j_state a) \<and> live (j_state b) \<and> j_unique_key a \<noteq> None \<and> j_unique_key a = j_unique_key b \<longrightarrow>
     j_id a = j_id b)"

definition queue_inv :: "queue_state \<Rightarrow> bool" where
  "queue_inv s \<longleftrightarrow> rows_ok (qs_rows s) \<and> distinct (map j_id (qs_rows s)) \<and> keys_ok (qs_rows s) \<and>
     (\<forall>r \<in> set (qs_rows s). j_id r < qs_seq s) \<and>
     (\<forall>(w, j) \<in> qs_claims s. claim_of j (qs_rows s) \<and> job_id j < qs_seq s)"

lemma queue_inv_init: "queue_inv (queue_init t)"
  by (simp add: queue_inv_def queue_init_def keys_ok_def)

text \<open>Row-wise statements keep the invariant.\<close>

lemma row_step_same:
  "row_step r r' \<Longrightarrow> j_id r' = j_id r \<and> j_unique_key r' = j_unique_key r \<and> j_max_attempts r' = j_max_attempts r"
  by (simp add: row_step_def)

lemma row_step_row_ok: "row_step r r' \<Longrightarrow> row_ok r'"
  by (simp add: row_step_def)

lemma row_step_live: "row_step r r' \<Longrightarrow> live (j_state r') \<Longrightarrow> live (j_state r)"
  by (simp add: row_step_def)

lemma row_step_used: "row_step r r' \<Longrightarrow> used r \<le> used r'"
  by (simp add: row_step_def)

lemma row_step_final: "row_step r r' \<Longrightarrow> \<not> live (j_state r) \<Longrightarrow> r' = r"
  by (simp add: row_step_def)

lemma rows_step_origin:
  assumes "rows_step rows rows'" and "r' \<in> set rows'"
  obtains r where "r \<in> set rows" and "row_step r r'"
  using assms unfolding rows_step_def by force

lemma rows_step_ids: "rows_step rows rows' \<Longrightarrow> map j_id rows' = map j_id rows"
  by (auto simp: rows_step_def row_step_same)

lemma rows_step_ok: "rows_step rows rows' \<Longrightarrow> rows_ok rows'"
  by (metis rows_step_origin row_step_row_ok)

lemma rows_step_claim: "rows_step rows rows' \<Longrightarrow> claim_of j rows \<Longrightarrow> claim_of j rows'"
  unfolding claim_of_def by (metis rows_step_origin row_step_same)

lemma rows_step_keys:
  assumes "rows_step rows rows'" and "keys_ok rows"
  shows "keys_ok rows'"
  unfolding keys_ok_def
proof (intro ballI impI)
  fix a' b'
  assume a': "a' \<in> set rows'" and b': "b' \<in> set rows'"
    and same: "live (j_state a') \<and> live (j_state b') \<and> j_unique_key a' \<noteq> None \<and> j_unique_key a' = j_unique_key b'"
  obtain a where "a \<in> set rows" "row_step a a'" using rows_step_origin [OF assms(1) a'] .
  moreover obtain b where "b \<in> set rows" "row_step b b'" using rows_step_origin [OF assms(1) b'] .
  moreover from calculation have "live (j_state a)" "live (j_state b)" "j_unique_key a = j_unique_key a'"
    "j_unique_key b = j_unique_key b'" "j_id a = j_id a'" "j_id b = j_id b'"
    using same by (auto simp: row_step_same dest: row_step_live)
  ultimately show "j_id a' = j_id b'" using assms(2) same unfolding keys_ok_def by metis
qed

lemma queue_inv_rows:
  assumes "queue_inv s" and "rows_step (qs_rows s) rows'"
  shows "queue_inv (s\<lparr>qs_rows := rows'\<rparr>)"
proof -
  have "j_id r' < qs_seq s" if "r' \<in> set rows'" for r'
    by (rule rows_step_origin [OF assms(2) that]) (use assms(1) in \<open>auto simp: queue_inv_def row_step_same\<close>)
  then show ?thesis
    using assms rows_step_ids [OF assms(2)] rows_step_ok [OF assms(2)] rows_step_keys [OF assms(2)]
      rows_step_claim [OF assms(2)]
    by (auto simp: queue_inv_def)
qed

lemma Claim_jobs:
  assumes "Claim db locked now w batch lease rows = (Inr js, rows')" and "j \<in> set js"
  shows "\<exists>r \<in> set rows'. j = job_of r \<and> claimGuard w j r"
proof -
  let ?P = "\<lambda>r. j_id r \<in> set (claim_ids locked batch now rows)"
  have "rows' = sql_update ?P (claim_row w lease now) rows" and "js = map job_of (filter ?P rows')"
    using assms(1) by (cases db; simp add: Claim_def Let_def)+
  moreover from this obtain r where "r \<in> set rows'" "?P r" "j = job_of r" using assms(2) by auto
  moreover have "j_state r = StateRunning \<and> j_locked_by r = Some w"
    if "r \<in> set (sql_update ?P (claim_row w lease now) rows)" "?P r" for r
    using that by (auto simp: sql_update_def claim_row_def)
  ultimately show ?thesis by (auto simp: claimGuard_def job_of_def)
qed

lemma claim_of_job_of:
  "distinct (map j_id rows) \<Longrightarrow> r \<in> set rows \<Longrightarrow> claim_of (job_of r) rows"
  unfolding claim_of_def by (metis distinct_key_eq job_of_def job.select_convs(1,5))

lemma queue_inv_claim:
  assumes "queue_inv s" and "Claim db locked (qs_now s) w batch lease (qs_rows s) = (res, rows')"
  shows "queue_inv (s\<lparr>qs_rows := rows', qs_claims := qs_claims s \<union> claims_of w res\<rparr>)"
proof -
  have st: "rows_step (qs_rows s) rows'"
    using Claim_step [of "qs_rows s" db locked "qs_now s" w batch lease] assms by (auto simp: queue_inv_def)
  note inv = queue_inv_rows [OF assms(1) st]
  have "claim_of j rows' \<and> job_id j < qs_seq s" if c: "(v, j) \<in> claims_of w res" for v j
  proof (cases res)
    case (Inr js)
    then obtain r where r: "r \<in> set rows'" "j = job_of r"
      using Claim_jobs [of db locked "qs_now s" w batch lease "qs_rows s" js rows' j] assms(2) c by auto
    then show ?thesis using claim_of_job_of [of rows' r] inv by (auto simp: queue_inv_def job_of_def)
  qed (use c in simp)
  then show ?thesis using inv by (auto simp: queue_inv_def)
qed

lemma Enqueue_cases:
  assumes "Enqueue marshal db now seq j rows = (res, rows')"
  obtains "rows' = rows"
  | payload where "rows' = rows @ [new_row seq now (ob_kind j) payload (ob_unique_key j) (ob_max_attempts j)]"
      "\<not> key_taken (j_unique_key (new_row seq now (ob_kind j) payload (ob_unique_key j) (ob_max_attempts j))) rows"
      "1 \<le> j_max_attempts (new_row seq now (ob_kind j) payload (ob_unique_key j) (ob_max_attempts j))"
  using assms by (cases db) (auto simp: Enqueue_def Let_def split: if_splits sum.splits)

lemma new_row_ok: "1 \<le> j_max_attempts (new_row i now kind payload key limit) \<Longrightarrow> row_ok (new_row i now kind payload key limit)"
  by (auto simp: row_defs new_row_def)

lemma keys_ok_append:
  assumes "keys_ok rows" and "\<not> key_taken (j_unique_key r) rows"
  shows "keys_ok (rows @ [r])"
proof -
  have new: "\<not> (live (j_state a) \<and> j_unique_key a \<noteq> None \<and> j_unique_key a = j_unique_key r)" if "a \<in> set rows" for a
    using assms(2) that by (auto simp: key_taken_def list_ex_iff)
  show ?thesis unfolding keys_ok_def
  proof (intro ballI impI)
    fix a b
    assume "a \<in> set (rows @ [r])" and "b \<in> set (rows @ [r])"
      and k: "live (j_state a) \<and> live (j_state b) \<and> j_unique_key a \<noteq> None \<and> j_unique_key a = j_unique_key b"
    then consider "a \<in> set rows" "b \<in> set rows" | "a \<in> set rows" "b = r" | "a = r" "b \<in> set rows" | "a = b"
      by auto
    then show "j_id a = j_id b"
      using assms(1) k new [of a] new [of b] unfolding keys_ok_def by cases metis+
  qed
qed

lemma queue_inv_enqueue:
  assumes "queue_inv s" and "Enqueue marshal db (qs_now s) (qs_seq s) j (qs_rows s) = (res, rows')"
  shows "queue_inv (s\<lparr>qs_rows := rows', qs_seq := qs_seq s + 1\<rparr>)"
  using assms(2)
proof (cases rule: Enqueue_cases)
  case 1
  then show ?thesis using assms(1) by (auto simp: queue_inv_def)
next
  case (2 payload)
  let ?r = "new_row (qs_seq s) (qs_now s) (ob_kind j) payload (ob_unique_key j) (ob_max_attempts j)"
  have i: "j_id ?r = qs_seq s" by (simp add: new_row_def)
  have "claim_of k rows' \<and> job_id k < qs_seq s + 1" if "(w, k) \<in> qs_claims s" for w k
    using assms(1) that i 2(1) by (auto simp: queue_inv_def claim_of_def)
  moreover have "distinct (map j_id rows')" using assms(1) i 2(1) by (auto simp: queue_inv_def)
  moreover have "keys_ok rows'" using keys_ok_append assms(1) 2(1,2) by (simp add: queue_inv_def)
  ultimately show ?thesis using assms(1) 2(1) new_row_ok [OF 2(3)] i by (auto simp: queue_inv_def)
qed

lemma Purge_subset: "Purge db now a b rows = (res, rows') \<Longrightarrow> \<exists>P. rows' = filter P rows"
proof -
  assume p: "Purge db now a b rows = (res, rows')"
  have "rows = filter (\<lambda>r. True) rows" by simp
  then have "\<exists>P. rows = filter P rows" by blast
  with p show ?thesis by (cases db) (auto simp: Purge_def Let_def)
qed

lemma queue_inv_purge:
  assumes "queue_inv s" and "Purge db (qs_now s) a b (qs_rows s) = (res, rows')"
  shows "queue_inv (s\<lparr>qs_rows := rows'\<rparr>)"
proof -
  obtain P where "rows' = filter P (qs_rows s)" using Purge_subset [OF assms(2)] by blast
  then show ?thesis
    using assms(1) by (auto simp: queue_inv_def keys_ok_def claim_of_def distinct_map_filter)
qed

lemma queue_inv_step: "queue_step s s' \<Longrightarrow> queue_inv s \<Longrightarrow> queue_inv s'"
proof (induction rule: queue_step.induct)
  case (Tick s t)
  then show ?case by (simp add: queue_inv_def)
next
  case (StepEnqueue marshal db s j res rows')
  then show ?case using queue_inv_enqueue by blast
next
  case (StepClaim db locked s w batch lease res rows')
  then show ?case using queue_inv_claim by blast
next
  case (StepHeartbeat db s w ids lease res rows')
  then show ?case using Heartbeat_step queue_inv_rows by (metis queue_inv_def snd_conv)
next
  case (StepFinish w j s cfg k db cause outc rows')
  then have "claim_of j (qs_rows s)" by (auto simp: queue_inv_def)
  with StepFinish show ?case using finish_step queue_inv_rows by (metis queue_inv_def snd_conv)
next
  case (StepRelease db w ids s res rows')
  then show ?case using Release_step queue_inv_rows by (metis queue_inv_def snd_conv)
next
  case (StepReap db s delay cap res rows')
  then show ?case using Reap_step queue_inv_rows by (metis queue_inv_def snd_conv)
next
  case (StepSchedule db s res rows')
  then show ?case using Schedule_step queue_inv_rows by (metis queue_inv_def snd_conv)
next
  case (StepPurge db s succ disc res rows')
  then show ?case using queue_inv_purge by blast
qed

lemma queue_inv_run: "queue_run s s' \<Longrightarrow> queue_inv s \<Longrightarrow> queue_inv s'"
  by (induction rule: rtranclp_induct) (auto intro: queue_inv_step)

subsection \<open>Spent claims\<close>

text \<open>
  A claim is spent when its attempt is used up on the row it was for, or the row is gone. Used
  attempts never decrease, so a spent claim stays spent, and no guarded write under it matches.
\<close>

definition spent :: "job \<Rightarrow> jobs \<Rightarrow> bool" where
  "spent j rows \<longleftrightarrow> (\<forall>r \<in> set rows. j_id r = job_id j \<longrightarrow> job_attempt j \<le> used r)"

lemma spent_no_guard: "spent j rows \<Longrightarrow> r \<in> set rows \<Longrightarrow> \<not> claimGuard w j r"
  by (auto simp: spent_def claimGuard_def used_def)

lemma rows_step_spent: "rows_step rows rows' \<Longrightarrow> spent j rows \<Longrightarrow> spent j rows'"
  unfolding spent_def
proof
  fix r' assume s: "rows_step rows rows'" "\<forall>r \<in> set rows. j_id r = job_id j \<longrightarrow> job_attempt j \<le> used r" "r' \<in> set rows'"
  obtain r where "r \<in> set rows" "row_step r r'" using rows_step_origin [OF s(1,3)] .
  then show "j_id r' = job_id j \<longrightarrow> job_attempt j \<le> used r'"
    using s(2) row_step_same [of r r'] row_step_used [of r r'] by auto
qed

lemma queue_step_rows:
  assumes "queue_step s s'" and "queue_inv s"
  shows "rows_step (qs_rows s) (qs_rows s') \<or>
    (\<exists>db a b res. Purge db (qs_now s) a b (qs_rows s) = (res, qs_rows s')) \<or>
    (\<exists>r. qs_rows s' = qs_rows s @ [r] \<and> j_id r = qs_seq s)"
  using assms
proof (induction rule: queue_step.induct)
  case (Tick s t)
  then show ?case by (simp add: queue_inv_def rows_step_refl)
next
  case (StepEnqueue marshal db s j res rows')
  from StepEnqueue.hyps show ?case
    by (cases rule: Enqueue_cases) (use StepEnqueue.prems in \<open>auto simp: queue_inv_def rows_step_refl new_row_def\<close>)
next
  case (StepClaim db locked s w batch lease res rows')
  then show ?case using Claim_step [of "qs_rows s" db locked "qs_now s" w batch lease] by (simp add: queue_inv_def)
next
  case (StepHeartbeat db s w ids lease res rows')
  then show ?case using Heartbeat_step [of "qs_rows s" db "qs_now s" w ids lease] by (simp add: queue_inv_def)
next
  case (StepFinish w j s cfg k db cause outc rows')
  then have "claim_of j (qs_rows s)" by (auto simp: queue_inv_def)
  then show ?case
    using StepFinish finish_step [of "qs_rows s" j cfg w k db "qs_now s" cause] by (simp add: queue_inv_def)
next
  case (StepRelease db w ids s res rows')
  then show ?case using Release_step [of "qs_rows s" db w ids] by (simp add: queue_inv_def)
next
  case (StepReap db s delay cap res rows')
  then show ?case using Reap_step [of "qs_rows s" db "qs_now s" delay cap] by (simp add: queue_inv_def)
next
  case (StepSchedule db s res rows')
  then show ?case using Schedule_step [of "qs_rows s" db "qs_now s"] by (simp add: queue_inv_def)
next
  case (StepPurge db s succ disc res rows')
  then show ?case by auto
qed

lemma queue_step_seq: "queue_step s s' \<Longrightarrow> qs_seq s \<le> qs_seq s'"
  by (induction rule: queue_step.induct) simp_all

lemma spent_step:
  assumes "queue_step s s'" and "queue_inv s" and "job_id j < qs_seq s" and "spent j (qs_rows s)"
  shows "spent j (qs_rows s')"
  using queue_step_rows [OF assms(1,2)]
proof (elim disjE exE conjE)
  assume "rows_step (qs_rows s) (qs_rows s')"
  then show ?thesis using rows_step_spent assms(4) by blast
next
  fix db a b res assume "Purge db (qs_now s) a b (qs_rows s) = (res, qs_rows s')"
  then obtain P where "qs_rows s' = filter P (qs_rows s)" using Purge_subset by blast
  then show ?thesis using assms(4) by (simp add: spent_def)
next
  fix r assume "qs_rows s' = qs_rows s @ [r]" "j_id r = qs_seq s"
  then show ?thesis using assms(3,4) by (auto simp: spent_def)
qed

lemma spent_run:
  assumes "queue_run s s'" and "queue_inv s" and "job_id j < qs_seq s" and "spent j (qs_rows s)"
  shows "spent j (qs_rows s') \<and> job_id j < qs_seq s' \<and> queue_inv s'"
  using assms
proof (induction rule: rtranclp_induct)
  case (step y z)
  then show ?case using spent_step queue_step_seq queue_inv_step by (metis order_less_le_trans)
qed simp

lemma guarded_spent:
  assumes "spent j rows"
  shows "guarded DbOk op w j f rows = (Inr False, rows)"
  using spent_no_guard [OF assms] by (simp add: guarded_def sql_count_zero sql_update_none)

lemma finish_spent:
  assumes "spent j rows"
  shows "finish cfg w k DbOk now j cause rows = (OutcomeLost, rows)"
  by (auto simp: finish_def pool_write_def Succeed_def Store_Snooze_def Cancel_def Discard_def terminal_def
      Retry_def guarded_spent [OF assms] split: option.splits)

text \<open>What spends a claim: reaping it, and completing it otherwise than by a snooze.\<close>

lemma spent_update:
  assumes "distinct (map j_id rows)" and "r \<in> set rows" and "P r" and "j_id r = job_id j"
    and "\<And>x. j_id (f x) = j_id x" and "job_attempt j \<le> used (f r)"
  shows "spent j (sql_update P f rows)"
proof -
  have "x = r" if "x \<in> set rows" "j_id x = job_id j" for x
    using distinct_key_eq [OF assms(1) that(1) assms(2)] that(2) assms(4) by simp
  then show ?thesis using assms(3,5,6) by (auto simp: spent_def sql_update_def)
qed

lemma reap_spends:
  assumes "distinct (map j_id rows)" and "r \<in> set rows" and "claimGuard w j r" and "expired now r"
  shows "spent j (snd (Reap DbOk now delay cap rows))"
  using assms
  by (auto simp: Reap_def Let_def claimGuard_def reap_row_def unlock_def log_error_def used_def
      intro!: spent_update [of rows r])

lemma guarded_held:
  "guarded DbOk op w j f rows = (Inr True, rows') \<Longrightarrow> \<exists>r \<in> set rows. claimGuard w j r \<and> rows' = sql_update (claimGuard w j) f rows"
  by (auto simp: guarded_def sql_count_def) (metis filter_empty_conv length_0_conv One_nat_def zero_neq_one)

lemma guarded_spends:
  assumes "distinct (map j_id rows)" and "guarded DbOk op w j f rows = (Inr True, rows')"
    and "\<And>x. j_id (f x) = j_id x" and "\<And>x. claimGuard w j x \<Longrightarrow> job_attempt j \<le> used (f x)"
  shows "spent j rows'"
proof -
  obtain r where r: "r \<in> set rows" "claimGuard w j r" "rows' = sql_update (claimGuard w j) f rows"
    using guarded_held [OF assms(2)] by blast
  then show ?thesis
    using assms(1,3,4) by (auto simp: claimGuard_def intro!: spent_update [of rows r])
qed

lemma finish_spends:
  assumes "distinct (map j_id rows)" and "finish cfg w k DbOk now j cause rows = (outc, rows')"
    and "outc \<in> {OutcomeSucceeded, OutcomeRetried, OutcomeCancelled, OutcomeDiscarded}"
  shows "spent j rows'"
proof -
  obtain held where w: "pool_write cfg w k DbOk now j cause rows = (outc, Inr held, rows')" and h: "held"
    using assms(2,3) by (auto simp: finish_def split: prod.splits sum.splits if_splits)
  consider f op where "guarded DbOk op w j f rows = (Inr True, rows')" "\<And>x. j_id (f x) = j_id x"
    "\<And>x. claimGuard w j x \<Longrightarrow> job_attempt j \<le> used (f x)"
    using w h assms(3)
    by (auto simp: pool_write_def Succeed_def Store_Snooze_def Cancel_def Discard_def terminal_def
        Retry_def unlock_def log_error_def used_def claimGuard_def split: option.splits if_splits)
  then show ?thesis using guarded_spends [OF assms(1)] by cases blast
qed

subsection \<open>Properties of every run\<close>

text \<open>A run used by the examples: one job is enqueued, claimed, and its lease passes.\<close>

definition demo_job :: "string outbox_job" where
  "demo_job = \<lparr>ob_kind = ''task.event'', ob_payload = ''{}'', ob_unique_key = ''k'', ob_max_attempts = 0\<rparr>"

definition demo_row :: job_row where
  "demo_row = new_row 1 0 ''task.event'' ''{}'' ''k'' 0"

definition demo_claimed :: queue_state where
  "demo_claimed = \<lparr>qs_rows = [claim_row ''w1'' 30 0 demo_row], qs_seq = 2, qs_now = 31,
     qs_claims = {(''w1'', job_of (claim_row ''w1'' 30 0 demo_row))}\<rparr>"

lemma demo_enqueue: "Enqueue Inr DbOk 0 1 demo_job [] = (Inr True, [demo_row])"
  by (simp add: Enqueue_def demo_job_def demo_row_def new_row_def key_taken_def)

lemma demo_claim:
  "Claim DbOk (\<lambda>_. False) 0 ''w1'' 10 30 [demo_row] =
     (Inr [job_of (claim_row ''w1'' 30 0 demo_row)], [claim_row ''w1'' 30 0 demo_row])"
  by (simp add: Claim_def claim_ids_def sort_by_Cons demo_row_def new_row_def claimable_def
      sql_update_def claim_row_def)

lemma demo_run: "queue_run (queue_init 0) demo_claimed"
proof -
  let ?s1 = "\<lparr>qs_rows = [demo_row], qs_seq = 2, qs_now = 0, qs_claims = {}\<rparr>"
  let ?s2 = "demo_claimed\<lparr>qs_now := 0\<rparr>"
  have "queue_step (queue_init 0) ?s1"
    using StepEnqueue [of Inr DbOk "queue_init 0" demo_job "Inr True" "[demo_row]"] demo_enqueue
    by (simp add: queue_init_def)
  moreover have "queue_step ?s1 ?s2"
    using StepClaim [of DbOk "\<lambda>_. False" ?s1 "''w1''" 10 30] demo_claim by (simp add: demo_claimed_def)
  moreover have "queue_step ?s2 demo_claimed" using Tick [of ?s2 31] by (simp add: demo_claimed_def)
  ultimately show ?thesis by (meson converse_rtranclp_into_rtranclp rtranclp.rtrancl_refl)
qed

text \<open>
  C5: The stale-worker guard: once the reaper has reclaimed a job from a worker whose lease passed, no
  completion that worker ever writes for that claim, whatever happened to the job in between, matches
  a row: the outcome is lost and the table is unchanged.
\<close>
theorem zombie_write_refused:
  assumes "queue_run (queue_init t) s" and "(w, j) \<in> qs_claims s" and "r \<in> set (qs_rows s)"
    and "claimGuard w j r" and "expired (qs_now s) r"
    and "queue_run (s\<lparr>qs_rows := snd (Reap DbOk (qs_now s) delay cap (qs_rows s))\<rparr>) s'"
  shows "finish cfg w k DbOk now j cause (qs_rows s') = (OutcomeLost, qs_rows s')"
proof -
  have inv: "queue_inv s" using queue_inv_run [OF assms(1) queue_inv_init] .
  let ?s = "s\<lparr>qs_rows := snd (Reap DbOk (qs_now s) delay cap (qs_rows s))\<rparr>"
  have inv': "queue_inv ?s"
    by (rule queue_inv_rows [OF inv Reap_step]) (use inv in \<open>simp add: queue_inv_def\<close>)
  have "spent j (qs_rows ?s)"
    using reap_spends [of "qs_rows s" r w j "qs_now s"] assms(3-5) inv by (simp add: queue_inv_def)
  moreover have "job_id j < qs_seq ?s" using inv assms(2) by (auto simp: queue_inv_def)
  ultimately show ?thesis using finish_spent spent_run [OF assms(6) inv'] by blast
qed

theorem zombie_write_refused_witness:
  "finish queue_defaults ''w1'' 0 DbOk 40 (job_of (claim_row ''w1'' 30 0 demo_row)) None
     (snd (Reap DbOk 31 16 5 [claim_row ''w1'' 30 0 demo_row])) =
   (OutcomeLost, snd (Reap DbOk 31 16 5 [claim_row ''w1'' 30 0 demo_row]))"
proof -
  let ?r = "claim_row ''w1'' 30 0 demo_row"
  have "queue_run (demo_claimed\<lparr>qs_rows := snd (Reap DbOk (qs_now demo_claimed) 16 5 (qs_rows demo_claimed))\<rparr>)
      (demo_claimed\<lparr>qs_rows := snd (Reap DbOk (qs_now demo_claimed) 16 5 (qs_rows demo_claimed))\<rparr>)" by simp
  from zombie_write_refused [OF demo_run _ _ _ _ this, of "''w1''" "job_of ?r" ?r queue_defaults 0 40 None]
  show ?thesis
    by (simp add: demo_claimed_def claimGuard_def claim_row_def job_of_def expired_def)
qed



text \<open>
  C8: In every reachable state a job is locked, with a lease, exactly while it is running; it never exceeds
  its attempts, and a waiting job always has one left; identifiers are unique; and at most one live job
  holds a deduplication key.
\<close>
theorem reachable_queue_inv:
  assumes "queue_run (queue_init t) s"
  shows "distinct (map j_id (qs_rows s)) \<and> keys_ok (qs_rows s) \<and>
    (\<forall>r \<in> set (qs_rows s).
       (j_state r = StateRunning \<longleftrightarrow> j_locked_by r \<noteq> None) \<and> (j_state r = StateRunning \<longleftrightarrow> j_lease r \<noteq> None) \<and>
       0 \<le> j_attempt r \<and> j_attempt r \<le> j_max_attempts r \<and>
       (live (j_state r) \<and> j_state r \<noteq> StateRunning \<longrightarrow> j_attempt r < j_max_attempts r) \<and>
       (j_finalized_at r \<noteq> None \<longrightarrow> \<not> live (j_state r)))"
  using queue_inv_run [OF assms queue_inv_init] by (auto simp: queue_inv_def row_ok_def)

theorem reachable_queue_inv_witness:
  "keys_ok (qs_rows demo_claimed) \<and> list_all (\<lambda>r. j_attempt r \<le> j_max_attempts r) (qs_rows demo_claimed)"
  using reachable_queue_inv [OF demo_run] by (simp add: list_all_iff)

end
