(* ===== verification/Job_Recovery.thy ===== *)
theory Job_Recovery
  imports Job_Lifecycle
begin

text \<open>
  What the queue does for a job over time: finished jobs stay finished, a job whose worker died
  runs again, a heartbeat keeps a job, a drain hands jobs back, a job that keeps failing uses
  exactly its attempts, and one kind of discarded row is never purged.
\<close>

subsection \<open>Final states are final\<close>

definition stays :: "job_row \<Rightarrow> jobs \<Rightarrow> bool" where
  "stays r rows \<longleftrightarrow> r \<in> set rows \<or> j_id r \<notin> j_id ` set rows"

lemma rows_step_final:
  assumes "rows_step rows rows'" and "r \<in> set rows" and "\<not> live (j_state r)"
  shows "r \<in> set rows'"
proof -
  obtain f where f: "rows' = map f rows" "\<forall>x \<in> set rows. row_step x (f x)"
    using assms(1) by (auto simp: rows_step_def)
  then have "f r = r" using row_step_final assms(2,3) by blast
  then show ?thesis using f(1) assms(2) by force
qed

lemma rows_step_id_set: "rows_step rows rows' \<Longrightarrow> j_id ` set rows' = j_id ` set rows"
  using rows_step_ids by (metis list.set_map)

lemma stays_step:
  assumes "queue_step s s'" and "queue_inv s" and "\<not> live (j_state r)" and "j_id r < qs_seq s"
    and "stays r (qs_rows s)" and "distinct (map j_id (qs_rows s))"
  shows "stays r (qs_rows s')"
  using queue_step_rows [OF assms(1,2)]
proof (elim disjE exE conjE)
  assume st: "rows_step (qs_rows s) (qs_rows s')"
  then show ?thesis using rows_step_final [OF st] rows_step_id_set [OF st] assms(3,5) by (auto simp: stays_def)
next
  fix db a b res assume "Purge db (qs_now s) a b (qs_rows s) = (res, qs_rows s')"
  then obtain P where f: "qs_rows s' = filter P (qs_rows s)" using Purge_subset by blast
  have "x = r" if "r \<in> set (qs_rows s)" "x \<in> set (qs_rows s)" "j_id x = j_id r" for x
    using distinct_key_eq [OF assms(6) that(2,1,3)] .
  then show ?thesis using assms(5) f by (auto simp: stays_def image_iff)
next
  fix x assume "qs_rows s' = qs_rows s @ [x]" "j_id x = qs_seq s"
  then show ?thesis using assms(4,5) by (auto simp: stays_def)
qed

lemma stays_run:
  assumes "queue_run s s'" and "queue_inv s" and "\<not> live (j_state r)" and "r \<in> set (qs_rows s)"
  shows "stays r (qs_rows s') \<and> j_id r < qs_seq s' \<and> queue_inv s'"
  using assms(1)
proof (induction rule: rtranclp_induct)
  case base
  then show ?case using assms by (auto simp: stays_def queue_inv_def)
next
  case (step y z)
  then have y: "queue_inv y" "stays r (qs_rows y)" "j_id r < qs_seq y" by simp_all
  have "stays r (qs_rows z)"
    using stays_step [OF step.hyps(2) y(1) assms(3) y(3,2)] y(1) by (simp add: queue_inv_def)
  moreover have "j_id r < qs_seq z" using y(3) queue_step_seq [OF step.hyps(2)] by simp
  ultimately show ?case using queue_inv_step [OF step.hyps(2) y(1)] by simp
qed

text \<open>
  C23: A job that has succeeded, been cancelled or been discarded keeps its whole row, history
  included, through every later step, until the row itself is deleted; no statement revives it.
\<close>
theorem final_states_final:
  assumes "queue_run (queue_init t) s" and "r \<in> set (qs_rows s)" and "\<not> live (j_state r)"
    and "queue_run s s'" and "r' \<in> set (qs_rows s')" and "j_id r' = j_id r"
  shows "r' = r"
proof -
  have inv: "queue_inv s" using queue_inv_run [OF assms(1) queue_inv_init] .
  from stays_run [OF assms(4) inv assms(3,2)]
  have "r \<in> set (qs_rows s')" "distinct (map j_id (qs_rows s'))"
    using assms(5,6) by (auto simp: stays_def queue_inv_def image_iff)
  then show ?thesis using distinct_key_eq assms(5,6) by metis
qed

definition demo_done :: queue_state where
  "demo_done = demo_claimed\<lparr>qs_rows := snd (finish queue_defaults ''w1'' 0 DbOk 31
     (job_of (claim_row ''w1'' 30 0 demo_row)) None (qs_rows demo_claimed))\<rparr>"

lemma demo_done_run: "queue_run (queue_init 0) demo_done"
proof -
  let ?j = "job_of (claim_row ''w1'' 30 0 demo_row)"
  have c: "(''w1'', ?j) \<in> qs_claims demo_claimed" by (simp add: demo_claimed_def)
  obtain outc rows' where f: "finish queue_defaults ''w1'' 0 DbOk (qs_now demo_claimed) ?j None (qs_rows demo_claimed) =
      (outc, rows')" by fastforce
  have "queue_step demo_claimed demo_done"
    using StepFinish [OF c f] f by (simp add: demo_done_def demo_claimed_def)
  with demo_run show ?thesis by (meson rtranclp.rtrancl_into_rtrancl)
qed

theorem final_states_final_witness:
  "\<exists>r. qs_rows demo_done = [r] \<and> j_state r = StateSucceeded \<and> list_all (\<lambda>r'. r' = r) (qs_rows demo_done)"
proof -
  obtain r where r: "qs_rows demo_done = [r]" "j_state r = StateSucceeded"
    by (simp add: demo_done_def demo_claimed_def finish_def pool_write_def Succeed_def guarded_def
        sql_count_def sql_update_def claimGuard_def claim_row_def job_of_def unlock_def)
  then show ?thesis
    using final_states_final [OF demo_done_run, of r demo_done r] by (auto simp: live_def)
qed

subsection \<open>A discarded row that is never purged\<close>

text \<open>
  The reaper discards at the lower of the row's and the fleet's attempts but stamps
  \<open>finalized_at\<close> only at the row's, and the purger only deletes stamped rows.
\<close>

lemma Purge_keeps:
  assumes "distinct (map j_id rows)" and "r \<in> set rows" and "\<And>n a b. \<not> purgeable n a b r"
    and "Purge db now a b rows = (res, rows')"
  shows "r \<in> set rows'"
proof -
  have "x = r" if "x \<in> set rows" "j_id x = j_id r" for x
    using distinct_key_eq [OF assms(1) that(1) assms(2) that(2)] .
  then have "j_id r \<notin> j_id ` set (take purgeBatch (filter (purgeable now a b) rows))"
    using assms(3) by (auto dest!: in_set_takeD)
  then show ?thesis using assms(2,4) by (cases db) (auto simp: Purge_def Let_def)
qed

lemma unstamped_kept:
  assumes "queue_step s s'" and "queue_inv s" and "r \<in> set (qs_rows s)" and "\<not> live (j_state r)"
    and "j_finalized_at r = None"
  shows "r \<in> set (qs_rows s')"
  using queue_step_rows [OF assms(1,2)]
proof (elim disjE exE conjE)
  assume "rows_step (qs_rows s) (qs_rows s')"
  then show ?thesis using rows_step_final assms(3,4) by blast
next
  fix db a b res assume "Purge db (qs_now s) a b (qs_rows s) = (res, qs_rows s')"
  moreover have "distinct (map j_id (qs_rows s))" using assms(2) by (simp add: queue_inv_def)
  ultimately show ?thesis using Purge_keeps [of "qs_rows s" r] assms(3,5) by (simp add: purgeable_def)
next
  fix x assume "qs_rows s' = qs_rows s @ [x]"
  then show ?thesis using assms(3) by simp
qed

lemma unstamped_kept_run:
  assumes "queue_run s s'" and "queue_inv s" and "r \<in> set (qs_rows s)" and "\<not> live (j_state r)"
    and "j_finalized_at r = None"
  shows "r \<in> set (qs_rows s')"
proof -
  have "r \<in> set (qs_rows s') \<and> queue_inv s'"
    using assms(1)
    by (induction rule: rtranclp_induct) (use assms in \<open>auto intro: unstamped_kept queue_inv_step\<close>)
  then show ?thesis ..
qed

text \<open>
  C39: A discarded job that leaks: when the fleet's ceiling is below the row's own attempts and a worker
  dies on the attempt that reaches the ceiling, the reaper discards the row without stamping
  \<open>finalized_at\<close>, and no later step ever deletes it, so it outlives every retention.
\<close>
theorem reaped_over_ceiling_never_purged:
  assumes "queue_run (queue_init t) s" and "r \<in> set (qs_rows s)" and "expired (qs_now s) r"
    and "cap \<le> j_attempt r" and "j_attempt r < j_max_attempts r"
    and "queue_run (s\<lparr>qs_rows := snd (Reap DbOk (qs_now s) delay cap (qs_rows s))\<rparr>) s'"
  shows "reap_row (qs_now s) delay cap r \<in> set (qs_rows s') \<and>
    j_state (reap_row (qs_now s) delay cap r) = StateDiscarded"
proof -
  let ?r = "reap_row (qs_now s) delay cap r"
  let ?s = "s\<lparr>qs_rows := snd (Reap DbOk (qs_now s) delay cap (qs_rows s))\<rparr>"
  have "queue_inv s" using queue_inv_run [OF assms(1) queue_inv_init] .
  then have inv: "queue_inv ?s"
    by (rule queue_inv_step [rotated]) (rule StepReap [of DbOk _ delay cap], simp add: Reap_def Let_def)
  have st: "j_state ?r = StateDiscarded" and "j_finalized_at ?r = None"
    using assms(4,5) by (simp_all add: reap_row_def log_error_def unlock_def)
  moreover have "?r \<in> set (qs_rows ?s)"
    using assms(2,3) by (auto simp: Reap_def Let_def sql_update_def)
  ultimately show ?thesis using unstamped_kept_run [OF assms(6) inv, of ?r] by (simp add: live_def)
qed

theorem reaped_over_ceiling_never_purged_witness:
  "\<exists>r. j_state r = StateDiscarded \<and> r \<in> set (snd (Reap DbOk 31 16 1 (qs_rows demo_claimed)))"
proof -
  let ?r = "claim_row ''w1'' 30 0 demo_row"
  have "queue_run (demo_claimed\<lparr>qs_rows := snd (Reap DbOk (qs_now demo_claimed) 16 1 (qs_rows demo_claimed))\<rparr>)
      (demo_claimed\<lparr>qs_rows := snd (Reap DbOk (qs_now demo_claimed) 16 1 (qs_rows demo_claimed))\<rparr>)" by simp
  from reaped_over_ceiling_never_purged [OF demo_run _ _ _ _ this, of ?r]
  show ?thesis
    by (auto simp: demo_claimed_def claim_row_def expired_def demo_row_def new_row_def)
qed

subsection \<open>Crash recovery\<close>

lemma claim_ids_all:
  assumes "length rows \<le> batch"
  shows "set (claim_ids (\<lambda>_. False) batch now rows) = j_id ` {r \<in> set rows. claimable now r}"
proof -
  have "length (filter (claimable now) rows) \<le> batch" using assms length_filter_le order_trans by blast
  then show ?thesis by (simp add: claim_ids_def)
qed

lemma Claim_takes:
  assumes "length rows \<le> batch" and "r \<in> set rows" and "claimable now r"
  shows "\<exists>js rows'. Claim DbOk (\<lambda>_. False) now w batch lease rows = (Inr js, rows') \<and>
    job_of (claim_row w lease now r) \<in> set js \<and> claim_row w lease now r \<in> set rows'"
proof -
  let ?P = "\<lambda>r. j_id r \<in> set (claim_ids (\<lambda>_. False) batch now rows)"
  let ?rows = "sql_update ?P (claim_row w lease now) rows"
  have P: "?P r" using claim_ids_all [OF assms(1)] assms(2,3) by auto
  have "claim_row w lease now r \<in> set ?rows" using P assms(2) by (force simp: sql_update_def)
  moreover have "?P (claim_row w lease now r)" using P by (simp add: claim_row_def)
  ultimately have "job_of (claim_row w lease now r) \<in> set (map job_of (filter ?P ?rows))" by force
  with \<open>claim_row w lease now r \<in> set ?rows\<close> show ?thesis by (simp add: Claim_def Let_def)
qed

text \<open>
  C10: A crashed worker loses nothing: a job whose lease has passed with attempts left is, after one sweep, a
  later sweep once the backoff has passed, and a claim large enough for the table, handed to the claiming
  worker with the next attempt number.
\<close>
theorem crash_recovery:
  assumes "r \<in> set rows" and "expired t1 r" and "j_attempt r < min (j_max_attempts r) cap"
    and "t1 + delay \<le> t2" and "t2 \<le> t3" and "length rows \<le> batch"
  shows "\<exists>js rows' j. Claim DbOk (\<lambda>_. False) t3 w batch lease
      (snd (Schedule DbOk t2 (snd (Reap DbOk t1 delay cap rows)))) = (Inr js, rows') \<and>
    j \<in> set js \<and> job_id j = j_id r \<and> job_attempt j = j_attempt r + 1 \<and> job_payload j = j_payload r \<and>
    (\<exists>r' \<in> set rows'. claimGuard w j r')"
proof -
  let ?r1 = "reap_row t1 delay cap r"
  let ?r2 = "?r1\<lparr>j_state := StateAvailable\<rparr>"
  let ?rows = "snd (Schedule DbOk t2 (snd (Reap DbOk t1 delay cap rows)))"
  have "?r1 \<in> set (snd (Reap DbOk t1 delay cap rows))"
    using assms(1,2) by (auto simp: Reap_def Let_def sql_update_def)
  moreover have d: "due t2 ?r1"
    using assms(3,4) by (simp add: due_def reap_row_def log_error_def unlock_def min_le_iff_disj)
  ultimately have "?r2 \<in> set ?rows" by (force simp: Schedule_def sql_update_def)
  moreover have "claimable t3 ?r2"
    using assms(4,5) by (simp add: claimable_def reap_row_def log_error_def unlock_def)
  moreover have "length ?rows \<le> batch" using assms(6) by (simp add: Schedule_def Reap_def Let_def)
  ultimately obtain js rows' where c: "Claim DbOk (\<lambda>_. False) t3 w batch lease ?rows = (Inr js, rows')"
    "job_of (claim_row w lease t3 ?r2) \<in> set js" "claim_row w lease t3 ?r2 \<in> set rows'"
    using Claim_takes by blast
  moreover have "claimGuard w (job_of (claim_row w lease t3 ?r2)) (claim_row w lease t3 ?r2)"
    by (simp add: claimGuard_def job_of_def claim_row_def)
  moreover have "job_id (job_of (claim_row w lease t3 ?r2)) = j_id r"
    "job_attempt (job_of (claim_row w lease t3 ?r2)) = j_attempt r + 1"
    "job_payload (job_of (claim_row w lease t3 ?r2)) = j_payload r"
    by (simp_all add: job_of_def claim_row_def reap_row_def log_error_def unlock_def)
  ultimately show ?thesis by metis
qed

theorem crash_recovery_witness:
  "\<exists>js rows' j. Claim DbOk (\<lambda>_. False) 50 ''w2'' 10 30
      (snd (Schedule DbOk 47 (snd (Reap DbOk 31 16 5 [claim_row ''w1'' 30 0 demo_row])))) = (Inr js, rows') \<and>
    j \<in> set js \<and> job_id j = 1 \<and> job_attempt j = 2"
  using crash_recovery [of "claim_row ''w1'' 30 0 demo_row" "[claim_row ''w1'' 30 0 demo_row]" 31 5 16 47 50 10 "''w2''" 30]
  by (auto simp: claim_row_def expired_def demo_row_def new_row_def)

subsection \<open>Heartbeats and drains\<close>



text \<open>A handler that dies with its context may still try to record any outcome for a job the pool had in flight.\<close>

definition dies_writing :: "string \<Rightarrow> int list \<Rightarrow> (jobs \<Rightarrow> jobs) \<Rightarrow> bool" where
  "dies_writing w ids f \<longleftrightarrow>
     (\<exists>cfg k db now j cause. job_id j \<in> set ids \<and> f = (\<lambda>rows. snd (finish cfg w k db now j cause rows)))"

lemma finish_unguarded:
  assumes "\<And>r. r \<in> set rows \<Longrightarrow> \<not> claimGuard w j r"
  shows "snd (finish cfg w k db now j cause rows) = rows"
    and "finish cfg w k DbOk now j cause rows = (OutcomeLost, rows)"
proof -
  have g: "guarded db op w j f rows = db_run db (WrapError (''queue: '' @ op @ '' job '' @ itoa (job_id j) @ '': '')) (False, rows) rows"
    for db op f using assms by (simp add: guarded_def sql_count_zero sql_update_none)
  show "snd (finish cfg w k db now j cause rows) = rows"
    by (cases db) (auto simp: finish_def pool_write_def Succeed_def Store_Snooze_def Cancel_def Discard_def terminal_def
        Retry_def g split: option.splits)
  show "finish cfg w k DbOk now j cause rows = (OutcomeLost, rows)"
    by (auto simp: finish_def pool_write_def Succeed_def Store_Snooze_def Cancel_def Discard_def terminal_def
        Retry_def g split: option.splits)
qed

lemma released_unguarded:
  "x \<in> set (sql_update (held_by w ids) release_row rows) \<Longrightarrow> job_id j \<in> set ids \<Longrightarrow> \<not> claimGuard w j x"
  by (auto simp: set_sql_update claimGuard_def held_by_def release_row_def unlock_def split: if_splits)

lemma released_stays:
  assumes "\<forall>f \<in> set fs. dies_writing w ids f" and "rows1 = sql_update (held_by w ids) release_row rows"
  shows "fold (\<lambda>f. f) fs rows1 = rows1"
  using assms(1)
proof (induction fs)
  case (Cons f fs)
  then obtain cfg k db now j cause where "job_id j \<in> set ids" "f = (\<lambda>rows. snd (finish cfg w k db now j cause rows))"
    by (auto simp: dies_writing_def)
  then have "f rows1 = rows1" using finish_unguarded(1) released_unguarded assms(2) by metis
  with Cons show ?case by simp
qed simp

text \<open>
  C16: A drain that runs out of time hands back every job the pool still holds, when the release statement goes through:
  each becomes available with its attempt returned and its lock cleared, and stays so although the handlers are cancelled
  and each of them still writes whatever outcome it likes for its job, because the release comes before the cancellations:
  the table the drain leaves is exactly the released one, and a handler that finishes later records nothing either.
\<close>
theorem drain_hands_back:
  assumes "r \<in> set rows" and "claimGuard w j r" and "job_id j \<in> fst ` set fs"
    and "\<And>i c. (i, Some c) \<in> set fs \<Longrightarrow> dies_writing w (map fst fs) (on_cancel c)"
    and "releaseInflight w DbOk on_cancel fs rows = (err, rows')"
  shows "err = None \<and> rows' = sql_update (held_by w (map fst fs)) release_row rows \<and> release_row r \<in> set rows' \<and>
    j_state (release_row r) = StateAvailable \<and> j_attempt (release_row r) = j_attempt r - 1 \<and> j_locked_by (release_row r) = None \<and>
    finish cfg w k DbOk now j cause rows' = (OutcomeLost, rows')"
proof -
  let ?rows = "sql_update (held_by w (map fst fs)) release_row rows"
  have ids: "map fst fs \<noteq> []" using assms(3) by auto
  have held: "held_by w (map fst fs) r" using assms(2,3) by (auto simp: held_by_def claimGuard_def)
  have dying: "\<forall>f \<in> set (map on_cancel (List.map_filter snd fs)). dies_writing w (map fst fs) f"
    using assms(4) by (auto simp: map_filter_def)
  have "fold on_cancel (List.map_filter snd fs) ?rows = fold (\<lambda>f. f) (map on_cancel (List.map_filter snd fs)) ?rows"
    by (simp add: fold_map comp_def)
  also have "\<dots> = ?rows" by (rule released_stays [OF dying refl])
  finally have rows': "rows' = ?rows" "err = None"
    using assms(5) ids by (auto simp: releaseInflight_def snapshot_def Release_def Let_def)
  have "finish cfg w k DbOk now j cause rows' = (OutcomeLost, rows')"
  proof (rule finish_unguarded(2))
    fix x assume "x \<in> set rows'"
    moreover have "job_id j \<in> set (map fst fs)" unfolding set_map using assms(3) .
    ultimately show "\<not> claimGuard w j x" unfolding rows'(1) by (rule released_unguarded)
  qed
  moreover have "release_row r \<in> set rows'" using rows'(1) assms(1) held by (force simp: sql_update_def)
  ultimately show ?thesis using rows' by (simp add: release_row_def unlock_def)
qed

text \<open>The cancelled handler tries to record that it succeeded.\<close>

theorem drain_hands_back_witness:
  "\<exists>err rows'. releaseInflight ''w1'' DbOk
       (\<lambda>c rows. snd (finish queue_defaults ''w1'' 0 DbOk 40 (job_of (claim_row ''w1'' 30 0 demo_row)) None rows))
       [(1, Some 7)] [claim_row ''w1'' 30 0 demo_row] = (err, rows') \<and>
     err = None \<and> (\<exists>r \<in> set rows'. j_state r = StateAvailable \<and> j_attempt r = 0)"
proof -
  let ?r = "claim_row ''w1'' 30 0 demo_row"
  let ?dies = "\<lambda>(c :: nat) rows. snd (finish queue_defaults ''w1'' 0 DbOk 40 (job_of ?r) None rows)"
  obtain err rows' where e: "releaseInflight ''w1'' DbOk ?dies [(1, Some 7)] [?r] = (err, rows')" by fastforce
  have id: "job_id (job_of ?r) = 1" by (simp add: job_of_def claim_row_def demo_row_def new_row_def)
  have guard: "claimGuard ''w1'' (job_of ?r) ?r" by (simp add: claimGuard_def claim_row_def job_of_def)
  have "dies_writing ''w1'' (map fst [(1, Some 7)]) (?dies c)" for c
    unfolding dies_writing_def using id by (intro exI [of _ queue_defaults] exI) auto
  moreover have "?r \<in> set [?r]" "job_id (job_of ?r) \<in> fst ` set [(1, Some (7 :: nat))]" using id by simp_all
  ultimately have "release_row ?r \<in> set rows' \<and> err = None \<and> j_state (release_row ?r) = StateAvailable \<and>
      j_attempt (release_row ?r) = j_attempt ?r - 1"
    using drain_hands_back [OF _ guard _ _ e] by blast
  moreover have "j_attempt ?r = 1" by (simp add: claim_row_def demo_row_def new_row_def)
  ultimately show ?thesis using e by fastforce
qed

subsection \<open>A job that keeps failing\<close>

text \<open>
  A round in the life of a job \<open>i\<close>: other processes act on the table, some worker claims a batch, others act again, the
  worker records the failure of job \<open>i\<close> if the batch held it, and a sweep runs. The rounds may differ in the worker, the
  batch, the rows other statements hold locked, the handler's error, the jitter's draw, the times and what the others do.
\<close>

record fail_env =
  fe_before :: "jobs \<Rightarrow> jobs"
  fe_worker :: string
  fe_batch :: nat
  fe_locked :: "int \<Rightarrow> bool"
  fe_claim_at :: time
  fe_during :: "jobs \<Rightarrow> jobs"
  fe_error :: go_error
  fe_draw :: nat
  fe_done_at :: time
  fe_sweep_at :: time

definition fail_claim :: "queue_cfg \<Rightarrow> fail_env \<Rightarrow> jobs \<Rightarrow> job list result \<times> jobs" where
  "fail_claim cfg e rows =
     Claim DbOk (fe_locked e) (fe_claim_at e) (fe_worker e) (fe_batch e) (qc_lease cfg) (fe_before e rows)"

definition fail_round :: "queue_cfg \<Rightarrow> int \<Rightarrow> fail_env \<Rightarrow> jobs \<Rightarrow> bool \<times> jobs" where
  "fail_round cfg i e rows =
     (case fail_claim cfg e rows of
        (Inl err, rows1) \<Rightarrow> (False, snd (Schedule DbOk (fe_sweep_at e) rows1))
      | (Inr js, rows1) \<Rightarrow>
          (case find (\<lambda>j. job_id j = i) js of
             None \<Rightarrow> (False, snd (Schedule DbOk (fe_sweep_at e) (fe_during e rows1)))
           | Some j \<Rightarrow>
               (True, snd (Schedule DbOk (fe_sweep_at e)
                  (snd (finish cfg (fe_worker e) (fe_draw e) DbOk (fe_done_at e) j (Some (fe_error e)) (fe_during e rows1)))))))"

text \<open>How often the job did in the first \<open>n\<close> rounds, and the table after them.\<close>

fun fail_rounds :: "queue_cfg \<Rightarrow> int \<Rightarrow> (nat \<Rightarrow> fail_env) \<Rightarrow> nat \<Rightarrow> jobs \<Rightarrow> nat \<times> jobs" where
  "fail_rounds cfg i env 0 rows = (0, rows)"
| "fail_rounds cfg i env (Suc n) rows =
     (case fail_rounds cfg i env n rows of
        (runs, rows') \<Rightarrow>
          (case fail_round cfg i (env n) rows' of (did, rows'') \<Rightarrow> (if did then Suc runs else runs, rows'')))"

definition leaves :: "int \<Rightarrow> (jobs \<Rightarrow> jobs) \<Rightarrow> bool" where
  "leaves i f \<longleftrightarrow> (\<forall>rows. distinct (map j_id rows) \<longrightarrow>
     distinct (map j_id (f rows)) \<and> (\<forall>r \<in> set rows. j_id r = i \<longrightarrow> r \<in> set (f rows)))"

definition fails_again :: "queue_cfg \<Rightarrow> int \<Rightarrow> fail_env \<Rightarrow> bool" where
  "fails_again cfg i e \<longleftrightarrow> leaves i (fe_before e) \<and> leaves i (fe_during e) \<and> retryable (fe_error e) \<and>
     as_snooze (fe_error e) = None \<and> fe_claim_at e \<le> fe_sweep_at e \<and>
     (\<forall>a. fe_done_at e + backoff_For (pool_backoff cfg) (fe_draw e) a \<le> fe_sweep_at e)"

lemma leavesD:
  "leaves i f \<Longrightarrow> distinct (map j_id rows) \<Longrightarrow> distinct (map j_id (f rows))"
  "leaves i f \<Longrightarrow> distinct (map j_id rows) \<Longrightarrow> r \<in> set rows \<Longrightarrow> j_id r = i \<Longrightarrow> r \<in> set (f rows)"
  by (auto simp: leaves_def)

lemma maxAttempts_min:
  "1 \<le> qc_max_attempts cfg \<Longrightarrow> maxAttempts cfg j = min (job_max_attempts j) (qc_max_attempts cfg)"
  by (auto simp: maxAttempts_def)

lemma Schedule_row:
  assumes "distinct (map j_id rows)" and "r \<in> set rows"
  shows "(if due t r then r\<lparr>j_state := StateAvailable\<rparr> else r) \<in> set (snd (Schedule DbOk t rows))"
    and "distinct (map j_id (snd (Schedule DbOk t rows)))"
  using assms by (auto simp: Schedule_def set_sql_update sql_update_ids image_iff)

lemma find_in: "find P xs = Some x \<Longrightarrow> x \<in> set xs \<and> P x"
  by (induction xs) (auto split: if_splits)

lemma find_job_row:
  assumes "distinct (map j_id rows)" and "r \<in> set rows" and "P r" and "j_id r = i"
  shows "find (\<lambda>j. job_id j = i) (map job_of (filter P rows)) = Some (job_of r)"
proof -
  have "find (\<lambda>j. job_id j = i) (map job_of (filter P rows)) \<noteq> None"
    using assms(2-4) by (auto simp: find_None_iff job_of_def)
  then obtain j where j: "find (\<lambda>j. job_id j = i) (map job_of (filter P rows)) = Some j" by blast
  then obtain x where "x \<in> set rows" "j = job_of x" "job_id j = i" using find_in [OF j] by auto
  then have "x = r" using distinct_key_eq [OF assms(1) _ assms(2)] assms(4) by (auto simp: job_of_def)
  with j \<open>j = job_of x\<close> show ?thesis by simp
qed

text \<open>What the failure of an attempt makes of the job's row.\<close>

definition failed_row :: "queue_cfg \<Rightarrow> fail_env \<Rightarrow> job_row \<Rightarrow> job_row" where
  "failed_row cfg e r =
     log_error (fe_done_at e) (Some (fe_worker e)) (errText (Some (fe_error e)))
       (unlock (if j_attempt r \<ge> min (j_max_attempts r) (qc_max_attempts cfg)
          then r\<lparr>j_state := StateDiscarded, j_finalized_at := Some (fe_done_at e)\<rparr>
          else r\<lparr>j_state := StateRetryable,
                 j_scheduled_at := fe_done_at e + backoff_For (pool_backoff cfg) (fe_draw e) (j_attempt r)\<rparr>))"

lemma finish_fails:
  assumes "1 \<le> qc_max_attempts cfg" and "fails_again cfg i e" and "distinct (map j_id rows)" and "r \<in> set rows"
    and "claimGuard (fe_worker e) (job_of r) r"
  shows "failed_row cfg e r \<in> set (snd (finish cfg (fe_worker e) (fe_draw e) DbOk (fe_done_at e) (job_of r) (Some (fe_error e)) rows))"
    and "distinct (map j_id (snd (finish cfg (fe_worker e) (fe_draw e) DbOk (fe_done_at e) (job_of r) (Some (fe_error e)) rows)))"
proof -
  let ?fin = "snd (finish cfg (fe_worker e) (fe_draw e) DbOk (fe_done_at e) (job_of r) (Some (fe_error e)) rows)"
  have mx: "maxAttempts cfg (job_of r) = min (j_max_attempts r) (qc_max_attempts cfg)"
    using maxAttempts_min [OF assms(1)] by (simp add: job_of_def)
  have "\<exists>f. ?fin = sql_update (claimGuard (fe_worker e) (job_of r)) f rows \<and> f r = failed_row cfg e r \<and> (\<forall>x. j_id (f x) = j_id x)"
  proof (cases "j_attempt r \<ge> min (j_max_attempts r) (qc_max_attempts cfg)")
    case True
    then show ?thesis using assms(2) mx
      by (auto simp: fails_again_def finish_def pool_write_def Discard_def terminal_def guarded_def failed_row_def job_of_def
          log_error_def unlock_def)
  next
    case False
    then show ?thesis using assms(2) mx
      by (auto simp: fails_again_def finish_def pool_write_def Retry_def guarded_def failed_row_def job_of_def log_error_def unlock_def)
  qed
  then obtain f where f: "?fin = sql_update (claimGuard (fe_worker e) (job_of r)) f rows" "f r = failed_row cfg e r" "\<And>x. j_id (f x) = j_id x"
    by blast
  show "failed_row cfg e r \<in> set ?fin" unfolding f(1) set_sql_update using assms(4,5) f(2) by force
  show "distinct (map j_id ?fin)" unfolding f(1) using assms(3) f(3) by (simp add: sql_update_ids)
qed

lemma fail_claim_rows:
  assumes "leaves i (fe_before e)" and "distinct (map j_id rows)" and "r \<in> set rows" and "j_id r = i"
    and "ids = claim_ids (fe_locked e) (fe_batch e) (fe_claim_at e) (fe_before e rows)"
  shows "\<exists>js rows1. fail_claim cfg e rows = (Inr js, rows1) \<and> distinct (map j_id rows1) \<and>
    (if i \<in> set ids then let r1 = claim_row (fe_worker e) (qc_lease cfg) (fe_claim_at e) r in
        r1 \<in> set rows1 \<and> find (\<lambda>j. job_id j = i) js = Some (job_of r1) \<and> claimable (fe_claim_at e) r
     else r \<in> set rows1 \<and> find (\<lambda>j. job_id j = i) js = None)"
proof -
  let ?P = "\<lambda>r. j_id r \<in> set ids" and ?c = "claim_row (fe_worker e) (qc_lease cfg) (fe_claim_at e)"
  define rows0 where "rows0 = fe_before e rows"
  define rows1 where "rows1 = sql_update ?P ?c rows0"
  have r0: "distinct (map j_id rows0)" "r \<in> set rows0" unfolding rows0_def using leavesD [OF assms(1)] assms(2-4) by blast+
  have claim: "fail_claim cfg e rows = (Inr (map job_of (filter ?P rows1)), rows1)"
    by (simp add: fail_claim_def Claim_def Let_def assms(5) rows1_def rows0_def)
  have d1: "distinct (map j_id rows1)" using r0(1) unfolding rows1_def by (simp add: sql_update_ids claim_row_def)
  show ?thesis
  proof (cases "i \<in> set ids")
    case True
    have c: "?c r \<in> set rows1" using True r0(2) assms(4) unfolding rows1_def by (force simp: set_sql_update)
    moreover have "find (\<lambda>j. job_id j = i) (map job_of (filter ?P rows1)) = Some (job_of (?c r))"
      using True assms(4) by (intro find_job_row [OF d1 c]) (simp_all add: claim_row_def)
    moreover obtain x where "x \<in> set rows0" "j_id x = i" "claimable (fe_claim_at e) x"
      using True unfolding assms(5) rows0_def [symmetric] by (auto simp: claim_ids_def dest!: in_set_takeD)
    then have "claimable (fe_claim_at e) r" using distinct_key_eq [OF r0(1) _ r0(2)] assms(4) by metis
    ultimately show ?thesis using claim d1 True by (simp add: Let_def)
  next
    case False
    then have "r \<in> set rows1" using r0(2) assms(4) unfolding rows1_def by (force simp: set_sql_update)
    moreover have "find (\<lambda>j. job_id j = i) (map job_of (filter ?P rows1)) = None"
      using False by (auto simp: find_None_iff job_of_def)
    ultimately show ?thesis using claim d1 False by simp
  qed
qed

text \<open>Where a failing job stands when the claim of a round begins.\<close>

definition failing_at :: "queue_cfg \<Rightarrow> time \<Rightarrow> int \<Rightarrow> nat \<Rightarrow> job_row \<Rightarrow> bool" where
  "failing_at cfg t N runs r \<longleftrightarrow> min (j_max_attempts r) (qc_max_attempts cfg) = N \<and> j_attempt r = int runs \<and> int runs \<le> N \<and>
     (if int runs < N then claimable t r else j_state r = StateDiscarded)"

lemma fail_round_step:
  assumes "1 \<le> qc_max_attempts cfg" and "fails_again cfg i e" and "distinct (map j_id rows)" and "r \<in> set rows" and "j_id r = i"
    and "failing_at cfg (fe_claim_at e) N runs r" and "fe_sweep_at e \<le> t"
  shows "\<exists>did rows' r'. fail_round cfg i e rows = (did, rows') \<and> distinct (map j_id rows') \<and> r' \<in> set rows' \<and> j_id r' = i \<and>
    failing_at cfg t N (if did then Suc runs else runs) r' \<and>
    (int runs < N \<longrightarrow> \<not> fe_locked e i \<longrightarrow> length (fe_before e rows) \<le> fe_batch e \<longrightarrow> did)"
proof -
  define ids where "ids = claim_ids (fe_locked e) (fe_batch e) (fe_claim_at e) (fe_before e rows)"
  have lv: "leaves i (fe_before e)" "leaves i (fe_during e)" and ct: "fe_claim_at e \<le> fe_sweep_at e"
    using assms(2) by (simp_all add: fails_again_def)
  obtain js rows1 where c: "fail_claim cfg e rows = (Inr js, rows1)" "distinct (map j_id rows1)"
    and taken: "if i \<in> set ids then let r1 = claim_row (fe_worker e) (qc_lease cfg) (fe_claim_at e) r in
        r1 \<in> set rows1 \<and> find (\<lambda>j. job_id j = i) js = Some (job_of r1) \<and> claimable (fe_claim_at e) r
     else r \<in> set rows1 \<and> find (\<lambda>j. job_id j = i) js = None"
    using fail_claim_rows [OF lv(1) assms(3-5) ids_def] by blast
  define rows2 where "rows2 = fe_during e rows1"
  have d2: "distinct (map j_id rows2)" unfolding rows2_def by (rule leavesD(1) [OF lv(2) c(2)])
  show ?thesis
  proof (cases "i \<in> set ids")
    case True
    define r1 where "r1 = claim_row (fe_worker e) (qc_lease cfg) (fe_claim_at e) r"
    have r1: "r1 \<in> set rows1" "find (\<lambda>j. job_id j = i) js = Some (job_of r1)" "claimable (fe_claim_at e) r"
      using taken True by (simp_all add: Let_def r1_def)
    have r1i: "j_id r1 = i" "j_attempt r1 = int runs + 1" "j_max_attempts r1 = j_max_attempts r" "claimGuard (fe_worker e) (job_of r1) r1"
      using assms(5,6) by (simp_all add: r1_def claim_row_def claimGuard_def job_of_def failing_at_def)
    have r2: "r1 \<in> set rows2" unfolding rows2_def using leavesD(2) [OF lv(2) c(2) r1(1)] r1i(1) by blast
    note f = finish_fails [OF assms(1,2) d2 r2 r1i(4)]
    define r' where "r' = (if due (fe_sweep_at e) (failed_row cfg e r1) then (failed_row cfg e r1)\<lparr>j_state := StateAvailable\<rparr>
      else failed_row cfg e r1)"
    note sch = Schedule_row [OF f(2,1), of "fe_sweep_at e", folded r'_def]
    have lt: "int runs < N" using assms(6) r1(3) by (auto simp: failing_at_def claimable_def split: if_splits)
    have bo: "fe_done_at e + backoff_For (pool_backoff cfg) (fe_draw e) a \<le> fe_sweep_at e" for a
      using assms(2) by (simp add: fails_again_def)
    have "j_id r' = i" "failing_at cfg t N (Suc runs) r'"
      using r1i lt assms(6,7) bo [of "int runs + 1"]
      by (auto simp: r'_def failing_at_def failed_row_def due_def claimable_def log_error_def unlock_def)
    then show ?thesis using sch c(1) r1(2) by (auto simp: fail_round_def rows2_def)
  next
    case False
    then have r1: "r \<in> set rows1" "find (\<lambda>j. job_id j = i) js = None" using taken by simp_all
    have r2: "r \<in> set rows2" unfolding rows2_def using leavesD(2) [OF lv(2) c(2) r1(1)] assms(5) by blast
    have "\<not> due (fe_sweep_at e) r" "failing_at cfg t N runs r"
      using assms(6,7) ct by (auto simp: failing_at_def claimable_def due_def split: if_splits)
    moreover have "\<not> (int runs < N \<and> \<not> fe_locked e i \<and> length (fe_before e rows) \<le> fe_batch e)"
    proof
      assume a: "int runs < N \<and> \<not> fe_locked e i \<and> length (fe_before e rows) \<le> fe_batch e"
      have "claimable (fe_claim_at e) r" using a assms(6) by (simp add: failing_at_def)
      moreover have "r \<in> set (fe_before e rows)" using leavesD(2) [OF lv(1) assms(3,4)] assms(5) by blast
      moreover have "length (filter (\<lambda>r. claimable (fe_claim_at e) r \<and> \<not> fe_locked e (j_id r)) (fe_before e rows)) \<le> fe_batch e"
        using a length_filter_le order_trans by blast
      ultimately have "i \<in> set ids" using a assms(5) by (auto simp: ids_def claim_ids_def)
      with False show False by simp
    qed
    ultimately show ?thesis
      using Schedule_row [OF d2 r2, of "fe_sweep_at e"] c(1) r1(2) assms(5) by (auto simp: fail_round_def rows2_def)
  qed
qed

text \<open>
  C14: A job whose handler always fails in a way worth retrying is run exactly as often as the lower of its own and the
  fleet's attempts allow. Whatever the table holds beside it, whichever workers claim in batches of whatever size, and
  whatever other processes do to the other rows, after any number of rounds (a claim, the recorded failure when the claim
  took the job, and a sweep once that failure's backoff has passed) the job's attempt count is the number of times it did,
  it is discarded once that number reaches the limit and is never run again, and it is available before. If in each round
  the job's row is not locked and the batch is at least the table, it runs in every round until then. The queue's
  statements are answered, and nobody else touches this job's row.
\<close>
theorem failing_job_exhausts_attempts:
  assumes "1 \<le> qc_max_attempts cfg" and "\<And>k. fails_again cfg (j_id r) (env k)" and "\<And>k. fe_sweep_at (env k) \<le> fe_claim_at (env (Suc k))"
    and "distinct (map j_id rows)" and "r \<in> set rows" and "claimable (fe_claim_at (env 0)) r" and "j_attempt r = 0" and "1 \<le> j_max_attempts r"
    and "fail_rounds cfg (j_id r) env n rows = (runs, rows')"
  shows "\<exists>r' \<in> set rows'. j_id r' = j_id r \<and> j_attempt r' = int runs \<and>
    int runs \<le> min (j_max_attempts r) (qc_max_attempts cfg) \<and>
    (j_state r' = StateDiscarded \<longleftrightarrow> int runs = min (j_max_attempts r) (qc_max_attempts cfg)) \<and>
    (int runs < min (j_max_attempts r) (qc_max_attempts cfg) \<longrightarrow> j_state r' = StateAvailable) \<and>
    ((\<forall>k < n. \<not> fe_locked (env k) (j_id r) \<and>
        length (fe_before (env k) (snd (fail_rounds cfg (j_id r) env k rows))) \<le> fe_batch (env k)) \<longrightarrow>
     int runs = min (int n) (min (j_max_attempts r) (qc_max_attempts cfg)))"
proof -
  define N where "N = min (j_max_attempts r) (qc_max_attempts cfg)"
  let ?all = "\<lambda>n. \<forall>k < n. \<not> fe_locked (env k) (j_id r) \<and>
      length (fe_before (env k) (snd (fail_rounds cfg (j_id r) env k rows))) \<le> fe_batch (env k)"
  have "distinct (map j_id rows') \<and> (\<exists>r' \<in> set rows'. j_id r' = j_id r \<and> failing_at cfg (fe_claim_at (env n)) N runs r') \<and>
      (?all n \<longrightarrow> int runs = min (int n) N)"
    if "fail_rounds cfg (j_id r) env n rows = (runs, rows')" for n runs rows'
    using that
  proof (induction n arbitrary: runs rows')
    case 0
    have "failing_at cfg (fe_claim_at (env 0)) N 0 r"
      using assms(1,6,7,8) by (simp add: failing_at_def N_def)
    then show ?case using 0 assms(1,4,5,8) by (auto simp: N_def)
  next
    case (Suc n)
    obtain runs0 rows0 where p: "fail_rounds cfg (j_id r) env n rows = (runs0, rows0)" by fastforce
    from Suc.IH [OF p] obtain r0 where d0: "distinct (map j_id rows0)" and r0: "r0 \<in> set rows0" "j_id r0 = j_id r"
      "failing_at cfg (fe_claim_at (env n)) N runs0 r0" and all0: "?all n \<longrightarrow> int runs0 = min (int n) N" by blast
    obtain did r1 where q: "fail_round cfg (j_id r) (env n) rows0 = (did, rows')" "runs = (if did then Suc runs0 else runs0)"
      "distinct (map j_id rows')" "r1 \<in> set rows'" "j_id r1 = j_id r" "failing_at cfg (fe_claim_at (env (Suc n))) N runs r1"
      "int runs0 < N \<longrightarrow> \<not> fe_locked (env n) (j_id r) \<longrightarrow> length (fe_before (env n) rows0) \<le> fe_batch (env n) \<longrightarrow> did"
      using fail_round_step [OF assms(1,2) d0 r0 assms(3)] Suc.prems p by (auto split: prod.splits)
    have le: "int runs \<le> N" using q(6) by (simp add: failing_at_def)
    have "int runs = min (int (Suc n)) N" if a: "?all (Suc n)"
    proof -
      have "int runs0 = min (int n) N" using all0 a by simp
      moreover have "\<not> fe_locked (env n) (j_id r)" "length (fe_before (env n) rows0) \<le> fe_batch (env n)"
        using a [rule_format, of n] p by simp_all
      ultimately show ?thesis using q(2,7) le by (cases "int n < N") (auto split: if_splits)
    qed
    then show ?case using q(3-6) by blast
  qed
  from this [OF assms(9)] obtain r' where "r' \<in> set rows'" "j_id r' = j_id r" "failing_at cfg (fe_claim_at (env n)) N runs r'"
    "?all n \<longrightarrow> int runs = min (int n) N" by blast
  then show ?thesis unfolding N_def [symmetric]
    by (intro bexI [of _ r']) (auto simp: failing_at_def claimable_def split: if_splits)
qed

text \<open>Seven rounds by alternating workers over a table with a second job in it: five runs.\<close>

definition demo_fail_env :: "nat \<Rightarrow> fail_env" where
  "demo_fail_env n = \<lparr>fe_before = (\<lambda>rows. rows), fe_worker = (if even n then ''w1'' else ''w2''), fe_batch = 10,
     fe_locked = (\<lambda>_. False), fe_claim_at = int n * 10 ^ 15, fe_during = (\<lambda>rows. rows), fe_error = PlainError ''boom'', fe_draw = n mod 8,
     fe_done_at = int n * 10 ^ 15, fe_sweep_at = int (Suc n) * 10 ^ 15\<rparr>"

lemma length_finish [simp]: "length (snd (finish cfg w k db now j cause rows)) = length rows"
proof -
  have g: "length (snd (guarded db op w j f rows)) = length rows" for op f by (cases db) (simp_all add: guarded_def)
  show ?thesis
    unfolding finish_rows
    by (auto simp: pool_write_def Succeed_def Store_Snooze_def Cancel_def Discard_def terminal_def Retry_def g split: option.splits)
qed

lemma length_demo_rounds: "length (snd (fail_rounds cfg i demo_fail_env n rows)) = length rows"
proof (induction n)
  case (Suc n)
  obtain runs rows' where p: "fail_rounds cfg i demo_fail_env n rows = (runs, rows')" by fastforce
  have "length (snd (fail_round cfg i (demo_fail_env n) rows')) = length rows'"
    by (auto simp: fail_round_def fail_claim_def Claim_def Let_def Schedule_def demo_fail_env_def split: option.splits)
  with Suc p show ?case by (cases "fail_round cfg i (demo_fail_env n) rows'") simp
qed simp

theorem failing_job_exhausts_attempts_witness:
  "\<exists>runs rows'. fail_rounds queue_defaults 1 demo_fail_env 7 [demo_row, demo_row\<lparr>j_id := 2, j_state := StateSucceeded\<rparr>] = (runs, rows') \<and>
     runs = 5 \<and> (\<exists>r' \<in> set rows'. j_id r' = 1 \<and> j_attempt r' = 5 \<and> j_state r' = StateDiscarded)"
proof -
  let ?rows = "[demo_row, demo_row\<lparr>j_id := 2, j_state := StateSucceeded\<rparr>]"
  obtain runs rows' where p: "fail_rounds queue_defaults (j_id demo_row) demo_fail_env 7 ?rows = (runs, rows')" by fastforce
  have row: "j_id demo_row = 1" "j_max_attempts demo_row = 5" "j_attempt demo_row = 0" "claimable 0 demo_row"
    by (simp_all add: demo_row_def new_row_def claimable_def)
  have b: "backoff_For (pool_backoff queue_defaults) n a \<le> 10 ^ 15" if "n < 2 ^ 53" for n a
    using backoff_For_bounds(2) [of "pool_backoff queue_defaults" n a] that
    by (simp add: pool_backoff_def NewBackoff_def queue_defaults_def)
  have e: "retryable (PlainError ''boom'')" "as_snooze (PlainError ''boom'') = None"
    by (simp_all add: retryable_def IsTerminal_def errors_is_def Retryable_def KindOf_def as_app_def
        as_snooze_def kind_retryable_def normalize_def)
  have again: "fails_again queue_defaults (j_id demo_row) (demo_fail_env k)" for k
    using b [of "k mod 8"] e by (auto simp: fails_again_def leaves_def demo_fail_env_def algebra_simps)
  have "\<exists>r' \<in> set rows'. j_id r' = j_id demo_row \<and> j_attempt r' = int runs \<and> int runs \<le> min 5 5 \<and>
      (j_state r' = StateDiscarded \<longleftrightarrow> int runs = min 5 5) \<and> (int runs < min 5 5 \<longrightarrow> j_state r' = StateAvailable) \<and>
      ((\<forall>k < 7. \<not> fe_locked (demo_fail_env k) (j_id demo_row) \<and>
         length (fe_before (demo_fail_env k) (snd (fail_rounds queue_defaults (j_id demo_row) demo_fail_env k ?rows))) \<le> fe_batch (demo_fail_env k)) \<longrightarrow>
       int runs = min (int 7) (min 5 5))"
    using failing_job_exhausts_attempts [OF _ again _ _ _ _ _ _ p] row
    by (simp add: queue_defaults_def demo_fail_env_def)
  moreover have "fe_before (demo_fail_env k) = (\<lambda>rows. rows)" "fe_batch (demo_fail_env k) = 10" "\<not> fe_locked (demo_fail_env k) i" for k i
    by (simp_all add: demo_fail_env_def)
  ultimately show ?thesis using p row(1) length_demo_rounds [of queue_defaults 1 _ ?rows] by auto
qed

end
