(* ===== verification/Pool_Loop.thy ===== *)
theory Pool_Loop
  imports Job_Recovery
begin

text \<open>
  The loops of the worker pool (\<open>internal/queue/pool.go\<close>): the claim loop that drains the queue
  batch by batch and then sleeps until the poll ticker or a notification, the worker that runs
  what the loop hands it, and the heartbeat's ticker.

  What a loop meets is an argument: for every batch the answers of the database, the clock, the
  rows other transactions have locked, and what the other goroutines and processes do to the
  in-flight set and the table before the next batch; for every sleep, what woke it and what
  happened meanwhile. The inner claim loop has no bound of its own (a producer can keep it busy
  for ever), so it is a partial function: \<open>None\<close> is a loop that never ends. The theorems say when
  it ends and that it leaves no work behind.
\<close>

subsection \<open>The claim loop\<close>

record claim_env =
  ce_stopped :: bool
  ce_stop :: "nat option"
  ce_claim_db :: db_outcome
  ce_release_db :: db_outcome
  ce_locked :: "int \<Rightarrow> bool"
  ce_now :: time
  ce_ctx_done :: bool
  ce_draining :: bool
  ce_others :: "inflight \<times> jobs \<Rightarrow> inflight \<times> jobs"

definition claim_once ::
  "queue_cfg \<Rightarrow> string \<Rightarrow> claim_env \<Rightarrow> inflight \<Rightarrow> jobs \<Rightarrow> bool \<times> job list \<times> inflight \<times> jobs" where
  "claim_once cfg w e fs rows =
     claimBatch cfg w (ce_stopped e) (ce_stop e) (ce_claim_db e) (ce_release_db e) (ce_locked e) (ce_now e) fs rows"

text \<open>
  The inner loop. The result says whether the loop was stopped in its pause, which ends
  \<open>claimLoop\<close> as well, and which batch is next.
\<close>

partial_function (option) claim_batches ::
  "queue_cfg \<Rightarrow> string \<Rightarrow> (nat \<Rightarrow> claim_env) \<Rightarrow> nat \<Rightarrow> job list \<Rightarrow> inflight \<Rightarrow> jobs \<Rightarrow>
   (bool \<times> nat \<times> job list \<times> inflight \<times> jobs) option"
where
  "claim_batches cfg w env i acc fs rows =
     (case claim_once cfg w (env i) fs rows of
        (again, ds, fs', rows') \<Rightarrow>
          if \<not> again then Some (False, Suc i, acc @ ds, fs', rows')
          else if \<not> pool_wait (ce_ctx_done (env i)) (ce_draining (env i)) (qc_fetch_cooldown cfg)
               then Some (True, Suc i, acc @ ds, fs', rows')
          else (case ce_others (env i) (fs', rows') of
                  (fs'', rows'') \<Rightarrow> claim_batches cfg w env (Suc i) (acc @ ds) fs'' rows''))"

datatype wake_up = WakeDone | WakeDraining | WakePoll | WakeNotify

text \<open>
  The outer loop. A list of wake-ups that runs out leaves the loop asleep in its \<open>select\<close>; the
  first component of the result tells the two ways of ending apart.
\<close>

fun claimLoop ::
  "queue_cfg \<Rightarrow> string \<Rightarrow> (nat \<Rightarrow> claim_env) \<Rightarrow> (wake_up \<times> (inflight \<times> jobs \<Rightarrow> inflight \<times> jobs)) list \<Rightarrow>
   nat \<Rightarrow> job list \<Rightarrow> inflight \<Rightarrow> jobs \<Rightarrow> (bool \<times> job list \<times> inflight \<times> jobs) option"
where
  "claimLoop cfg w env [] i acc fs rows =
     (case claim_batches cfg w env i acc fs rows of
        None \<Rightarrow> None
      | Some (returned, i', acc', fs', rows') \<Rightarrow> Some (returned, acc', fs', rows'))"
| "claimLoop cfg w env ((wake, meanwhile) # wakes) i acc fs rows =
     (case claim_batches cfg w env i acc fs rows of
        None \<Rightarrow> None
      | Some (returned, i', acc', fs', rows') \<Rightarrow>
          if returned then Some (True, acc', fs', rows')
          else
            (case meanwhile (fs', rows') of
               (fs'', rows'') \<Rightarrow>
                 (case wake of
                    WakeDone \<Rightarrow> Some (True, acc', fs'', rows'')
                  | WakeDraining \<Rightarrow> Some (True, acc', fs'', rows'')
                  | WakePoll \<Rightarrow> claimLoop cfg w env wakes i' acc' fs'' rows''
                  | WakeNotify \<Rightarrow> claimLoop cfg w env wakes i' acc' fs'' rows'')))"

subsection \<open>Workers and the heartbeat's ticker\<close>

record run_env =
  re_ctx :: nat
  re_draw :: nat
  re_db :: db_outcome
  re_now :: time

fun work ::
  "queue_cfg \<Rightarrow> string \<Rightarrow> handlers \<Rightarrow> (job \<times> run_env) list \<Rightarrow> inflight \<Rightarrow> jobs \<Rightarrow>
   outcome list \<times> inflight \<times> jobs"
where
  "work cfg w hs [] fs rows = ([], fs, rows)"
| "work cfg w hs ((j, e) # js) fs rows =
     (case pool_run cfg w hs (re_ctx e) (re_draw e) (re_db e) (re_now e) j fs rows of
        (outc, fs', rows') \<Rightarrow>
          (case work cfg w hs js fs' rows' of (outcs, fs'', rows'') \<Rightarrow> (outc # outcs, fs'', rows'')))"

text \<open>The ticks before the context ends; the result is the contexts cancelled at each.\<close>

fun heartbeat ::
  "queue_cfg \<Rightarrow> string \<Rightarrow> (db_outcome \<times> time \<times> inflight) list \<Rightarrow> jobs \<Rightarrow> nat list \<times> jobs"
where
  "heartbeat cfg w [] rows = ([], rows)"
| "heartbeat cfg w ((db, now, fs) # ticks) rows =
     (case beat cfg w db now fs rows of
        (cancelled, rows') \<Rightarrow>
          (case heartbeat cfg w ticks rows' of (cs, rows'') \<Rightarrow> (cancelled @ cs, rows'')))"

subsection \<open>Dispatching a batch\<close>

definition track_all :: "job list \<Rightarrow> inflight \<Rightarrow> inflight" where
  "track_all js fs = fold (\<lambda>j. track (job_id j) None) js fs"

lemma dispatch_None: "dispatch None db w js fs rows = (True, js, track_all js fs, rows)"
  by (induction js arbitrary: fs) (simp_all add: track_all_def)

lemma dispatch_ok: "dispatch stop db w js fs rows = (True, ds, fs', rows') \<Longrightarrow> ds = js \<and> rows' = rows"
  by (induction stop db w js fs rows arbitrary: ds fs' rows' rule: dispatch.induct)
    (auto split: prod.splits)

lemma dispatch_interrupted:
  "n < length js \<Longrightarrow>
   dispatch (Some n) db w js fs rows =
     (False, take n js, untrack (job_id (js ! n)) (track (job_id (js ! n)) None (track_all (take n js) fs)),
      snd (Release db w [job_id (js ! n)] rows))"
proof (induction n arbitrary: js fs)
  case 0
  then show ?case by (cases js) (simp_all add: track_all_def)
next
  case (Suc n)
  then show ?case by (cases js) (simp_all add: track_all_def)
qed

subsection \<open>The inner loop ends\<close>

definition backlog :: "jobs \<Rightarrow> nat" where
  "backlog rows = sql_count (\<lambda>r. j_state r = StateAvailable) rows"

lemma sql_count_update_less:
  assumes "\<And>r. P r \<Longrightarrow> \<not> Q (f r)" and "r \<in> set rows" and "P r" and "Q r"
  shows "sql_count Q (sql_update P f rows) < sql_count Q rows"
proof -
  have le: "sql_count Q (sql_update P f xs) \<le> sql_count Q xs" for xs
    using assms(1) by (induction xs) (auto simp: sql_count_def sql_update_def)
  obtain xs ys where "rows = xs @ r # ys" using split_list [OF assms(2)] by blast
  then show ?thesis
    using le [of xs] le [of ys] assms(1) [OF assms(3)] assms(3,4) by (simp add: sql_count_def sql_update_def)
qed

lemma claim_once_more:
  assumes "claim_once cfg w e fs rows = (True, ds, fs', rows')"
  shows "\<exists>ids. ids \<noteq> [] \<and> ids = claim_ids (ce_locked e) (nat (qc_claim_batch cfg)) (ce_now e) rows \<and>
    rows' = sql_update (\<lambda>r. j_id r \<in> set ids) (claim_row w (qc_lease cfg) (ce_now e)) rows"
  using assms
  by (cases "ce_claim_db e")
    (auto simp: claim_once_def claimBatch_def Claim_def Let_def dest!: dispatch_ok
      split: if_splits prod.splits list.splits)

lemma claim_once_shrinks:
  assumes "claim_once cfg w e fs rows = (True, ds, fs', rows')"
  shows "backlog rows' < backlog rows"
proof -
  obtain ids where ids: "ids \<noteq> []" "ids = claim_ids (ce_locked e) (nat (qc_claim_batch cfg)) (ce_now e) rows"
    "rows' = sql_update (\<lambda>r. j_id r \<in> set ids) (claim_row w (qc_lease cfg) (ce_now e)) rows"
    using claim_once_more [OF assms] by blast
  then obtain i where "i \<in> set ids" using list.set_intros(1) neq_Nil_conv by metis
  then obtain r where "r \<in> set rows" "claimable (ce_now e) r" "j_id r = i"
    using ids(2) by (auto simp: claim_ids_def dest!: in_set_takeD)
  then show ?thesis
    unfolding backlog_def ids(3) using \<open>i \<in> set ids\<close>
    by (intro sql_count_update_less) (auto simp: claim_row_def claimable_def)
qed

lemma claim_batches_unfold:
  assumes "claim_once cfg w (env i) fs rows = (again, ds, fs', rows')"
    and "ce_others (env i) (fs', rows') = (fs'', rows'')"
  shows "claim_batches cfg w env i acc fs rows =
    (if \<not> again then Some (False, Suc i, acc @ ds, fs', rows')
     else if \<not> pool_wait (ce_ctx_done (env i)) (ce_draining (env i)) (qc_fetch_cooldown cfg)
          then Some (True, Suc i, acc @ ds, fs', rows')
     else claim_batches cfg w env (Suc i) (acc @ ds) fs'' rows'')"
  by (subst claim_batches.simps) (simp only: assms prod.case)

text \<open>
  The inner loop ends as soon as nobody adds to the backlog between the batches: every further batch takes
  rows out of it, whatever the database answers.
\<close>

theorem claim_batches_returns:
  assumes "\<And>k fs rows. backlog (snd (ce_others (env k) (fs, rows))) \<le> backlog rows"
  shows "\<exists>y. claim_batches cfg w env i acc fs rows = Some y"
proof (induction "backlog rows" arbitrary: i acc fs rows rule: less_induct)
  case less
  obtain again ds fs' rows' where c: "claim_once cfg w (env i) fs rows = (again, ds, fs', rows')"
    by (metis prod.exhaust)
  obtain fs'' rows'' where o: "ce_others (env i) (fs', rows') = (fs'', rows'')" by (metis prod.exhaust)
  show ?case
  proof (cases again)
    case True
    have "backlog rows'' \<le> backlog rows'" using assms [of i fs' rows'] o by simp
    also have "backlog rows' < backlog rows" using claim_once_shrinks c True by simp
    finally have "backlog rows'' < backlog rows" .
    from less [OF this, of "Suc i" "acc @ ds" fs''] obtain y
      where "claim_batches cfg w env (Suc i) (acc @ ds) fs'' rows'' = Some y" by blast
    then show ?thesis using claim_batches_unfold [of cfg w env i, OF c o, of acc] True by (metis (no_types))
  next
    case False
    then show ?thesis using claim_batches_unfold [of cfg w env i, OF c o, of acc] by (metis (no_types))
  qed
qed

subsection \<open>Nothing claimable is left behind\<close>

text \<open>
  A calm environment: the database answers, nothing is locked or stopping, and the others leave the rows
  that are available as they are. They may do whatever they like to every other row.
\<close>

definition available :: "jobs \<Rightarrow> job_row set" where
  "available rows = {r \<in> set rows. j_state r = StateAvailable}"

definition calm :: "time \<Rightarrow> claim_env \<Rightarrow> bool" where
  "calm t e \<longleftrightarrow> \<not> ce_stopped e \<and> ce_stop e = None \<and> ce_claim_db e = DbOk \<and> (\<forall>i. \<not> ce_locked e i) \<and>
     t \<le> ce_now e \<and> \<not> ce_ctx_done e \<and> \<not> ce_draining e \<and>
     (\<forall>fs rows. distinct (map j_id rows) \<longrightarrow>
        available (snd (ce_others e (fs, rows))) = available rows \<and>
        distinct (map j_id (snd (ce_others e (fs, rows)))))"

lemma claim_ids_distinct:
  assumes "distinct (map j_id rows)"
  shows "distinct (claim_ids locked b now rows)"
proof -
  let ?xs = "filter (\<lambda>r. claimable now r \<and> \<not> locked (j_id r)) rows"
  have "distinct (map j_id ?xs)" using assms by (rule distinct_map_filter)
  moreover have "mset (map j_id (sort_by claim_before ?xs)) = mset (map j_id ?xs)" by simp
  ultimately have "distinct (map j_id (sort_by claim_before ?xs))" by (metis mset_eq_imp_distinct_iff)
  then show ?thesis by (simp add: claim_ids_def flip: take_map)
qed

lemma claim_ids_rows: "i \<in> set (claim_ids locked b now rows) \<Longrightarrow> \<exists>r \<in> set rows. j_id r = i \<and> claimable now r"
  by (auto simp: claim_ids_def dest!: in_set_takeD)

lemma claim_ids_short:
  assumes "length (claim_ids (\<lambda>_. False) b now rows) < b" and "r \<in> set rows" and "claimable now r"
  shows "j_id r \<in> set (claim_ids (\<lambda>_. False) b now rows)"
  using assms by (simp add: claim_ids_def)

lemma claim_hits_length:
  assumes "distinct (map j_id rows)" and "set ids \<subseteq> j_id ` set rows" and "distinct ids"
  shows "length (filter (\<lambda>r. j_id r \<in> set ids) rows) = length ids"
proof -
  let ?hit = "filter (\<lambda>r. j_id r \<in> set ids) rows"
  have "distinct (map j_id ?hit)" using assms(1) by (rule distinct_map_filter)
  moreover have "set (map j_id ?hit) = set ids" using assms(2) by auto
  ultimately show ?thesis using assms(3) distinct_card by (metis length_map)
qed

lemma claim_once_calm:
  assumes "calm t e" and "distinct (map j_id rows)" and "0 < qc_claim_batch cfg"
    and "ids = claim_ids (ce_locked e) (nat (qc_claim_batch cfg)) (ce_now e) rows"
    and "rows1 = sql_update (\<lambda>r. j_id r \<in> set ids) (claim_row w (qc_lease cfg) (ce_now e)) rows"
  shows "claim_once cfg w e fs rows =
    (int (length ids) = qc_claim_batch cfg, map job_of (filter (\<lambda>r. j_id r \<in> set ids) rows1),
     track_all (map job_of (filter (\<lambda>r. j_id r \<in> set ids) rows1)) fs, rows1)"
proof -
  let ?hit = "filter (\<lambda>r. j_id r \<in> set ids) rows1"
  have same: "map j_id rows1 = map j_id rows" unfolding assms(5) by (simp add: sql_update_ids claim_row_def)
  have "set ids \<subseteq> j_id ` set rows" using claim_ids_rows unfolding assms(4) by blast
  then have "set ids \<subseteq> j_id ` set rows1" using same by (metis set_map)
  then have len: "length ?hit = length ids"
    using assms(2,4) same claim_ids_distinct by (intro claim_hits_length) simp_all
  have "Claim DbOk (ce_locked e) (ce_now e) w (nat (qc_claim_batch cfg)) (qc_lease cfg) rows = (Inr (map job_of ?hit), rows1)"
    by (simp add: Claim_def Let_def flip: assms(4,5))
  then show ?thesis
    using assms(1,3) len
    by (cases "map job_of ?hit") (auto simp: calm_def claim_once_def claimBatch_def dispatch_None track_all_def)
qed

text \<open>
  The whole backlog is handed out, however large it is next to a batch: every row that was due when the loop
  started is dispatched with its next attempt number.
\<close>

lemma calm_shrinks:
  assumes "calm t e" and "distinct (map j_id rows)" and "claim_once cfg w e fs rows = (True, ds, fs', rows')"
    and "ce_others e (fs', rows') = (fs'', rows'')" and "distinct (map j_id rows')"
  shows "card (available rows'') < card (available rows)"
proof -
  have "available rows'' = available rows'" using assms(1,4,5) unfolding calm_def by (metis snd_conv)
  moreover have "card (available rows) = backlog rows" if "distinct (map j_id rows)" for rows
    using that by (simp add: available_def backlog_def sql_count_def distinct_map flip: distinct_card set_filter)
  ultimately show ?thesis using claim_once_shrinks [OF assms(3)] assms(2,5) by simp
qed

definition next_job :: "job_row \<Rightarrow> job" where
  "next_job r = (job_of r)\<lparr>job_attempt := j_attempt r + 1\<rparr>"

lemma job_of_claim_row: "job_of (claim_row w lease now r) = next_job r"
  by (simp add: job_of_def claim_row_def next_job_def)

lemma calm_claim:
  assumes "calm t e" and "distinct (map j_id rows)" and "0 < qc_claim_batch cfg"
  obtains again ds fs' rows' fs'' rows'' where "claim_once cfg w e fs rows = (again, ds, fs', rows')"
    and "ce_others e (fs', rows') = (fs'', rows'')"
    and "distinct (map j_id rows')" and "distinct (map j_id rows'')"
    and "\<And>r. r \<in> set rows \<Longrightarrow> claimable t r \<Longrightarrow> next_job r \<in> set ds \<or> again \<and> r \<in> set rows''"
    and "\<And>r. \<not> again \<Longrightarrow> r \<in> set rows' \<Longrightarrow> \<not> claimable t r"
proof -
  define ids where "ids = claim_ids (ce_locked e) (nat (qc_claim_batch cfg)) (ce_now e) rows"
  define rows1 where "rows1 = sql_update (\<lambda>r. j_id r \<in> set ids) (claim_row w (qc_lease cfg) (ce_now e)) rows"
  let ?ds = "map job_of (filter (\<lambda>r. j_id r \<in> set ids) rows1)"
  obtain fs'' rows'' where others: "ce_others e (track_all ?ds fs, rows1) = (fs'', rows'')" by (metis prod.exhaust)
  have once: "claim_once cfg w e fs rows = (int (length ids) = qc_claim_batch cfg, ?ds, track_all ?ds fs, rows1)"
    by (rule claim_once_calm [OF assms ids_def rows1_def])
  have d1: "distinct (map j_id rows1)" using assms(2) unfolding rows1_def by (simp add: sql_update_ids claim_row_def)
  then have av: "available rows'' = available rows1" and d2: "distinct (map j_id rows'')"
    using assms(1) others unfolding calm_def by (metis snd_conv)+
  have unlocked: "ce_locked e = (\<lambda>_. False)" using assms(1) by (auto simp: calm_def)
  have later: "claimable (ce_now e) r" if "claimable t r" for r
    using that assms(1) by (auto simp: claimable_def calm_def)
  have full: "int (length ids) = qc_claim_batch cfg" if "r \<in> set rows" "claimable t r" "j_id r \<notin> set ids" for r
  proof -
    have "\<not> length ids < nat (qc_claim_batch cfg)"
      using that claim_ids_short later unfolding ids_def unlocked by blast
    moreover have "length ids \<le> nat (qc_claim_batch cfg)" by (simp add: ids_def claim_ids_def)
    ultimately show ?thesis using assms(3) by simp
  qed
  have taken: "next_job r \<in> set ?ds" if r: "r \<in> set rows" "j_id r \<in> set ids" for r
  proof -
    have "claim_row w (qc_lease cfg) (ce_now e) r \<in> set rows1" using r by (force simp: rows1_def set_sql_update)
    then have "claim_row w (qc_lease cfg) (ce_now e) r \<in> set (filter (\<lambda>r. j_id r \<in> set ids) rows1)"
      using r(2) by (simp add: claim_row_def)
    then show ?thesis using job_of_claim_row by (metis image_eqI list.set_map)
  qed
  have left: "r \<in> set rows''" if r: "r \<in> set rows" "claimable t r" "j_id r \<notin> set ids" for r
  proof -
    have "r \<in> set rows1" using r(1,3) by (force simp: rows1_def set_sql_update)
    then have "r \<in> available rows1" using r(2) by (simp add: available_def claimable_def)
    then show ?thesis using av by (auto simp: available_def)
  qed
  have none: "\<not> claimable t r" if "int (length ids) \<noteq> qc_claim_batch cfg" "r \<in> set rows1" for r
    using that full by (auto simp: rows1_def set_sql_update claim_row_def claimable_def split: if_splits)
  from that [OF once others d1 d2] full taken left none show thesis by blast
qed

lemma claim_batches_drains:
  assumes "\<And>k. calm t (env k)" and "0 < qc_claim_batch cfg" and "distinct (map j_id rows)"
  shows "\<exists>i' js fs' rows'. claim_batches cfg w env i acc fs rows = Some (False, i', acc @ js, fs', rows') \<and>
    distinct (map j_id rows') \<and> (\<forall>r \<in> set rows. claimable t r \<longrightarrow> next_job r \<in> set js) \<and>
    (\<forall>r \<in> set rows'. \<not> claimable t r)"
  using assms(3)
proof (induction "card (available rows)" arbitrary: i acc fs rows rule: less_induct)
  case less
  obtain again ds fs' rows' fs'' rows'' where c: "claim_once cfg w (env i) fs rows = (again, ds, fs', rows')"
    "ce_others (env i) (fs', rows') = (fs'', rows'')" "distinct (map j_id rows')" "distinct (map j_id rows'')"
    and step: "\<And>r. r \<in> set rows \<Longrightarrow> claimable t r \<Longrightarrow> next_job r \<in> set ds \<or> again \<and> r \<in> set rows''"
    and stop: "\<And>r. \<not> again \<Longrightarrow> r \<in> set rows' \<Longrightarrow> \<not> claimable t r"
    using calm_claim [OF assms(1) [of i] less.prems assms(2), of w fs] by blast
  note unfold = claim_batches_unfold [of cfg w env i, OF c(1,2), of acc]
  show ?case
  proof (cases again)
    case True
    have "pool_wait (ce_ctx_done (env i)) (ce_draining (env i)) (qc_fetch_cooldown cfg)"
      using assms(1) [of i] by (simp add: calm_def pool_wait_def)
    then have rec: "claim_batches cfg w env i acc fs rows = claim_batches cfg w env (Suc i) (acc @ ds) fs'' rows''"
      using unfold True by (simp only: if_True if_False not_True_eq_False)
    have "card (available rows'') < card (available rows)"
      using calm_shrinks [OF assms(1) less.prems _ c(2,3)] c(1) True by simp
    from less.hyps [OF this c(4), of "Suc i" "acc @ ds" fs''] obtain i' js fs3 rows3 where
      "claim_batches cfg w env (Suc i) (acc @ ds) fs'' rows'' = Some (False, i', (acc @ ds) @ js, fs3, rows3)"
      "distinct (map j_id rows3)" "\<forall>r \<in> set rows''. claimable t r \<longrightarrow> next_job r \<in> set js"
      "\<forall>r \<in> set rows3. \<not> claimable t r" by blast
    then show ?thesis
      unfolding rec using step by (intro exI [of _ i'] exI [of _ "ds @ js"] exI [of _ fs3] exI [of _ rows3]) auto
  next
    case False
    then show ?thesis using unfold c(3) step stop by (metis (no_types, lifting))
  qed
qed

text \<open>
  C18: No job waits for a notification that was lost: after one wake-up by the poll ticker (or by a notification),
  the claim loop has handed to the workers every job that is due, with its next attempt number, however large the
  backlog is next to a batch and whatever happened while the loop slept, and goes back to sleep with nothing due
  left in the table. The database answers and no row is locked by others meanwhile.
\<close>
theorem poll_picks_up:
  assumes "\<And>k. calm t (env k)" and "0 < qc_claim_batch cfg" and "distinct (map j_id rows)"
    and "wake = WakePoll \<or> wake = WakeNotify"
    and "\<And>fs rows. distinct (map j_id rows) \<Longrightarrow> distinct (map j_id (snd (meanwhile (fs, rows))))"
  shows "\<exists>i1 js1 fs1 rows1 js2 fs2 rows2.
    claim_batches cfg w env i acc fs rows = Some (False, i1, acc @ js1, fs1, rows1) \<and>
    claimLoop cfg w env [(wake, meanwhile)] i acc fs rows = Some (False, acc @ js1 @ js2, fs2, rows2) \<and>
    (\<forall>r \<in> set (snd (meanwhile (fs1, rows1))). claimable t r \<longrightarrow> next_job r \<in> set js2) \<and>
    (\<forall>r \<in> set rows2. \<not> claimable t r)"
proof -
  obtain i1 js1 fs1 rows1 where first:
    "claim_batches cfg w env i acc fs rows = Some (False, i1, acc @ js1, fs1, rows1)" "distinct (map j_id rows1)"
    using claim_batches_drains [of t env cfg rows w i acc fs] assms(1-3) by blast
  obtain fs1' rows1' where slept: "meanwhile (fs1, rows1) = (fs1', rows1')" by (metis prod.exhaust)
  then have "distinct (map j_id rows1')" using assms(5) [OF first(2), of fs1] by simp
  then obtain i2 js2 fs2 rows2 where second:
    "claim_batches cfg w env i1 (acc @ js1) fs1' rows1' = Some (False, i2, (acc @ js1) @ js2, fs2, rows2)"
    "\<forall>r \<in> set rows1'. claimable t r \<longrightarrow> next_job r \<in> set js2" "\<forall>r \<in> set rows2. \<not> claimable t r"
    using claim_batches_drains [of t env cfg rows1' w i1 "acc @ js1" fs1'] assms(1,2) by blast
  have "claimLoop cfg w env [(wake, meanwhile)] i acc fs rows = Some (False, acc @ js1 @ js2, fs2, rows2)"
    using assms(4) by (auto simp: first(1) slept second(1))
  then show ?thesis using first(1) slept second(2,3) by auto
qed

text \<open>A table the producer fills while the loop sleeps, one job more than a batch takes.\<close>

definition demo_env :: "nat \<Rightarrow> claim_env" where
  "demo_env k = \<lparr>ce_stopped = False, ce_stop = None, ce_claim_db = DbOk, ce_release_db = DbOk,
     ce_locked = (\<lambda>_. False), ce_now = int k, ce_ctx_done = False, ce_draining = False, ce_others = id\<rparr>"

definition demo_cfg :: queue_cfg where
  "demo_cfg = queue_defaults\<lparr>qc_claim_batch := 1\<rparr>"

definition demo_backlog :: jobs where
  "demo_backlog = map (\<lambda>i. new_row i 0 ''webhook.deliver'' ''{}'' [] 5) [1, 2]"

theorem poll_picks_up_witness:
  "\<exists>js fs' rows'. claimLoop demo_cfg ''w1'' demo_env [(WakePoll, \<lambda>_. ([], demo_backlog))] 0 [] [] [] =
     Some (False, js, fs', rows') \<and> (\<forall>r \<in> set demo_backlog. next_job r \<in> set js)"
proof -
  have calm: "calm 0 (demo_env k)" for k by (simp add: calm_def demo_env_def)
  have "distinct (map j_id demo_backlog)" "0 < qc_claim_batch demo_cfg"
    by (simp_all add: demo_backlog_def new_row_def demo_cfg_def queue_defaults_def)
  note picked = poll_picks_up [of 0 demo_env demo_cfg "[]" WakePoll "\<lambda>_. ([], demo_backlog)" "''w1''" 0 "[]" "[]"]
  have "\<exists>js fs' rows'. claimLoop demo_cfg ''w1'' demo_env [(WakePoll, \<lambda>_. ([], demo_backlog))] 0 [] [] [] =
      Some (False, js, fs', rows') \<and> (\<forall>r \<in> set demo_backlog. claimable 0 r \<longrightarrow> next_job r \<in> set js)"
    using picked \<open>distinct _\<close> \<open>0 < _\<close> calm by force
  moreover have "\<forall>r \<in> set demo_backlog. claimable 0 r"
    by (simp add: demo_backlog_def new_row_def claimable_def)
  ultimately show ?thesis by blast
qed

subsection \<open>A batch interrupted by a shutdown\<close>

lemma keys_track: "fst ` set (track i c fs) = insert i (fst ` set fs)"
  by (auto simp: track_def dom_update)

lemma keys_untrack: "fst ` set (untrack i fs) = fst ` set fs - {i}"
  unfolding untrack_def set_map [symmetric] delete_keys by auto

lemma track_all_untracked:
  "k \<notin> fst ` set fs \<Longrightarrow> k \<notin> job_id ` set js \<Longrightarrow> k \<notin> fst ` set (track_all js fs)"
  by (induction js arbitrary: fs) (auto simp: track_all_def keys_track)

text \<open>
  The job whose hand-off the shutdown interrupts is given back. The jobs of the batch behind it are not: they stay
  leased to this worker although it neither runs nor tracks them, until their lease expires.
\<close>

theorem interrupted_batch_strands:
  assumes "n < m" and "m < length js" and "distinct (map job_id js)" and "job_id (js ! m) \<notin> fst ` set fs"
    and "r \<in> set rows" and "claimGuard w (js ! m) r"
    and "dispatch (Some n) db w js fs rows = (again, ds, fs', rows')"
  shows "\<not> again \<and> js ! m \<notin> set ds \<and> job_id (js ! m) \<notin> fst ` set fs' \<and> r \<in> set rows'"
proof -
  have ne: "job_id (js ! k) \<noteq> job_id (js ! m)" if "k < m" for k
    using that assms(2,3) nth_eq_iff_index_eq [of "map job_id js" k m] by simp
  then have early: "job_id j \<noteq> job_id (js ! m)" if "j \<in> set (take n js)" for j
    using that assms(1,2) by (auto simp: in_set_conv_nth)
  have "job_id (js ! n) \<noteq> job_id (js ! m)" using ne assms(1) by simp
  moreover have "again = False" "ds = take n js"
    "fs' = untrack (job_id (js ! n)) (track (job_id (js ! n)) None (track_all (take n js) fs))"
    "rows' = snd (Release db w [job_id (js ! n)] rows)"
    using dispatch_interrupted [of n js db w fs rows] assms(1,2,7) by auto
  moreover have "job_id (js ! m) \<notin> fst ` set (track_all (take n js) fs)"
    using assms(4) early by (intro track_all_untracked) fastforce+
  moreover have "r \<in> set (snd (Release db w [job_id (js ! n)] rows))"
    using assms(5,6) ne [OF assms(1)]
    by (cases db) (force simp: Release_def set_sql_update held_by_def claimGuard_def)+
  ultimately show ?thesis using early by (auto simp: keys_track keys_untrack)
qed

subsection \<open>A worker forgets what it ran\<close>

lemma pool_run_untracks:
  "pool_run cfg w hs ctx k db now j fs rows = (outc, fs', rows') \<Longrightarrow> fst ` set fs' = fst ` set fs - {job_id j}"
  using keys_track [of "job_id j" "Some ctx" fs] keys_untrack [of "job_id j" "track (job_id j) (Some ctx) fs"]
  by (simp add: pool_run_def Let_def split: prod.splits)

theorem work_untracks:
  "work cfg w hs js fs rows = (outcs, fs', rows') \<Longrightarrow>
   length outcs = length js \<and> fst ` set fs' = fst ` set fs - (job_id \<circ> fst) ` set js"
proof (induction cfg w hs js fs rows arbitrary: outcs fs' rows' rule: work.induct)
  case (2 cfg w hs j e js fs rows)
  obtain outc fs1 rows1 where run: "pool_run cfg w hs (re_ctx e) (re_draw e) (re_db e) (re_now e) j fs rows = (outc, fs1, rows1)"
    by (metis prod.exhaust)
  obtain outcs2 fs2 rows2 where rest: "work cfg w hs js fs1 rows1 = (outcs2, fs2, rows2)" by (metis prod.exhaust)
  from "2.IH" [OF run [symmetric] refl rest] pool_run_untracks [OF run] "2.prems" run rest show ?case by auto
qed simp

end
