(* ===== verification/Base64.thy ===== *)
theory Base64
  imports Prelude
begin

text \<open>
  \<open>encoding/base64\<close>'s \<open>RawURLEncoding\<close>, which page tokens are written in: the URL-safe
  alphabet, no padding. The decoder skips carriage returns and line feeds, refuses any other
  byte outside the alphabet and a last group of one character, and ignores the spare low bits
  of a short last group, as the standard library's does when it is not \<open>Strict\<close>.
  The theory's result is that decoding inverts encoding on every byte string.
\<close>

definition b64_alphabet :: string where
  "b64_alphabet = ''ABCDEFGHIJKLMNOPQRSTUVWXYZabcdefghijklmnopqrstuvwxyz0123456789-_''"

definition b64_enc6 :: "nat \<Rightarrow> char" where
  "b64_enc6 n = b64_alphabet ! n"

definition b64_dec6 :: "char \<Rightarrow> nat option" where
  "b64_dec6 c = find (\<lambda>n. b64_alphabet ! n = c) [0..<64]"

fun b64_bytes :: "nat list \<Rightarrow> nat list" where
  "b64_bytes [] = []"
| "b64_bytes [a] = [a div 4, (a mod 4) * 16]"
| "b64_bytes [a, b] = [a div 4, (a mod 4) * 16 + b div 16, (b mod 16) * 4]"
| "b64_bytes (a # b # c # r) =
     [a div 4, (a mod 4) * 16 + b div 16, (b mod 16) * 4 + c div 64, c mod 64] @ b64_bytes r"

definition b64_encode :: "string \<Rightarrow> string" where
  "b64_encode s = map b64_enc6 (b64_bytes (map of_char s))"

fun b64_sextets :: "nat list \<Rightarrow> nat list option" where
  "b64_sextets [] = Some []"
| "b64_sextets [w] = None"
| "b64_sextets [w, x] = Some [w * 4 + x div 16]"
| "b64_sextets [w, x, y] = Some [w * 4 + x div 16, (x mod 16) * 16 + y div 4]"
| "b64_sextets (w # x # y # z # r) =
     map_option (\<lambda>bs. [w * 4 + x div 16, (x mod 16) * 16 + y div 4, (y mod 4) * 64 + z] @ bs)
       (b64_sextets r)"

definition b64_decode :: "string \<Rightarrow> string option" where
  "b64_decode s =
     (let ds = map b64_dec6 (filter (\<lambda>c. c \<noteq> CHR 0x0A \<and> c \<noteq> CHR 0x0D) s) in
      if None \<in> set ds then None
      else map_option (map char_of) (b64_sextets (map the ds)))"

lemma b64_dec6_enc6 [simp]: "n < 64 \<Longrightarrow> b64_dec6 (b64_enc6 n) = Some n"
proof -
  assume "n < 64"
  have "list_all (\<lambda>n. b64_dec6 (b64_enc6 n) = Some n) [0..<64]" by code_simp
  with \<open>n < 64\<close> show ?thesis by (simp add: list_all_iff)
qed

lemma b64_enc6_not_newline [simp]: "n < 64 \<Longrightarrow> b64_enc6 n \<noteq> CHR 0x0A \<and> b64_enc6 n \<noteq> CHR 0x0D"
proof -
  assume "n < 64"
  have "list_all (\<lambda>n. b64_enc6 n \<noteq> CHR 0x0A \<and> b64_enc6 n \<noteq> CHR 0x0D) [0..<64]" by code_simp
  with \<open>n < 64\<close> show ?thesis by (simp add: list_all_iff)
qed

text \<open>The arithmetic of one group: a sextet is below 64, and the sextets give the bytes back.\<close>

lemma sextet_bounds:
  assumes "a < (256 :: nat)" and "b < 256" and "c < 256"
  shows "a div 4 < 64" and "(a mod 4) * 16 < 64" and "(a mod 4) * 16 + b div 16 < 64"
    and "(b mod 16) * 4 < 64" and "(b mod 16) * 4 + c div 64 < 64" and "c mod 64 < 64"
proof -
  have d: "a div 4 < 64" "b div 16 < 16" "c div 64 < 4" using assms by auto
  have m: "a mod 4 < 4" "b mod 16 < 16" "c mod 64 < 64" by simp_all
  show "a div 4 < 64" and "(a mod 4) * 16 < 64" and "(a mod 4) * 16 + b div 16 < 64"
    and "(b mod 16) * 4 < 64" and "(b mod 16) * 4 + c div 64 < 64" and "c mod 64 < 64"
    using d m by linarith+
qed

lemma split_high: "y < k \<Longrightarrow> (x * k + y) div k = (x :: nat)"
  by simp

lemma split_low: "y < k \<Longrightarrow> (x * k + y) mod k = (y :: nat)"
  by simp

lemma sextet_bytes:
  assumes "a < (256 :: nat)" and "b < 256" and "c < 256"
  shows "(a div 4) * 4 + ((a mod 4) * 16 + b div 16) div 16 = a"
    and "(((a mod 4) * 16 + b div 16) mod 16) * 16 + ((b mod 16) * 4 + c div 64) div 4 = b"
    and "(((b mod 16) * 4 + c div 64) mod 4) * 64 + c mod 64 = c"
proof -
  have d: "b div 16 < 16" "c div 64 < 4" using assms by auto
  show "(a div 4) * 4 + ((a mod 4) * 16 + b div 16) div 16 = a"
    using d by (simp only: split_high) (simp add: div_mult_mod_eq)
  show "(((a mod 4) * 16 + b div 16) mod 16) * 16 + ((b mod 16) * 4 + c div 64) div 4 = b"
    using d by (simp only: split_high split_low) (simp add: div_mult_mod_eq)
  show "(((b mod 16) * 4 + c div 64) mod 4) * 64 + c mod 64 = c"
    using d by (simp only: split_low) (simp add: div_mult_mod_eq)
qed

lemma b64_bytes_bound: "\<forall>b \<in> set bs. b < 256 \<Longrightarrow> \<forall>x \<in> set (b64_bytes bs). x < 64"
proof (induction bs rule: b64_bytes.induct)
  case (2 a)
  then show ?case using sextet_bounds [of a 0 0] by simp
next
  case (3 a b)
  then show ?case using sextet_bounds [of a b 0] by simp
next
  case (4 a b c r)
  then show ?case using sextet_bounds [of a b c] by simp
qed simp

lemma b64_sextets_bytes: "\<forall>b \<in> set bs. b < 256 \<Longrightarrow> b64_sextets (b64_bytes bs) = Some bs"
proof (induction bs rule: b64_bytes.induct)
  case (2 a)
  then show ?case using sextet_bytes [of a 0 0] by simp
next
  case (3 a b)
  then show ?case using sextet_bytes [of a b 0] by simp
next
  case (4 a b c r)
  then show ?case using sextet_bytes [of a b c] by (simp del: div_mult_mod_eq)
qed simp

lemma of_char_256: "\<forall>b \<in> set (map of_char (s :: string)). b < (256 :: nat)"
proof (rule ballI)
  fix b :: nat
  assume "b \<in> set (map of_char s)"
  then obtain c :: char where "b = of_char c" by auto
  then show "b < 256" by (cases c) (simp add: of_char_def)
qed

theorem b64_decode_encode: "b64_decode (b64_encode s) = Some s"
proof -
  let ?ns = "b64_bytes (map of_char s)"
  have small: "\<And>n. n \<in> set ?ns \<Longrightarrow> n < 64" using b64_bytes_bound [OF of_char_256] by blast
  then have keep: "filter (\<lambda>c. c \<noteq> CHR 0x0A \<and> c \<noteq> CHR 0x0D) (map b64_enc6 ?ns) = map b64_enc6 ?ns"
    by (auto simp: filter_id_conv)
  have dec: "map b64_dec6 (map b64_enc6 ?ns) = map Some ?ns"
    using small by (simp add: comp_def)
  show ?thesis
    unfolding b64_decode_def b64_encode_def Let_def keep dec
    using b64_sextets_bytes [OF of_char_256] by (auto simp: comp_def)
qed

lemma b64_encode_not_Nil: "s \<noteq> [] \<Longrightarrow> b64_encode s \<noteq> []"
  using b64_decode_encode [of s] by (auto simp: b64_decode_def)

end
