(* ===== verification/Task_Domain.thy ===== *)
theory Task_Domain
  imports Apperr Base64
begin

text \<open>
  The domain types and rules of \<open>internal/task\<close>: \<open>task.go\<close> (statuses, tasks, the name and
  status rules, the sentinel errors) and \<open>repository.go\<close> (list queries, pages, cursors and
  their tokens, the list ordering, the page-size policy).

  Two things the code calls are not under \<open>src/\<close> or are far larger than their use here:
  \<open>google/uuid\<close>'s rendering and parsing, and \<open>time\<close>'s RFC 3339 rendering and parsing. They
  are the fields of \<open>go_lib\<close>, an argument of the definitions that call them, and the laws
  the code relies on are the predicates \<open>uuid_laws\<close> and \<open>time_laws\<close>.
\<close>

record go_lib =
  uuid_string :: "uuid \<Rightarrow> string"
  uuid_parse :: "string \<Rightarrow> uuid option"
  time_format :: "time \<Rightarrow> string"
  time_parse :: "string \<Rightarrow> time option"

text \<open>
  A UUID prints as hexadecimal digits and hyphens, in a fixed layout with the most significant
  digits first, so that the texts are ordered like the values; it parses back to itself. An
  instant of
  the years 1 to 9999 prints in the RFC 3339 layout, without the bar that separates the two
  parts of a cursor, and parses back to itself.
\<close>

definition uuid_laws :: "go_lib \<Rightarrow> bool" where
  "uuid_laws lib \<longleftrightarrow>
     (\<forall>u. uuid_parse lib (uuid_string lib u) = Some u) \<and>
     (\<forall>u. set (uuid_string lib u) \<subseteq> set ''0123456789abcdef-'') \<and>
     (\<forall>u v. uuid_string lib u < uuid_string lib v \<longleftrightarrow> u < v)"

definition rfc3339_range :: "time \<Rightarrow> bool" where
  "rfc3339_range t \<longleftrightarrow> 0 \<le> t \<and> t < 3652059 * 24 * hour"

definition time_laws :: "go_lib \<Rightarrow> bool" where
  "time_laws lib \<longleftrightarrow>
     (\<forall>t. rfc3339_range t \<longrightarrow> time_parse lib (time_format lib t) = Some t) \<and>
     (\<forall>t. rfc3339_range t \<longrightarrow> CHR ''|'' \<notin> set (time_format lib t))"

subsection \<open>Tasks and their rules (task.go)\<close>

abbreviation StatusIncomplete :: int32 where "StatusIncomplete \<equiv> 0"
abbreviation StatusCompleted :: int32 where "StatusCompleted \<equiv> 1"

definition status_valid :: "int32 \<Rightarrow> bool" where
  "status_valid s \<longleftrightarrow> s = StatusIncomplete \<or> s = StatusCompleted"

definition status_string :: "int32 \<Rightarrow> string" where
  "status_string s =
     (if s = StatusIncomplete then ''incomplete''
      else if s = StatusCompleted then ''completed''
      else ''Status('' @ itoa (sint s) @ '')'')"

abbreviation MaxNameLength :: nat where "MaxNameLength \<equiv> 255"

record task =
  t_id :: uuid
  t_name :: string
  t_status :: int32
  t_created :: time
  t_updated :: time
  t_version :: int64

abbreviation uuid_Nil :: uuid where "uuid_Nil \<equiv> 0"

definition ErrNotFound :: go_error where
  "ErrNotFound = New NotFound ''task not found''"

definition ErrInvalidArgument :: go_error where
  "ErrInvalidArgument = New Invalid ''invalid argument''"

definition ErrConflict :: go_error where
  "ErrConflict = New Conflict ''the task was modified by someone else''"

definition invalid :: "string \<Rightarrow> string \<Rightarrow> go_error" where
  "invalid field m = Field field m"

definition ValidateName :: "string \<Rightarrow> go_error option" where
  "ValidateName nm =
     (let trimmed = trim_space nm in
      if trimmed = [] then Some (invalid ''name'' ''must not be empty'')
      else if length nm > MaxNameLength then
        Some (invalid ''name''
          (''must be at most '' @ dec MaxNameLength @ '' characters, got '' @ dec (length nm)))
      else None)"

definition ValidateStatus :: "int32 \<Rightarrow> go_error option" where
  "ValidateStatus s =
     (if \<not> status_valid s then
        Some (invalid ''status'' (''must be 0 (incomplete) or 1 (completed), got '' @ itoa (sint s)))
      else None)"

subsection \<open>Cursors and pages (repository.go)\<close>

abbreviation DefaultPageSize :: int where "DefaultPageSize \<equiv> 20"
abbreviation MaxPageSize :: int where "MaxPageSize \<equiv> 100"

record cursor =
  c_created :: time
  c_id :: uuid

record list_query =
  q_status :: "int32 option"
  q_limit :: int
  q_cursor :: cursor

record page =
  p_tasks :: "task list"
  p_next :: cursor

definition zero_cursor :: cursor where
  "zero_cursor = \<lparr>c_created = 0, c_id = uuid_Nil\<rparr>"

definition cursor_is_zero :: "cursor \<Rightarrow> bool" where
  "cursor_is_zero c \<longleftrightarrow> c_created c = 0 \<and> c_id c = uuid_Nil"

definition cursor_encode :: "go_lib \<Rightarrow> cursor \<Rightarrow> string" where
  "cursor_encode lib c =
     (if cursor_is_zero c then []
      else b64_encode (time_format lib (c_created c) @ ''|'' @ uuid_string lib (c_id c)))"

definition page_token_error :: go_error where
  "page_token_error = invalid ''page_token'' ''is not a valid page token''"

definition DecodeCursor :: "go_lib \<Rightarrow> string \<Rightarrow> cursor result" where
  "DecodeCursor lib token =
     (if token = [] then Inr zero_cursor
      else
        (case b64_decode token of
           None \<Rightarrow> Inl page_token_error
         | Some raw \<Rightarrow>
             (case cut (CHR ''|'') raw of
                (at, i, ok) \<Rightarrow>
                  if \<not> ok then Inl page_token_error
                  else
                    (case time_parse lib at of
                       None \<Rightarrow> Inl page_token_error
                     | Some ts \<Rightarrow>
                         (case uuid_parse lib i of
                            None \<Rightarrow> Inl page_token_error
                          | Some u \<Rightarrow> Inr \<lparr>c_created = ts, c_id = u\<rparr>)))))"

definition cursor_after :: "go_lib \<Rightarrow> cursor \<Rightarrow> task \<Rightarrow> bool" where
  "cursor_after lib c t =
     (if cursor_is_zero c then True
      else if t_created t > c_created c then False
      else if t_created t < c_created c then True
      else uuid_string lib (t_id t) < uuid_string lib (c_id c))"

definition CursorOf :: "task \<Rightarrow> cursor" where
  "CursorOf t = \<lparr>c_created = t_created t, c_id = t_id t\<rparr>"

definition Less :: "go_lib \<Rightarrow> task \<Rightarrow> task \<Rightarrow> bool" where
  "Less lib a b =
     (if t_created a \<noteq> t_created b then t_created a > t_created b
      else uuid_string lib (t_id a) > uuid_string lib (t_id b))"

definition clampLimit :: "int \<Rightarrow> int result" where
  "clampLimit n =
     (if n < 0 then Inl (invalid ''page_size'' (''must not be negative, got '' @ itoa n))
      else if n = 0 then Inr DefaultPageSize
      else if n > MaxPageSize then
        Inl (invalid ''page_size'' (''must be at most '' @ itoa MaxPageSize @ '', got '' @ itoa n))
      else Inr n)"

subsection \<open>The rules\<close>

definition name_ok :: "string \<Rightarrow> bool" where
  "name_ok nm \<longleftrightarrow> trim_space nm \<noteq> [] \<and> length nm \<le> MaxNameLength"

lemma ValidateName_None: "ValidateName nm = None \<longleftrightarrow> name_ok nm"
  by (auto simp: ValidateName_def name_ok_def Let_def)

lemma ValidateStatus_None: "ValidateStatus s = None \<longleftrightarrow> status_valid s"
  by (simp add: ValidateStatus_def)

lemma ValidateName_kind: "ValidateName nm = Some e \<Longrightarrow> KindOf (Some e) = Invalid \<and> FieldOf e = ''name''"
  by (auto simp: ValidateName_def Let_def invalid_def Field_def FieldOf_def split: if_splits)

lemma ValidateStatus_kind:
  "ValidateStatus s = Some e \<Longrightarrow> KindOf (Some e) = Invalid \<and> FieldOf e = ''status''"
  by (auto simp: ValidateStatus_def invalid_def Field_def FieldOf_def split: if_splits)

lemma name_ok_not_Nil: "name_ok nm \<Longrightarrow> nm \<noteq> []"
  by (auto simp: name_ok_def trim_space_def trim_left.simps [of "[]"] trim_right.simps [of "[]"])

lemma clampLimit_range: "clampLimit n = Inr l \<Longrightarrow> 1 \<le> l \<and> l \<le> MaxPageSize"
  by (auto simp: clampLimit_def split: if_splits)

lemma clampLimit_accepts: "0 \<le> n \<Longrightarrow> n \<le> MaxPageSize \<Longrightarrow> \<exists>l. clampLimit n = Inr l"
  by (simp add: clampLimit_def)

lemma sentinel_kinds [simp]:
  "KindOf (Some ErrNotFound) = NotFound" "KindOf (Some ErrConflict) = Conflict"
  "KindOf (Some ErrInvalidArgument) = Invalid" "KindOf (Some (invalid f m)) = Invalid"
  by (simp_all add: ErrNotFound_def ErrConflict_def ErrInvalidArgument_def New_def invalid_def Field_def)

subsection \<open>The list ordering\<close>

abbreviation task_key :: "go_lib \<Rightarrow> task \<Rightarrow> time \<times> string" where
  "task_key lib t \<equiv> (t_created t, uuid_string lib (t_id t))"

interpretation newest_first: sort_order "Less lib" "task_key lib" for lib
proof
  show "\<not> Less lib a a" for a by (simp add: Less_def)
  show "Less lib a b \<Longrightarrow> Less lib b c \<Longrightarrow> Less lib a c" for a b c
    by (auto simp: Less_def split: if_splits)
  show "task_key lib a \<noteq> task_key lib b \<Longrightarrow> Less lib a b \<or> Less lib b a" for a b
    by (auto simp: Less_def)
qed

lemma uuid_string_inject: "uuid_laws lib \<Longrightarrow> uuid_string lib a = uuid_string lib b \<longleftrightarrow> a = b"
  by (metis option.inject uuid_laws_def)

text \<open>\<open>After\<close> is the list ordering, seen from the cursor's task.\<close>

lemma cursor_after_Less:
  "\<not> cursor_is_zero (CursorOf t) \<Longrightarrow> cursor_after lib (CursorOf t) u = Less lib t u"
  by (auto simp: cursor_after_def CursorOf_def Less_def)

lemma cursor_after_zero [simp]: "cursor_after lib zero_cursor t"
  by (simp add: cursor_after_def zero_cursor_def cursor_is_zero_def)

lemma cursor_is_zero_zero [simp]: "cursor_is_zero zero_cursor"
  by (simp add: cursor_is_zero_def zero_cursor_def)

lemma cursor_is_zero_iff: "cursor_is_zero c \<longleftrightarrow> c = zero_cursor"
  by (cases c) (auto simp: cursor_is_zero_def zero_cursor_def)

subsection \<open>Page tokens\<close>

lemma DecodeCursor_encode:
  assumes "uuid_laws lib" and "time_laws lib" and "rfc3339_range (c_created c)"
  shows "DecodeCursor lib (cursor_encode lib c) = Inr c"
proof (cases "cursor_is_zero c")
  case True
  then show ?thesis by (simp add: cursor_encode_def DecodeCursor_def cursor_is_zero_iff)
next
  case False
  let ?at = "time_format lib (c_created c)" and ?i = "uuid_string lib (c_id c)"
  have ne: "b64_encode (?at @ ''|'' @ ?i) \<noteq> []" by (rule b64_encode_not_Nil) simp
  have cut: "cut (CHR ''|'') (?at @ ''|'' @ ?i) = (?at, ?i, True)"
    using assms by (simp add: cut_at time_laws_def)
  have "time_parse lib ?at = Some (c_created c)" using assms by (simp add: time_laws_def)
  moreover have "uuid_parse lib ?i = Some (c_id c)" using assms by (simp add: uuid_laws_def)
  ultimately show ?thesis
    using False ne cut by (simp add: cursor_encode_def DecodeCursor_def b64_decode_encode)
qed

lemma DecodeCursor_error: "DecodeCursor lib token = Inl e \<Longrightarrow> e = page_token_error"
  by (auto simp: DecodeCursor_def split: if_splits option.splits prod.splits)

end
