(* ===== verification/Task_Service.thy ===== *)
theory Task_Service
  imports Task_Domain
begin

text \<open>
  The domain service of \<open>internal/task/service.go\<close> over the storage port of
  \<open>repository.go\<close>.

  The Go interface \<open>Repository\<close> is the record \<open>repository\<close> of state-passing operations;
  its first argument \<open>'c\<close> is the call's context together with whatever the storage may do
  wrong during the call. What a backend promises is the locale \<open>task_repository\<close>: its
  contents are a finite map from identifiers to tasks, and every operation is described by
  what it does to that map. The service's own lemmas are proved there once, for both backends.
\<close>

subsection \<open>The storage port (repository.go)\<close>

record ('c, 's) repository =
  r_Create :: "'c \<Rightarrow> task \<Rightarrow> 's \<Rightarrow> task result \<times> 's"
  r_Get :: "'c \<Rightarrow> uuid \<Rightarrow> 's \<Rightarrow> task result"
  r_Update :: "'c \<Rightarrow> task \<Rightarrow> int64 \<Rightarrow> 's \<Rightarrow> task result \<times> 's"
  r_Delete :: "'c \<Rightarrow> uuid \<Rightarrow> 's \<Rightarrow> go_error option \<times> 's"
  r_List :: "'c \<Rightarrow> list_query \<Rightarrow> 's \<Rightarrow> page result"

subsection \<open>The service (service.go)\<close>

text \<open>
  The clock and the identifier source are read at most once per call, so the values they give
  are arguments: \<open>now\<close> and \<open>newID\<close>.
\<close>

record create_input =
  ci_name :: string
  ci_status :: int32

record update_input =
  ui_id :: uuid
  ui_name :: string
  ui_status :: int32
  ui_expected :: int64

record list_input =
  li_status :: "int32 option"
  li_size :: int
  li_token :: string

definition service_Create ::
  "('c, 's) repository \<Rightarrow> 'c \<Rightarrow> time \<Rightarrow> uuid \<Rightarrow> create_input \<Rightarrow> 's \<Rightarrow> task result \<times> 's" where
  "service_Create repo c now newID inp s =
     (case ValidateName (ci_name inp) of
        Some e \<Rightarrow> (Inl e, s)
      | None \<Rightarrow>
          (case ValidateStatus (ci_status inp) of
             Some e \<Rightarrow> (Inl e, s)
           | None \<Rightarrow>
               (let t = \<lparr>t_id = newID, t_name = ci_name inp, t_status = ci_status inp,
                         t_created = now, t_updated = now, t_version = 1\<rparr> in
                case r_Create repo c t s of
                  (Inl e, s') \<Rightarrow> (Inl (WrapError ''create task: '' e), s')
                | (Inr u, s') \<Rightarrow> (Inr u, s'))))"

definition service_Update ::
  "('c, 's) repository \<Rightarrow> go_lib \<Rightarrow> 'c \<Rightarrow> time \<Rightarrow> update_input \<Rightarrow> 's \<Rightarrow> task result \<times> 's" where
  "service_Update repo lib c now inp s =
     (if ui_id inp = uuid_Nil then (Inl (invalid ''id'' ''must not be empty''), s)
      else
        (case ValidateName (ui_name inp) of
           Some e \<Rightarrow> (Inl e, s)
         | None \<Rightarrow>
             (case ValidateStatus (ui_status inp) of
                Some e \<Rightarrow> (Inl e, s)
              | None \<Rightarrow>
                  if ui_expected inp <s 0 then (Inl (invalid ''version'' ''must not be negative''), s)
                  else
                    (let t = \<lparr>t_id = ui_id inp, t_name = ui_name inp, t_status = ui_status inp,
                              t_created = 0, t_updated = now, t_version = 0\<rparr> in
                     case r_Update repo c t (ui_expected inp) s of
                       (Inl e, s') \<Rightarrow>
                         (Inl (WrapError (''update task '' @ uuid_string lib (ui_id inp) @ '': '') e), s')
                     | (Inr u, s') \<Rightarrow> (Inr u, s')))))"

definition service_Get ::
  "('c, 's) repository \<Rightarrow> go_lib \<Rightarrow> 'c \<Rightarrow> uuid \<Rightarrow> 's \<Rightarrow> task result" where
  "service_Get repo lib c i s =
     (if i = uuid_Nil then Inl (invalid ''id'' ''must not be empty'')
      else
        (case r_Get repo c i s of
           Inl e \<Rightarrow> Inl (WrapError (''get task '' @ uuid_string lib i @ '': '') e)
         | Inr t \<Rightarrow> Inr t))"

definition service_Delete ::
  "('c, 's) repository \<Rightarrow> go_lib \<Rightarrow> 'c \<Rightarrow> uuid \<Rightarrow> 's \<Rightarrow> go_error option \<times> 's" where
  "service_Delete repo lib c i s =
     (if i = uuid_Nil then (Some (invalid ''id'' ''must not be empty''), s)
      else
        (case r_Delete repo c i s of
           (Some e, s') \<Rightarrow> (Some (WrapError (''delete task '' @ uuid_string lib i @ '': '') e), s')
         | (None, s') \<Rightarrow> (None, s')))"

definition service_List ::
  "('c, 's) repository \<Rightarrow> go_lib \<Rightarrow> 'c \<Rightarrow> list_input \<Rightarrow> 's \<Rightarrow> page result" where
  "service_List repo lib c inp s =
     (case Option.bind (li_status inp) ValidateStatus of
        Some e \<Rightarrow> Inl e
      | None \<Rightarrow>
          (case clampLimit (li_size inp) of
             Inl e \<Rightarrow> Inl e
           | Inr limit \<Rightarrow>
               (case DecodeCursor lib (li_token inp) of
                  Inl e \<Rightarrow> Inl e
                | Inr cur \<Rightarrow>
                    (case r_List repo c \<lparr>q_status = li_status inp, q_limit = limit, q_cursor = cur\<rparr> s of
                       Inl e \<Rightarrow> Inl (WrapError ''list tasks: '' e)
                     | Inr p \<Rightarrow> Inr p))))"

subsection \<open>What a page is\<close>

text \<open>
  The specification of a page, over the list of all matching tasks in the list ordering: the
  first \<open>n\<close> of them, and the position of the last one when there are more.
\<close>

definition status_matches :: "int32 option \<Rightarrow> task \<Rightarrow> bool" where
  "status_matches st t = (case st of None \<Rightarrow> True | Some s \<Rightarrow> t_status t = s)"

definition selects :: "go_lib \<Rightarrow> list_query \<Rightarrow> task \<Rightarrow> bool" where
  "selects lib q t \<longleftrightarrow> status_matches (q_status q) t \<and> cursor_after lib (q_cursor q) t"

definition page_of :: "nat \<Rightarrow> task list \<Rightarrow> page" where
  "page_of n ts =
     \<lparr>p_tasks = take n ts,
      p_next = (if length ts \<le> n then zero_cursor else CursorOf (ts ! (n - 1)))\<rparr>"

text \<open>
  A client that follows page tokens: it asks for a page, then for the page its token names,
  until a page has no token. The first argument bounds the number of requests.
\<close>

fun follow ::
  "nat \<Rightarrow> ('c, 's) repository \<Rightarrow> go_lib \<Rightarrow> 'c \<Rightarrow> int32 option \<Rightarrow> int \<Rightarrow> string \<Rightarrow> 's \<Rightarrow> task list result option"
where
  "follow 0 repo lib c st psize token s = None"
| "follow (Suc n) repo lib c st psize token s =
     (case service_List repo lib c \<lparr>li_status = st, li_size = psize, li_token = token\<rparr> s of
        Inl e \<Rightarrow> Some (Inl e)
      | Inr p \<Rightarrow>
          if cursor_encode lib (p_next p) = [] then Some (Inr (p_tasks p))
          else
            (case follow n repo lib c st psize (cursor_encode lib (p_next p)) s of
               Some (Inr ts) \<Rightarrow> Some (Inr (p_tasks p @ ts))
             | r \<Rightarrow> r))"

subsection \<open>Facts about validation\<close>

lemma Validate_bind_None:
  "Option.bind st ValidateStatus = None \<longleftrightarrow> (\<forall>s. st = Some s \<longrightarrow> status_valid s)"
  by (cases st) (auto simp: ValidateStatus_None)

lemma service_Create_valid:
  assumes "name_ok (ci_name inp)" and "status_valid (ci_status inp)"
  shows "service_Create repo c now newID inp s =
     (case r_Create repo c \<lparr>t_id = newID, t_name = ci_name inp, t_status = ci_status inp,
         t_created = now, t_updated = now, t_version = 1\<rparr> s of
        (Inl e, s') \<Rightarrow> (Inl (WrapError ''create task: '' e), s')
      | (Inr u, s') \<Rightarrow> (Inr u, s'))"
  using assms by (simp add: service_Create_def ValidateName_None [THEN iffD2] ValidateStatus_None [THEN iffD2] Let_def)

lemma service_Create_invalid:
  assumes "\<not> (name_ok (ci_name inp) \<and> status_valid (ci_status inp))"
  shows "\<exists>e. service_Create repo c now newID inp s = (Inl e, s) \<and> KindOf (Some e) = Invalid"
  using assms
  by (auto simp: service_Create_def ValidateName_None [symmetric] ValidateStatus_None [symmetric]
      dest: ValidateName_kind ValidateStatus_kind split: option.splits)

definition update_valid :: "update_input \<Rightarrow> bool" where
  "update_valid inp \<longleftrightarrow> ui_id inp \<noteq> uuid_Nil \<and> name_ok (ui_name inp) \<and> status_valid (ui_status inp) \<and>
     \<not> ui_expected inp <s 0"

lemma service_Update_valid:
  assumes "update_valid inp"
  shows "service_Update repo lib c now inp s =
     (case r_Update repo c \<lparr>t_id = ui_id inp, t_name = ui_name inp, t_status = ui_status inp,
         t_created = 0, t_updated = now, t_version = 0\<rparr> (ui_expected inp) s of
        (Inl e, s') \<Rightarrow> (Inl (WrapError (''update task '' @ uuid_string lib (ui_id inp) @ '': '') e), s')
      | (Inr u, s') \<Rightarrow> (Inr u, s'))"
  using assms
  by (simp add: service_Update_def update_valid_def ValidateName_None [THEN iffD2]
      ValidateStatus_None [THEN iffD2] Let_def)

lemma service_Update_invalid:
  assumes "\<not> update_valid inp"
  shows "\<exists>e. service_Update repo lib c now inp s = (Inl e, s) \<and> KindOf (Some e) = Invalid"
  using assms
  by (auto simp: service_Update_def update_valid_def ValidateName_None [symmetric]
      ValidateStatus_None [symmetric] dest: ValidateName_kind ValidateStatus_kind
      split: option.splits)

subsection \<open>What a backend promises\<close>

text \<open>
  \<open>stored\<close> is what the backend keeps of an instant, \<open>storable\<close> what it accepts,
  \<open>working\<close> says that nothing outside the program fails during the call, and \<open>lost\<close> that a
  failure may be reported although the change was made.
\<close>

definition store_task :: "(time \<Rightarrow> time) \<Rightarrow> task \<Rightarrow> task" where
  "store_task stored t = t\<lparr>t_created := stored (t_created t), t_updated := stored (t_updated t)\<rparr>"

definition next_task :: "(time \<Rightarrow> time) \<Rightarrow> task \<Rightarrow> task \<Rightarrow> task" where
  "next_task stored old t =
     t\<lparr>t_created := t_created old, t_updated := stored (t_updated t), t_version := t_version old + 1\<rparr>"

definition all_tasks :: "(uuid \<rightharpoonup> task) \<Rightarrow> task list \<Rightarrow> bool" where
  "all_tasks m ts \<longleftrightarrow> distinct (map t_id ts) \<and> set ts = ran m"

definition version_allows :: "int64 \<Rightarrow> task \<Rightarrow> bool" where
  "version_allows v old \<longleftrightarrow> v = 0 \<or> t_version old = v"

locale task_repository =
  fixes repo :: "('c, 's) repository" and lib :: go_lib
    and inv :: "'s \<Rightarrow> bool" and view :: "'s \<Rightarrow> uuid \<Rightarrow> task option"
    and stored :: "time \<Rightarrow> time" and storable :: "task \<Rightarrow> bool"
    and working :: "'c \<Rightarrow> bool" and lost :: "'c \<Rightarrow> bool"
  assumes view_id: "inv s \<Longrightarrow> view s i = Some t \<Longrightarrow> t_id t = i"
    and view_stored: "inv s \<Longrightarrow> view s i = Some t \<Longrightarrow> stored (t_created t) = t_created t"
    and stored_zero: "stored 0 = 0"
    and working_answers: "working c \<Longrightarrow> \<not> lost c"
    and view_list: "inv s \<Longrightarrow> \<exists>ts. all_tasks (view s) ts"
    and create_done: "inv s \<Longrightarrow> r_Create repo c t s = (Inr u, s') \<Longrightarrow>
        inv s' \<and> view s (t_id t) = None \<and> u = store_task stored t \<and> view s' = (view s)(t_id t \<mapsto> u)"
    and create_failed: "inv s \<Longrightarrow> r_Create repo c t s = (Inl e, s') \<Longrightarrow> inv s' \<and>
        (view s' = view s \<or> lost c \<and> view s' = (view s)(t_id t \<mapsto> store_task stored t))"
    and create_works: "inv s \<Longrightarrow> working c \<Longrightarrow> storable t \<Longrightarrow> view s (t_id t) = None \<Longrightarrow>
        \<exists>u s'. r_Create repo c t s = (Inr u, s')"
    and get_done: "inv s \<Longrightarrow> r_Get repo c i s = Inr t \<Longrightarrow> view s i = Some t"
    and get_works: "inv s \<Longrightarrow> working c \<Longrightarrow>
        r_Get repo c i s = (case view s i of None \<Rightarrow> Inl ErrNotFound | Some t \<Rightarrow> Inr t)"
    and update_done: "inv s \<Longrightarrow> r_Update repo c t v s = (Inr u, s') \<Longrightarrow>
        inv s' \<and> (\<exists>old. view s (t_id t) = Some old \<and> version_allows v old \<and>
          u = next_task stored old t \<and> view s' = (view s)(t_id t \<mapsto> u))"
    and update_failed: "inv s \<Longrightarrow> r_Update repo c t v s = (Inl e, s') \<Longrightarrow> inv s' \<and>
        (view s' = view s \<or> lost c \<and> (\<exists>old. view s (t_id t) = Some old \<and>
          view s' = (view s)(t_id t \<mapsto> next_task stored old t)))"
    and update_missing: "inv s \<Longrightarrow> working c \<Longrightarrow> storable t \<Longrightarrow> view s (t_id t) = None \<Longrightarrow>
        fst (r_Update repo c t v s) = Inl ErrNotFound"
    and update_stale: "inv s \<Longrightarrow> working c \<Longrightarrow> storable t \<Longrightarrow> view s (t_id t) = Some old \<Longrightarrow>
        \<not> version_allows v old \<Longrightarrow> fst (r_Update repo c t v s) = Inl ErrConflict"
    and update_works: "inv s \<Longrightarrow> working c \<Longrightarrow> storable t \<Longrightarrow> view s (t_id t) = Some old \<Longrightarrow>
        version_allows v old \<Longrightarrow> t_version old \<noteq> 0x7FFFFFFFFFFFFFFF \<Longrightarrow>
        \<exists>u s'. r_Update repo c t v s = (Inr u, s')"
    and delete_done: "inv s \<Longrightarrow> r_Delete repo c i s = (None, s') \<Longrightarrow>
        inv s' \<and> i \<in> dom (view s) \<and> view s' = (view s)(i := None)"
    and delete_failed: "inv s \<Longrightarrow> r_Delete repo c i s = (Some e, s') \<Longrightarrow> inv s' \<and>
        (view s' = view s \<or> lost c \<and> view s' = (view s)(i := None))"
    and delete_missing: "inv s \<Longrightarrow> working c \<Longrightarrow> view s i = None \<Longrightarrow>
        fst (r_Delete repo c i s) = Some ErrNotFound"
    and delete_works: "inv s \<Longrightarrow> working c \<Longrightarrow> view s i = Some t \<Longrightarrow> fst (r_Delete repo c i s) = None"
    and list_works: "inv s \<Longrightarrow> working c \<Longrightarrow> uuid_laws lib \<Longrightarrow> 1 \<le> q_limit q \<Longrightarrow>
        stored (c_created (q_cursor q)) = c_created (q_cursor q) \<Longrightarrow> all_tasks (view s) ts \<Longrightarrow>
        r_List repo c q s =
          Inr (page_of (nat (q_limit q)) (sort_by (Less lib) (filter (selects lib q) ts)))"
begin

lemma service_create_get:
  assumes "inv s" and "service_Create repo c now newID inp s = (Inr t, s')" and "newID \<noteq> uuid_Nil"
    and "working c'"
  shows "inv s' \<and> t_id t = newID \<and> t_name t = ci_name inp \<and> t_status t = ci_status inp \<and> t_version t = 1 \<and>
    service_Get repo lib c' newID s' = Inr t \<and> (\<forall>i. i \<noteq> newID \<longrightarrow> view s' i = view s i) \<and> view s newID = None"
proof -
  have valid: "name_ok (ci_name inp) \<and> status_valid (ci_status inp)"
    using service_Create_invalid [of inp repo c now newID s] assms(2) by auto
  let ?t = "\<lparr>t_id = newID, t_name = ci_name inp, t_status = ci_status inp,
         t_created = now, t_updated = now, t_version = 1\<rparr>"
  have "r_Create repo c ?t s = (Inr t, s')"
    using assms(2) valid by (auto simp: service_Create_valid split: prod.splits sum.splits)
  from create_done [OF assms(1) this]
  have c: "inv s'" "view s newID = None" "t = store_task stored ?t" "view s' = (view s)(newID \<mapsto> t)" by auto
  then have "r_Get repo c' newID s' = Inr t" by (simp add: get_works assms(4))
  then show ?thesis using c assms(3) by (simp add: service_Get_def store_task_def)
qed

lemma service_update_done:
  assumes "inv s" and "service_Update repo lib c now inp s = (Inr u, s')"
  shows "inv s' \<and> (\<exists>old. view s (ui_id inp) = Some old \<and> version_allows (ui_expected inp) old \<and>
      u = old\<lparr>t_name := ui_name inp, t_status := ui_status inp, t_updated := stored now,
              t_version := t_version old + 1\<rparr> \<and>
      view s' = (view s)(ui_id inp \<mapsto> u)) \<and> update_valid inp"
proof -
  have valid: "update_valid inp"
    using service_Update_invalid [of inp repo lib c now s] assms(2) by auto
  let ?t = "\<lparr>t_id = ui_id inp, t_name = ui_name inp, t_status = ui_status inp,
         t_created = 0, t_updated = now, t_version = 0\<rparr>"
  have "r_Update repo c ?t (ui_expected inp) s = (Inr u, s')"
    using assms(2) valid by (auto simp: service_Update_valid split: prod.splits sum.splits)
  from update_done [OF assms(1) this] obtain old where o: "inv s'" "view s (ui_id inp) = Some old"
    "version_allows (ui_expected inp) old" "u = next_task stored old ?t" "view s' = (view s)(ui_id inp \<mapsto> u)"
    by auto
  moreover have "t_id old = ui_id inp" using view_id o(2) assms(1) by blast
  ultimately show ?thesis using valid by (auto simp: next_task_def)
qed

lemma service_update_failed:
  assumes "inv s" and "service_Update repo lib c now inp s = (Inl e, s')"
  shows "inv s' \<and> (view s' = view s \<or> lost c \<and> update_valid inp \<and>
    (\<exists>old. view s (ui_id inp) = Some old \<and> view s' = (view s)(ui_id inp \<mapsto>
       next_task stored old \<lparr>t_id = ui_id inp, t_name = ui_name inp, t_status = ui_status inp,
         t_created = 0, t_updated = now, t_version = 0\<rparr>)))"
proof (cases "update_valid inp")
  case True
  with assms(2) obtain e' where "r_Update repo c \<lparr>t_id = ui_id inp, t_name = ui_name inp,
      t_status = ui_status inp, t_created = 0, t_updated = now, t_version = 0\<rparr> (ui_expected inp) s = (Inl e', s')"
    by (auto simp: service_Update_valid split: prod.splits sum.splits)
  from update_failed [OF assms(1) this] True show ?thesis by simp
next
  case False
  then show ?thesis using service_Update_invalid [of inp repo lib c now s] assms by auto
qed

text \<open>The optimistic lock: of two writers that read the same version, one loses.\<close>

lemma service_no_lost_update:
  assumes "inv s" and "service_Update repo lib c now inp s = (Inr u, s')" and "ui_expected inp \<noteq> 0"
    and "ui_id inp' = ui_id inp" and "ui_expected inp' = ui_expected inp" and "update_valid inp'"
    and "working c'" and "storable \<lparr>t_id = ui_id inp', t_name = ui_name inp', t_status = ui_status inp',
         t_created = 0, t_updated = now', t_version = 0\<rparr>"
  shows "\<exists>e s''. service_Update repo lib c' now' inp' s' = (Inl e, s'') \<and> KindOf (Some e) = Conflict \<and>
    view s'' = view s'"
proof -
  from service_update_done [OF assms(1,2)] obtain old where o: "inv s'" "view s (ui_id inp) = Some old"
    "version_allows (ui_expected inp) old" "view s' (ui_id inp) = Some u" "t_version u = t_version old + 1"
    by auto
  have "\<not> version_allows (ui_expected inp') u" using o(3,5) assms(3,5) by (auto simp: version_allows_def)
  with update_stale [OF o(1) assms(7,8)] o(4) assms(4)
  obtain s'' where "r_Update repo c' \<lparr>t_id = ui_id inp', t_name = ui_name inp', t_status = ui_status inp',
         t_created = 0, t_updated = now', t_version = 0\<rparr> (ui_expected inp') s' = (Inl ErrConflict, s'')"
    by (metis prod.collapse task.select_convs(1))
  then have r: "service_Update repo lib c' now' inp' s' =
      (Inl (WrapError (''update task '' @ uuid_string lib (ui_id inp') @ '': '') ErrConflict), s'')"
    using assms(6) by (simp add: service_Update_valid)
  then show ?thesis using service_update_failed [OF o(1) r] working_answers [OF assms(7)] by auto
qed

lemma service_delete_done:
  assumes "inv s" and "service_Delete repo lib c i s = (None, s')" and "working c'"
  shows "inv s' \<and> i \<in> dom (view s) \<and> view s' = (view s)(i := None) \<and>
    KindOf (Some (projl (service_Get repo lib c' i s'))) = NotFound \<and> isl (service_Get repo lib c' i s')"
proof -
  have "i \<noteq> uuid_Nil" and "r_Delete repo c i s = (None, s')"
    using assms(2) by (auto simp: service_Delete_def split: if_splits prod.splits option.splits)
  moreover from delete_done [OF assms(1) this(2)]
  have d: "inv s'" "i \<in> dom (view s)" "view s' = (view s)(i := None)" by auto
  ultimately show ?thesis using get_works [OF d(1) assms(3)] by (simp add: service_Get_def)
qed

text \<open>Every stored task obeys the rules about names and statuses, and every operation keeps it so.\<close>

definition well_formed :: "'s \<Rightarrow> bool" where
  "well_formed s \<longleftrightarrow> inv s \<and> (\<forall>i t. view s i = Some t \<longrightarrow>
     name_ok (t_name t) \<and> status_valid (t_status t) \<and> t_id t = i)"

lemma service_create_well_formed:
  assumes "well_formed s" and "service_Create repo c now newID inp s = (r, s')"
  shows "well_formed s'"
proof (cases "name_ok (ci_name inp) \<and> status_valid (ci_status inp)")
  case True
  let ?t = "\<lparr>t_id = newID, t_name = ci_name inp, t_status = ci_status inp,
         t_created = now, t_updated = now, t_version = 1\<rparr>"
  have i: "inv s" using assms(1) by (simp add: well_formed_def)
  show ?thesis
  proof (cases "fst (r_Create repo c ?t s)")
    case (Inl e)
    then have "r_Create repo c ?t s = (Inl e, s')"
      using assms(2) True by (auto simp: service_Create_valid split: prod.splits)
    from create_failed [OF i this] assms(1) True show ?thesis
      by (auto simp: well_formed_def store_task_def split: if_splits)
  next
    case (Inr u)
    then have "r_Create repo c ?t s = (Inr u, s')"
      using assms(2) True by (auto simp: service_Create_valid split: prod.splits)
    from create_done [OF i this] True assms(1) show ?thesis
      by (auto simp: well_formed_def store_task_def)
  qed
next
  case False
  then show ?thesis using service_Create_invalid [of inp repo c now newID s] assms by auto
qed

lemma service_update_well_formed:
  assumes "well_formed s" and "service_Update repo lib c now inp s = (r, s')"
  shows "well_formed s'"
proof -
  have i: "inv s" using assms(1) by (simp add: well_formed_def)
  show ?thesis
  proof (cases r)
    case (Inl e)
    with assms(2) have "service_Update repo lib c now inp s = (Inl e, s')" by simp
    from service_update_failed [OF i this] assms(1) show ?thesis
      by (auto simp: well_formed_def update_valid_def next_task_def split: if_splits)
  next
    case (Inr u)
    with assms(2) have "service_Update repo lib c now inp s = (Inr u, s')" by simp
    from service_update_done [OF i this] assms(1) show ?thesis
      by (auto simp: well_formed_def update_valid_def split: if_splits)
  qed
qed

lemma service_delete_well_formed:
  assumes "well_formed s" and "service_Delete repo lib c i s = (r, s')"
  shows "well_formed s'"
proof -
  have v: "inv s" using assms(1) by (simp add: well_formed_def)
  consider "s' = s" | "r_Delete repo c i s = (None, s')" | e where "r_Delete repo c i s = (Some e, s')"
    using assms(2) by (auto simp: service_Delete_def split: if_splits prod.splits option.splits)
  then show ?thesis
    using assms(1) delete_done [OF v] delete_failed [OF v]
    by cases (fastforce simp: well_formed_def split: if_splits)+
qed

text \<open>Pagination.\<close>

lemma service_list_page:
  assumes "inv s" and "working c" and "uuid_laws lib" and "all_tasks (view s) ts"
    and "\<forall>x. st = Some x \<longrightarrow> status_valid x" and "clampLimit n = Inr limit"
    and "DecodeCursor lib token = Inr cur" and "stored (c_created cur) = c_created cur"
  shows "service_List repo lib c \<lparr>li_status = st, li_size = n, li_token = token\<rparr> s =
    Inr (page_of (nat limit) (sort_by (Less lib)
      (filter (\<lambda>t. status_matches st t \<and> cursor_after lib cur t) ts)))"
proof -
  have "1 \<le> limit" using clampLimit_range [OF assms(6)] by simp
  with list_works [OF assms(1-3), of "\<lparr>q_status = st, q_limit = limit, q_cursor = cur\<rparr>" ts] assms(4-8)
  show ?thesis
    by (simp add: service_List_def Validate_bind_None [THEN iffD2] selects_def [abs_def])
qed

lemma task_keys_distinct:
  assumes "uuid_laws lib" and "distinct (map t_id ts)"
  shows "distinct (map (task_key lib) ts)"
  using assms by (auto simp: distinct_map inj_on_def uuid_string_inject)

lemma later_tasks:
  assumes "uuid_laws lib" and "all_tasks m ts" and "all = sort_by (Less lib) (filter (status_matches st) ts)"
    and "k < length all" and "\<not> cursor_is_zero (CursorOf (all ! k))"
  shows "sort_by (Less lib) (filter (\<lambda>t. status_matches st t \<and> cursor_after lib (CursorOf (all ! k)) t) ts) =
    drop (Suc k) all"
proof -
  have d: "distinct (map (task_key lib) ts)"
    using task_keys_distinct [OF assms(1)] assms(2) by (simp add: all_tasks_def)
  let ?P = "\<lambda>t. status_matches st t" and ?Q = "Less lib (all ! k)"
  have "sort_by (Less lib) (filter (\<lambda>t. ?P t \<and> ?Q t) ts) = filter ?Q all"
    using d by (simp add: newest_first.sort_by_filter assms(3))
  moreover have "sorted_wrt (Less lib) all"
    unfolding assms(3) using d by (intro newest_first.sort_by_sorted) (simp add: distinct_map_filter)
  ultimately show ?thesis using assms(4,5) by (simp add: cursor_after_Less newest_first.filter_lt_nth)
qed

lemma follow_from:
  assumes "inv s" and "working c" and "uuid_laws lib" and "time_laws lib" and "all_tasks (view s) ts"
    and "\<forall>x. st = Some x \<longrightarrow> status_valid x" and "clampLimit n = Inr limit"
    and "\<forall>t \<in> ran (view s). t_id t \<noteq> uuid_Nil \<and> rfc3339_range (t_created t)"
    and "all = sort_by (Less lib) (filter (status_matches st) ts)"
    and "DecodeCursor lib token = Inr cur" and "stored (c_created cur) = c_created cur"
    and "sort_by (Less lib) (filter (\<lambda>t. status_matches st t \<and> cursor_after lib cur t) ts) = drop k all"
    and "length all - k < m"
  shows "follow m repo lib c st n token s = Some (Inr (drop k all))"
  using assms(10-)
proof (induction m arbitrary: token cur k)
  case (Suc m)
  let ?L = "nat limit"
  have L: "1 \<le> ?L" using clampLimit_range [OF assms(7)] by linarith
  have page: "service_List repo lib c \<lparr>li_status = st, li_size = n, li_token = token\<rparr> s =
      Inr (page_of ?L (drop k all))"
    using service_list_page [OF assms(1-3,5-7) Suc.prems(1,2)] Suc.prems(3) by simp
  show ?case
  proof (cases "length (drop k all) \<le> ?L")
    case True
    then show ?thesis using page by (simp add: page_of_def cursor_encode_def)
  next
    case False
    let ?t = "all ! (k + ?L - 1)"
    have k: "k + ?L - 1 < length all" using False L by simp
    have "?t \<in> ran (view s)"
      using nth_mem [OF k] assms(5) by (auto simp: assms(9) all_tasks_def)
    then have t: "t_id ?t \<noteq> uuid_Nil" "rfc3339_range (t_created ?t)" "stored (t_created ?t) = t_created ?t"
      using assms(8) view_stored [OF assms(1)] by (auto simp: ran_def)
    have nz: "\<not> cursor_is_zero (CursorOf ?t)" using t(1) by (simp add: cursor_is_zero_def CursorOf_def)
    have nxt: "p_next (page_of ?L (drop k all)) = CursorOf ?t"
      using False L by (simp add: page_of_def)
    have enc: "cursor_encode lib (CursorOf ?t) \<noteq> []"
      using nz by (auto simp: cursor_encode_def b64_encode_not_Nil)
    have "follow m repo lib c st n (cursor_encode lib (CursorOf ?t)) s = Some (Inr (drop (k + ?L) all))"
    proof (rule Suc.IH)
      show "DecodeCursor lib (cursor_encode lib (CursorOf ?t)) = Inr (CursorOf ?t)"
        using DecodeCursor_encode [OF assms(3,4)] t(2) by (simp add: CursorOf_def)
      show "stored (c_created (CursorOf ?t)) = c_created (CursorOf ?t)" using t(3) by (simp add: CursorOf_def)
      show "sort_by (Less lib) (filter (\<lambda>t. status_matches st t \<and> cursor_after lib (CursorOf ?t) t) ts) =
          drop (k + ?L) all"
        using later_tasks [OF assms(3,5,9) k nz] Suc_diff_1 [of "k + ?L"] L
        by (metis add_gr_0 less_eq_Suc_le One_nat_def)
      show "length all - (k + ?L) < m" using Suc.prems(4) L k by linarith
    qed
    moreover have "p_tasks (page_of ?L (drop k all)) @ drop (k + ?L) all = drop k all"
      using append_take_drop_id [of ?L "drop k all"] by (simp add: page_of_def add.commute)
    ultimately show ?thesis using page nxt enc by simp
  qed
qed simp

lemma follow_complete:
  assumes "inv s" and "working c" and "uuid_laws lib" and "time_laws lib" and "all_tasks (view s) ts"
    and "\<forall>x. st = Some x \<longrightarrow> status_valid x" and "clampLimit n = Inr limit"
    and "\<forall>t \<in> ran (view s). t_id t \<noteq> uuid_Nil \<and> rfc3339_range (t_created t)"
    and "length ts < m"
  shows "follow m repo lib c st n [] s = Some (Inr (sort_by (Less lib) (filter (status_matches st) ts)))"
proof -
  have "length (sort_by (Less lib) (filter (status_matches st) ts)) < m"
    using assms(9) by (simp add: le_less_trans [OF length_filter_le])
  then show ?thesis
    using follow_from [OF assms(1-8) refl, of "[]" zero_cursor 0 m] stored_zero
    by (simp add: DecodeCursor_def) (simp add: zero_cursor_def)
qed

end

end
