(* ===== verification/Go_Lib_Instance.thy ===== *)
theory Go_Lib_Instance
  imports Task_Domain
begin

text \<open>
  A concrete \<open>go_lib\<close> that satisfies \<open>uuid_laws\<close> and \<open>time_laws\<close>: identifiers as 32
  hexadecimal digits, instants as decimal numbers. It shows that the laws can hold together and
  it is what the examples evaluate with; no model definition depends on it.
\<close>

definition hex_digit :: "nat \<Rightarrow> char" where
  "hex_digit d = ''0123456789abcdef'' ! d"

definition hex_digit_val :: "char \<Rightarrow> nat" where
  "hex_digit_val c = length (takeWhile (\<lambda>x. x \<noteq> c) ''0123456789abcdef'')"

primrec hex :: "nat \<Rightarrow> nat \<Rightarrow> string" where
  "hex 0 k = []"
| "hex (Suc n) k = hex n (k div 16) @ [hex_digit (k mod 16)]"

definition hex_val :: "string \<Rightarrow> nat" where
  "hex_val s = foldl (\<lambda>acc c. acc * 16 + hex_digit_val c) 0 s"

definition std_lib :: go_lib where
  "std_lib = \<lparr>uuid_string = (\<lambda>u. hex 32 (unat u)),
     uuid_parse = (\<lambda>s. if length s = 32 \<and> set s \<subseteq> set ''0123456789abcdef''
       then Some (word_of_nat (hex_val s)) else None),
     time_format = (\<lambda>t. itoa t),
     time_parse = (\<lambda>s. if s = [] then None else Some (int (dec_val s)))\<rparr>"

lemma nat_less_16: "d < 16 \<Longrightarrow> d \<in> {0, 1, 2, 3, 4, 5, 6, 7, 8, 9, 10, 11, 12, 13, 14, 15 :: nat}"
  by (simp; presburger)

lemma hex_digit_val_digit: "d < 16 \<Longrightarrow> hex_digit_val (hex_digit d) = d"
  by (drule nat_less_16) (auto simp: hex_digit_def hex_digit_val_def)

lemma hex_digit_in: "d < 16 \<Longrightarrow> hex_digit d \<in> set ''0123456789abcdef''"
  unfolding hex_digit_def by (rule nth_mem) simp

lemma hex_digit_less: "d < 16 \<Longrightarrow> e < 16 \<Longrightarrow> hex_digit d < hex_digit e \<longleftrightarrow> d < e"
proof -
  have "sorted_wrt (<) ''0123456789abcdef''" by (simp add: less_char_def)
  then have "i < j \<Longrightarrow> j < 16 \<Longrightarrow> hex_digit i < hex_digit j" for i j
    by (simp add: hex_digit_def sorted_wrt_iff_nth_less)
  then show "d < 16 \<Longrightarrow> e < 16 \<Longrightarrow> hex_digit d < hex_digit e \<longleftrightarrow> d < e"
    by (metis linorder_neqE_nat order_less_asym order_less_irrefl)
qed

lemma length_hex [simp]: "length (hex n k) = n"
  by (induction n arbitrary: k) simp_all

lemma hex_val_hex: "k < 16 ^ n \<Longrightarrow> hex_val (hex n k) = k"
proof (induction n arbitrary: k)
  case (Suc n)
  then have "k div 16 < 16 ^ n" by (simp add: less_mult_imp_div_less mult.commute)
  then show ?case using Suc.IH by (simp add: hex_val_def hex_digit_val_digit)
qed (simp add: hex_val_def)

lemma set_hex: "set (hex n k) \<subseteq> set ''0123456789abcdef''"
proof (induction n arbitrary: k)
  case (Suc n)
  then show ?case using hex_digit_in [of "k mod 16"] by simp
qed simp

lemma snoc_less_snoc:
  "length xs = length ys \<Longrightarrow> xs @ [a :: char] < ys @ [b] \<longleftrightarrow> xs < ys \<or> xs = ys \<and> a < b"
  by (induction xs ys rule: list_induct2) auto

lemma div_mod_less:
  "(j :: nat) < k \<longleftrightarrow> j div 16 < k div 16 \<or> j div 16 = k div 16 \<and> j mod 16 < k mod 16"
  using div_mult_mod_eq [of j 16] div_mult_mod_eq [of k 16] mod_less_divisor [of 16 j]
    mod_less_divisor [of 16 k] by linarith

lemma hex_less: "j < 16 ^ n \<Longrightarrow> k < 16 ^ n \<Longrightarrow> hex n j < hex n k \<longleftrightarrow> j < k"
proof (induction n arbitrary: j k)
  case (Suc n)
  then have d: "j div 16 < 16 ^ n" "k div 16 < 16 ^ n" by (simp_all add: less_mult_imp_div_less mult.commute)
  then have "hex n (j div 16) = hex n (k div 16) \<longleftrightarrow> j div 16 = k div 16" by (metis hex_val_hex)
  moreover have "j < k \<longleftrightarrow> j div 16 < k div 16 \<or> j div 16 = k div 16 \<and> j mod 16 < k mod 16"
    by (rule div_mod_less)
  ultimately show ?case using Suc.IH [OF d] by (simp add: snoc_less_snoc hex_digit_less)
qed simp

lemma unat_uuid: "unat (u :: uuid) < 16 ^ 32"
  using unsigned_less [of u] by simp

lemma std_uuid_laws: "uuid_laws std_lib"
proof -
  have "set (hex 32 (unat u)) \<subseteq> set ''0123456789abcdef-''" for u :: uuid
    using set_hex [of 32 "unat u"] by (rule subset_trans) simp
  then show ?thesis
    using hex_val_hex [OF unat_uuid] hex_less [OF unat_uuid unat_uuid] set_hex [of 32]
    by (simp add: uuid_laws_def std_lib_def word_less_nat_alt)
qed

lemma std_time_laws: "time_laws std_lib"
proof -
  have "dec n \<noteq> []" for n by (subst dec.simps) simp
  moreover have "CHR ''|'' \<notin> set (dec n)" for n
    using dec_digits [of n] digit_not [of _ "CHR ''|''"] by fastforce
  ultimately show ?thesis by (auto simp: time_laws_def std_lib_def rfc3339_range_def itoa_def)
qed

lemma demo_name_ok: "name_ok ''a''"
  by (simp add: name_ok_def trim_space_def trim_left.simps trim_right.simps starts_with_def
      ends_with_def spaces_def space_front_def space_back_def)

text \<open>
  C21: A page token is read back as the cursor it was made from, for every cursor whose time RFC 3339 can write; different cursors get different tokens; and a text that is not a token is refused with the one validation error for page tokens, never with another.\<close>
theorem page_token_roundtrip:
  assumes "uuid_laws lib" and "time_laws lib" and "rfc3339_range (c_created c)" and "rfc3339_range (c_created d)"
  shows "DecodeCursor lib (cursor_encode lib c) = Inr c \<and>
    (cursor_encode lib c = cursor_encode lib d \<longrightarrow> c = d) \<and>
    (DecodeCursor lib tok = Inl e \<longrightarrow> e = page_token_error)"
proof -
  have c: "DecodeCursor lib (cursor_encode lib c) = Inr c" by (rule DecodeCursor_encode [OF assms(1-3)])
  moreover have "c = d" if "cursor_encode lib c = cursor_encode lib d"
    by (rule sum.inject(2) [THEN iffD1]) (rule trans [OF c [symmetric]], subst that, rule DecodeCursor_encode [OF assms(1,2,4)])
  ultimately show ?thesis by (intro conjI impI) (assumption | rule DecodeCursor_error)+
qed

theorem page_token_roundtrip_witness:
  "DecodeCursor std_lib (cursor_encode std_lib \<lparr>c_created = 7, c_id = 9\<rparr>) = Inr \<lparr>c_created = 7, c_id = 9\<rparr>"
proof -
  have "rfc3339_range (c_created \<lparr>c_created = 7, c_id = 9\<rparr>)" by (simp add: rfc3339_range_def)
  from page_token_roundtrip [OF std_uuid_laws std_time_laws this this] show ?thesis by (rule conjunct1)
qed

end
