(* ===== verification/Memrepo.thy ===== *)
theory Memrepo
  imports Task_Service Go_Lib_Instance
begin

text \<open>
  The in-memory backend, \<open>internal/task/memrepo/memrepo.go\<close>.

  The Go map is an association list with one entry per identifier. Ranging over a Go map
  visits its entries in an order the runtime chooses afresh each time, so that order is part of
  the call's context; \<open>clone\<close> is the identity, because values here are not shared. Every
  operation holds the store's lock for its whole effect, so a concurrent run is a sequence of
  these operations.
\<close>

record mem_ctx =
  mc_err :: "go_error option"
  mc_range :: "(uuid \<times> task) list \<Rightarrow> (uuid \<times> task) list"

type_synonym mem_store = "(uuid \<times> task) list"

definition memrepo_New :: mem_store where
  "memrepo_New = []"

definition memrepo_Create :: "mem_ctx \<Rightarrow> task \<Rightarrow> mem_store \<Rightarrow> task result \<times> mem_store" where
  "memrepo_Create c t s =
     (case mc_err c of
        Some e \<Rightarrow> (Inl e, s)
      | None \<Rightarrow>
          if map_of s (t_id t) \<noteq> None then (Inl ErrConflict, s)
          else (Inr t, AList.update (t_id t) t s))"

definition memrepo_Get :: "mem_ctx \<Rightarrow> uuid \<Rightarrow> mem_store \<Rightarrow> task result" where
  "memrepo_Get c i s =
     (case mc_err c of
        Some e \<Rightarrow> Inl e
      | None \<Rightarrow> (case map_of s i of None \<Rightarrow> Inl ErrNotFound | Some t \<Rightarrow> Inr t))"

definition memrepo_Update ::
  "mem_ctx \<Rightarrow> task \<Rightarrow> int64 \<Rightarrow> mem_store \<Rightarrow> task result \<times> mem_store" where
  "memrepo_Update c t expectedVersion s =
     (case mc_err c of
        Some e \<Rightarrow> (Inl e, s)
      | None \<Rightarrow>
          (case map_of s (t_id t) of
             None \<Rightarrow> (Inl ErrNotFound, s)
           | Some existing \<Rightarrow>
               if expectedVersion \<noteq> 0 \<and> t_version existing \<noteq> expectedVersion then (Inl ErrConflict, s)
               else
                 (let nxt = t\<lparr>t_created := t_created existing, t_version := t_version existing + 1\<rparr>
                  in (Inr nxt, AList.update (t_id t) nxt s))))"

definition memrepo_Delete :: "mem_ctx \<Rightarrow> uuid \<Rightarrow> mem_store \<Rightarrow> go_error option \<times> mem_store" where
  "memrepo_Delete c i s =
     (case mc_err c of
        Some e \<Rightarrow> (Some e, s)
      | None \<Rightarrow>
          if map_of s i = None then (Some ErrNotFound, s)
          else (None, AList.delete i s))"

definition matching :: "go_lib \<Rightarrow> mem_ctx \<Rightarrow> list_query \<Rightarrow> mem_store \<Rightarrow> task list" where
  "matching lib c q s =
     filter (\<lambda>t. \<not> (\<exists>st \<in> set_option (q_status q). t_status t \<noteq> st) \<and> cursor_after lib (q_cursor q) t)
       (map snd (mc_range c s))"

definition sortNewestFirst :: "go_lib \<Rightarrow> task list \<Rightarrow> task list" where
  "sortNewestFirst lib ts = sort_by (Less lib) ts"

definition paginate :: "task list \<Rightarrow> int \<Rightarrow> page result" where
  "paginate ts limit =
     (if int (length ts) \<le> limit then Inr \<lparr>p_tasks = ts, p_next = zero_cursor\<rparr>
      else if limit < 0 then Inl (PanicError ''slice bounds out of range'')
      else
        (let page = take (nat limit) ts in
         if page = [] then Inl (PanicError ''index out of range'')
         else Inr \<lparr>p_tasks = page, p_next = CursorOf (page ! (length page - 1))\<rparr>))"

definition memrepo_List :: "go_lib \<Rightarrow> mem_ctx \<Rightarrow> list_query \<Rightarrow> mem_store \<Rightarrow> page result" where
  "memrepo_List lib c q s =
     (case mc_err c of
        Some e \<Rightarrow> Inl e
      | None \<Rightarrow> paginate (sortNewestFirst lib (matching lib c q s)) (q_limit q))"

definition memrepo_Len :: "mem_store \<Rightarrow> nat" where
  "memrepo_Len s = length s"

definition memrepo :: "go_lib \<Rightarrow> (mem_ctx, mem_store) repository" where
  "memrepo lib = \<lparr>r_Create = memrepo_Create, r_Get = memrepo_Get, r_Update = memrepo_Update,
     r_Delete = memrepo_Delete, r_List = memrepo_List lib\<rparr>"

subsection \<open>The store is a map from identifiers to tasks\<close>

definition mem_inv :: "mem_store \<Rightarrow> bool" where
  "mem_inv s \<longleftrightarrow> distinct (map fst s) \<and> list_all (\<lambda>(k, t). t_id t = k) s"

definition mem_working :: "mem_ctx \<Rightarrow> bool" where
  "mem_working c \<longleftrightarrow> mc_err c = None \<and> (\<forall>es. mset (mc_range c es) = mset es)"

lemma mem_inv_New: "mem_inv memrepo_New"
  by (simp add: mem_inv_def memrepo_New_def)

lemma mem_inv_iff:
  "mem_inv s \<longleftrightarrow> distinct (map fst s) \<and> (\<forall>k t. map_of s k = Some t \<longrightarrow> t_id t = k)"
  by (auto simp: mem_inv_def list_all_iff map_of_eq_Some_iff)

lemma mem_inv_update: "mem_inv s \<Longrightarrow> t_id t = k \<Longrightarrow> mem_inv (AList.update k t s)"
  by (simp add: mem_inv_iff distinct_update update_conv')

lemma mem_inv_delete: "mem_inv s \<Longrightarrow> mem_inv (AList.delete k s)"
  by (simp add: mem_inv_iff distinct_delete delete_conv')

lemma mem_inv_id: "mem_inv s \<Longrightarrow> map_of s i = Some t \<Longrightarrow> t_id t = i"
  by (simp add: mem_inv_iff)

lemma mem_all_tasks:
  assumes "mem_inv s"
  shows "all_tasks (map_of s) (map snd s)"
proof -
  have "map t_id (map snd s) = map fst s" using assms by (auto simp: mem_inv_def list_all_iff)
  then have "distinct (map t_id (map snd s))" using assms by (metis mem_inv_def)
  moreover have "set (map snd s) = ran (map_of s)" using assms by (simp add: mem_inv_def ran_distinct)
  ultimately show ?thesis by (simp add: all_tasks_def)
qed

lemma all_tasks_mset: "all_tasks m ts \<Longrightarrow> all_tasks m us \<Longrightarrow> mset ts = mset us"
  by (simp add: all_tasks_def distinct_map flip: set_eq_iff_mset_eq_distinct)

lemma matching_mset:
  assumes "mem_working c"
  shows "mset (matching lib c q s) = mset (filter (selects lib q) (map snd s))"
proof -
  have "mset (mc_range c s) = mset s" using assms by (simp add: mem_working_def)
  moreover have "(\<lambda>t. \<not> (\<exists>st \<in> set_option (q_status q). t_status t \<noteq> st) \<and> cursor_after lib (q_cursor q) t)
      = selects lib q"
    by (auto simp: selects_def status_matches_def fun_eq_iff split: option.splits)
  ultimately show ?thesis by (simp add: matching_def)
qed

lemma paginate_page_of: "1 \<le> limit \<Longrightarrow> paginate ts limit = Inr (page_of (nat limit) ts)"
  by (auto simp: paginate_def page_of_def Let_def zero_cursor_def min_def)

lemma memrepo_List_works:
  assumes "mem_inv s" and "mem_working c" and "uuid_laws lib" and "1 \<le> q_limit q"
    and "all_tasks (map_of s) ts"
  shows "memrepo_List lib c q s =
    Inr (page_of (nat (q_limit q)) (sort_by (Less lib) (filter (selects lib q) ts)))"
proof -
  let ?us = "matching lib c q s" and ?ts = "filter (selects lib q) ts"
  have m: "mset ?us = mset ?ts"
    using matching_mset [OF assms(2)] all_tasks_mset [OF mem_all_tasks [OF assms(1)] assms(5)] by simp
  have "distinct (map t_id ?ts)" using assms(5) by (simp add: all_tasks_def distinct_map_filter)
  then have d: "distinct (map (task_key lib) ?ts)"
    using assms(3) by (auto simp: distinct_map inj_on_def uuid_string_inject)
  then have "distinct (map (task_key lib) ?us)"
    using m by (metis mset_eq_imp_distinct_iff mset_map)
  then have "sortNewestFirst lib ?us = sort_by (Less lib) ?ts"
    unfolding sortNewestFirst_def using d m mset_eq_setD [OF m]
    by (intro newest_first.sort_by_order_irrelevant) simp_all
  then show ?thesis using assms(2,4) by (simp add: memrepo_List_def mem_working_def paginate_page_of)
qed

interpretation mem: task_repository "memrepo lib" lib mem_inv map_of "\<lambda>t. t" "\<lambda>t. True" mem_working
  "\<lambda>c. False" for lib
  by unfold_locales
    (auto simp: memrepo_def memrepo_Create_def memrepo_Get_def memrepo_Update_def memrepo_Delete_def
    mem_working_def mem_inv_id mem_inv_update mem_inv_delete update_conv' delete_conv' next_task_def
    store_task_def version_allows_def Let_def memrepo_List_works intro: mem_all_tasks split: option.splits if_splits)

subsection \<open>The service over the in-memory backend\<close>

text \<open>The contents of the store do not depend on the order in which entries were added.\<close>

definition demo_task :: "nat \<Rightarrow> task" where
  "demo_task n = \<lparr>t_id = word_of_nat n, t_name = ''task'', t_status = 0, t_created = int n,
     t_updated = int n, t_version = 1\<rparr>"

definition demo_store :: mem_store where
  "demo_store = map (\<lambda>n. (word_of_nat n, demo_task n)) [2, 1, 3]"

definition demo_ctx :: mem_ctx where
  "demo_ctx = \<lparr>mc_err = None, mc_range = rev\<rparr>"

lemma demo_inv: "mem_inv demo_store"
  by (simp add: mem_inv_def demo_store_def demo_task_def)

lemma demo_working: "mem_working demo_ctx"
  by (simp add: mem_working_def demo_ctx_def)

lemma demo_ran: "ran (map_of demo_store) = {demo_task 2, demo_task 1, demo_task 3}"
  using ran_distinct [of demo_store] demo_inv by (simp add: mem_inv_def demo_store_def)

text \<open>
  C7: Following page tokens over the in-memory backend returns every task of the requested status
  exactly once, newest first, whatever order the map is ranged in: the walk ends within one
  request more than there are tasks, and the concatenated pages are the sorted list of all of them.
\<close>
theorem memrepo_pagination_complete:
  assumes "mem_inv s" and "mem_working c" and "uuid_laws lib" and "time_laws lib"
    and "\<forall>x. st = Some x \<longrightarrow> status_valid x" and "0 \<le> n" and "n \<le> MaxPageSize"
    and "\<forall>t \<in> ran (map_of s). t_id t \<noteq> uuid_Nil \<and> rfc3339_range (t_created t)"
    and "memrepo_Len s < m"
  shows "\<exists>ts. follow m (memrepo lib) lib c st n [] s = Some (Inr ts) \<and>
    distinct (map t_id ts) \<and> set ts = {t \<in> ran (map_of s). status_matches st t} \<and> sorted_wrt (Less lib) ts"
proof -
  let ?us = "filter (status_matches st) (map snd s)"
  have all: "all_tasks (map_of s) (map snd s)" by (rule mem_all_tasks) fact
  obtain limit where l: "clampLimit n = Inr limit" using clampLimit_accepts assms(6,7) by blast
  have len: "length (map snd s) < m" using assms(9) by (simp add: memrepo_Len_def)
  have d: "distinct (map t_id ?us)" using all unfolding all_tasks_def by (blast intro: distinct_map_filter)
  then have "distinct (map (task_key lib) ?us)" by (rule mem.task_keys_distinct [OF assms(3)])
  then have "sorted_wrt (Less lib) (sort_by (Less lib) ?us)" by (rule newest_first.sort_by_sorted)
  moreover have "mset (map t_id (sort_by (Less lib) ?us)) = mset (map t_id ?us)" by (simp only: mset_map mset_sort_by)
  then have "distinct (map t_id (sort_by (Less lib) ?us))" using d by (metis mset_eq_imp_distinct_iff)
  moreover have "set (sort_by (Less lib) ?us) = {t \<in> ran (map_of s). status_matches st t}"
    using all by (auto simp: all_tasks_def)
  ultimately show ?thesis using mem.follow_complete [OF assms(1-4) all assms(5) l assms(8) len] by blast
qed

theorem memrepo_pagination_complete_witness:
  "\<exists>ts. follow 4 (memrepo std_lib) std_lib demo_ctx None 2 [] demo_store = Some (Inr ts) \<and>
    distinct (map t_id ts) \<and> set ts = {t \<in> ran (map_of demo_store). status_matches None t} \<and>
    sorted_wrt (Less std_lib) ts"
  by (rule memrepo_pagination_complete [OF demo_inv demo_working std_uuid_laws std_time_laws])
    (auto simp: demo_ran demo_task_def rfc3339_range_def memrepo_Len_def demo_store_def)

text \<open>
  Over the in-memory backend the service is a map from identifiers to tasks: a successful
  create binds a fresh identifier to a task with the caller's name and status and version 1, a later
  get returns exactly it, and no other binding changes.
\<close>
theorem memrepo_create_get:
  assumes "mem_inv s" and "service_Create (memrepo lib) c now newID inp s = (Inr t, s')"
    and "newID \<noteq> uuid_Nil" and "mem_working c'"
  shows "mem_inv s' \<and> map_of s newID = None \<and> t_id t = newID \<and> t_name t = ci_name inp \<and> t_status t = ci_status inp \<and>
    t_version t = 1 \<and> service_Get (memrepo lib) lib c' newID s' = Inr t \<and>
    (\<forall>i. i \<noteq> newID \<longrightarrow> map_of s' i = map_of s i)"
  using mem.service_create_get [OF assms] by simp

theorem memrepo_create_get_witness:
  "\<exists>t s'. service_Create (memrepo std_lib) demo_ctx 7 9 \<lparr>ci_name = ''a'', ci_status = 1\<rparr> demo_store = (Inr t, s') \<and>
     service_Get (memrepo std_lib) std_lib demo_ctx 9 s' = Inr t"
proof -
  obtain t s' where c: "service_Create (memrepo std_lib) demo_ctx 7 9 \<lparr>ci_name = ''a'', ci_status = 1\<rparr> demo_store = (Inr t, s')"
    by (simp add: service_Create_valid demo_name_ok status_valid_def memrepo_def memrepo_Create_def demo_ctx_def demo_store_def)
  then show ?thesis using memrepo_create_get [OF demo_inv c _ demo_working] by auto
qed

text \<open>
  Optimistic locking over the in-memory backend: once one writer has updated a task from a version
  it read, a second valid update that names the same version is refused as a conflict and changes
  nothing.
\<close>
theorem memrepo_no_lost_update:
  assumes "mem_inv s" and "service_Update (memrepo lib) lib c now inp s = (Inr u, s')" and "ui_expected inp \<noteq> 0"
    and "ui_id inp' = ui_id inp" and "ui_expected inp' = ui_expected inp" and "update_valid inp'"
    and "mem_working c'"
  shows "\<exists>e s''. service_Update (memrepo lib) lib c' now' inp' s' = (Inl e, s'') \<and>
    KindOf (Some e) = Conflict \<and> map_of s'' = map_of s'"
  by (rule mem.service_no_lost_update [OF assms]) simp

theorem memrepo_no_lost_update_witness:
  "\<exists>u s' e s''. service_Update (memrepo std_lib) std_lib demo_ctx 7
       \<lparr>ui_id = 2, ui_name = ''a'', ui_status = 1, ui_expected = 1\<rparr> demo_store = (Inr u, s') \<and>
     service_Update (memrepo std_lib) std_lib demo_ctx 8
       \<lparr>ui_id = 2, ui_name = ''a'', ui_status = 0, ui_expected = 1\<rparr> s' = (Inl e, s'') \<and>
     KindOf (Some e) = Conflict"
proof -
  have v: "update_valid \<lparr>ui_id = 2, ui_name = ''a'', ui_status = 1, ui_expected = 1\<rparr>"
    "update_valid \<lparr>ui_id = 2, ui_name = ''a'', ui_status = 0, ui_expected = 1\<rparr>"
    by (simp_all add: update_valid_def demo_name_ok status_valid_def word_sless_alt)
  obtain u s' where c: "service_Update (memrepo std_lib) std_lib demo_ctx 7
       \<lparr>ui_id = 2, ui_name = ''a'', ui_status = 1, ui_expected = 1\<rparr> demo_store = (Inr u, s')"
    by (simp add: service_Update_valid v memrepo_def memrepo_Update_def demo_ctx_def demo_store_def
        demo_task_def Let_def)
  then show ?thesis using memrepo_no_lost_update [OF demo_inv c _ _ _ v(2) demo_working] by fastforce
qed

end
