(* ===== verification/Pgrepo.thy ===== *)
theory Pgrepo
  imports Memrepo Job_Lifecycle
begin

text \<open>
  The Postgres backend: \<open>internal/task/pgrepo\<close> (\<open>pgrepo.go\<close>, \<open>event.go\<close>), the unit of work of
  \<open>internal/postgres/tx.go\<close>, and the schema's \<open>tasks\<close> table.

  The database state is a record the idempotency layer extends with its own table. A transaction
  is a copy of it: committing installs the copy, rolling back keeps the original except for the
  identity sequence, which never goes back. \<open>pg_after\<close> is the list of side effects an ambient
  transaction has registered, \<open>pg_sent\<close> the notifications sent. What may go wrong in a call is its
  context: each statement, and the commit, may fail; a commit may also succeed and lose its answer.
  A \<open>timestamptz\<close> keeps microseconds.
\<close>

subsection \<open>Events (event.go)\<close>

definition JobKind :: string where "JobKind = ''task.event''"
definition EventCreated :: string where "EventCreated = ''task.created''"
definition EventUpdated :: string where "EventUpdated = ''task.updated''"
definition EventDeleted :: string where "EventDeleted = ''task.deleted''"

record event =
  ev_event :: string
  ev_task_id :: uuid
  ev_version :: int64
  ev_name :: string
  ev_status :: int32
  ev_occurred_at :: time

definition eventFor :: "string \<Rightarrow> task \<Rightarrow> event" where
  "eventFor name t =
     \<lparr>ev_event = name, ev_task_id = t_id t, ev_version = t_version t, ev_name = t_name t,
      ev_status = t_status t, ev_occurred_at = t_updated t\<rparr>"

definition event_ID :: "go_lib \<Rightarrow> event \<Rightarrow> string" where
  "event_ID lib e = ev_event e @ '':'' @ uuid_string lib (ev_task_id e) @ '':'' @ itoa (sint (ev_version e))"

subsection \<open>The database\<close>

record pg_state =
  pg_tasks :: "task list"
  pg_jobs :: jobs
  pg_seq :: int
  pg_after :: "string list"
  pg_sent :: "string list"

record pg_ctx =
  pc_begin :: "go_error option"
  pc_stmt :: "go_error option"
  pc_miss :: "go_error option"
  pc_enqueue :: "go_error option"
  pc_commit :: db_outcome
  pc_now :: time
  pc_marshal :: "event \<Rightarrow> string result"

definition tz :: "time \<Rightarrow> time" where
  "tz t = t div 1000 * 1000"

definition utf8_length :: "string \<Rightarrow> nat" where
  "utf8_length s = length (filter (\<lambda>c. \<not> (128 \<le> (of_char c :: nat) \<and> of_char c < (192 :: nat))) s)"

definition tasks_check :: "task \<Rightarrow> bool" where
  "tasks_check t \<longleftrightarrow> 1 \<le> utf8_length (t_name t) \<and> utf8_length (t_name t) \<le> 255 \<and> (t_status t = 0 \<or> t_status t = 1)"

definition no_rows :: go_error where "no_rows = LibError NoRows ''no rows in result set''"

text \<open>The three statements on \<open>tasks\<close>: what \<open>scanTask\<close> reads from their \<open>RETURNING\<close>.\<close>

definition insert_task :: "task \<Rightarrow> 'a pg_state_scheme \<Rightarrow> task result \<times> 'a pg_state_scheme" where
  "insert_task t s =
     (let row = store_task tz t in
      if \<not> tasks_check row then (Inl check_violation, s)
      else if list_ex (\<lambda>x. t_id x = t_id t) (pg_tasks s) then
        (Inl (PlainError ''duplicate key value violates unique constraint''), s)
      else (Inr row, s\<lparr>pg_tasks := pg_tasks s @ [row]\<rparr>))"

definition update_matches :: "task \<Rightarrow> int64 \<Rightarrow> task \<Rightarrow> bool" where
  "update_matches t v x \<longleftrightarrow> t_id x = t_id t \<and> (v = 0 \<or> t_version x = v)"

definition update_task :: "task \<Rightarrow> int64 \<Rightarrow> 'a pg_state_scheme \<Rightarrow> task result \<times> 'a pg_state_scheme" where
  "update_task t v s =
     (case find (update_matches t v) (pg_tasks s) of
        None \<Rightarrow> (Inl no_rows, s)
      | Some old \<Rightarrow>
          (let row = next_task tz old t in
           if t_version old = 0x7FFFFFFFFFFFFFFF then (Inl (PlainError ''bigint out of range''), s)
           else if \<not> tasks_check row then (Inl check_violation, s)
           else (Inr row, s\<lparr>pg_tasks := sql_update (update_matches t v) (\<lambda>_. row) (pg_tasks s)\<rparr>)))"

definition delete_task :: "uuid \<Rightarrow> 'a pg_state_scheme \<Rightarrow> task result \<times> 'a pg_state_scheme" where
  "delete_task i s =
     (case find (\<lambda>x. t_id x = i) (pg_tasks s) of
        None \<Rightarrow> (Inl no_rows, s)
      | Some old \<Rightarrow> (Inr old, s\<lparr>pg_tasks := filter (\<lambda>x. t_id x \<noteq> i) (pg_tasks s)\<rparr>))"

subsection \<open>The unit of work (tx.go)\<close>

definition AfterCommit :: "bool \<Rightarrow> string \<Rightarrow> 'a pg_state_scheme \<Rightarrow> bool \<times> 'a pg_state_scheme" where
  "AfterCommit joined kind s =
     (if \<not> joined then (False, s) else (True, s\<lparr>pg_after := pg_after s @ [kind]\<rparr>))"

definition RunAfterCommit :: "bool \<Rightarrow> 'a pg_state_scheme \<Rightarrow> 'a pg_state_scheme" where
  "RunAfterCommit joined s =
     (if \<not> joined then s else s\<lparr>pg_after := [], pg_sent := pg_sent s @ pg_after s\<rparr>)"

subsection \<open>The repository (pgrepo.go)\<close>

definition rollback :: "'a pg_state_scheme \<Rightarrow> 'a pg_state_scheme \<Rightarrow> 'a pg_state_scheme" where
  "rollback s s' = s\<lparr>pg_seq := pg_seq s'\<rparr>"

definition stmt_outcome :: "go_error option \<Rightarrow> db_outcome" where
  "stmt_outcome f = (case f of None \<Rightarrow> DbOk | Some e \<Rightarrow> DbFailed e)"

definition enqueue_event ::
  "go_lib \<Rightarrow> pg_ctx \<Rightarrow> string \<Rightarrow> task \<Rightarrow> 'a pg_state_scheme \<Rightarrow> bool result \<times> 'a pg_state_scheme" where
  "enqueue_event lib c name t s =
     (let payload = eventFor name t in
      case Enqueue (pc_marshal c) (stmt_outcome (pc_enqueue c)) (pc_now c) (pg_seq s)
             \<lparr>ob_kind = JobKind, ob_payload = payload, ob_unique_key = event_ID lib payload, ob_max_attempts = 0\<rparr>
             (pg_jobs s) of
        (r, rows) \<Rightarrow> (r, s\<lparr>pg_jobs := rows, pg_seq := pg_seq s + 1\<rparr>))"

text \<open>
  \<open>write\<close>. With \<open>joined\<close>, the transaction is the caller's: nothing is rolled back or committed
  here and the notification is registered instead of sent.
\<close>

definition pg_write ::
  "go_lib \<Rightarrow> bool \<Rightarrow> pg_ctx \<Rightarrow> string \<Rightarrow> ('a pg_state_scheme \<Rightarrow> task result \<times> 'a pg_state_scheme) \<Rightarrow>
   'a pg_state_scheme \<Rightarrow> task result \<times> 'a pg_state_scheme"
where
  "pg_write lib joined c name fn s =
     (let undo = (\<lambda>s'. if joined then s' else rollback s s') in
      case (if joined then None else pc_begin c) of
        Some e \<Rightarrow> (Inl (WrapError ''begin: '' e), s)
      | None \<Rightarrow>
          (case fn s of
             (Inl e, s1) \<Rightarrow> (Inl e, undo s1)
           | (Inr t, s1) \<Rightarrow>
               (case enqueue_event lib c name t s1 of
                  (Inl e, s2) \<Rightarrow> (Inl e, undo s2)
                | (Inr inserted, s2) \<Rightarrow>
                    if joined then (Inr t, snd (AfterCommit joined JobKind s2))
                    else
                      (case pc_commit c of
                         DbFailed e \<Rightarrow> (Inl (WrapError ''commit: '' e), rollback s s2)
                       | DbLost e \<Rightarrow> (Inl (WrapError ''commit: '' e), s2)
                       | DbOk \<Rightarrow> (Inr t, s2\<lparr>pg_sent := pg_sent s2 @ [JobKind]\<rparr>)))))"

definition pgrepo_Create ::
  "go_lib \<Rightarrow> bool \<Rightarrow> pg_ctx \<Rightarrow> task \<Rightarrow> 'a pg_state_scheme \<Rightarrow> task result \<times> 'a pg_state_scheme" where
  "pgrepo_Create lib joined c t =
     pg_write lib joined c EventCreated
       (\<lambda>s. case pc_stmt c of
              Some e \<Rightarrow> (Inl (WrapError ''insert task: '' e), s)
            | None \<Rightarrow>
                (case insert_task t s of
                   (Inl e, s') \<Rightarrow> (Inl (WrapError ''insert task: '' e), s')
                 | (Inr u, s') \<Rightarrow> (Inr u, s')))"

definition classifyMiss :: "pg_ctx \<Rightarrow> uuid \<Rightarrow> 'a pg_state_scheme \<Rightarrow> go_error" where
  "classifyMiss c i s =
     (case pc_miss c of
        Some e \<Rightarrow> WrapError ''classify update miss: '' e
      | None \<Rightarrow> if list_ex (\<lambda>x. t_id x = i) (pg_tasks s) then ErrConflict else ErrNotFound)"

definition pgrepo_Update ::
  "go_lib \<Rightarrow> bool \<Rightarrow> pg_ctx \<Rightarrow> task \<Rightarrow> int64 \<Rightarrow> 'a pg_state_scheme \<Rightarrow> task result \<times> 'a pg_state_scheme" where
  "pgrepo_Update lib joined c t v =
     pg_write lib joined c EventUpdated
       (\<lambda>s. case (case pc_stmt c of Some e \<Rightarrow> (Inl e, s) | None \<Rightarrow> update_task t v s) of
              (Inl e, s') \<Rightarrow>
                (if errors_is_lib e NoRows then Inl (classifyMiss c (t_id t) s')
                 else Inl (WrapError ''update task: '' e), s')
            | (Inr u, s') \<Rightarrow> (Inr u, s'))"

definition pgrepo_Delete ::
  "go_lib \<Rightarrow> bool \<Rightarrow> pg_ctx \<Rightarrow> uuid \<Rightarrow> 'a pg_state_scheme \<Rightarrow> go_error option \<times> 'a pg_state_scheme" where
  "pgrepo_Delete lib joined c i s =
     (case pg_write lib joined c EventDeleted
             (\<lambda>s. case (case pc_stmt c of Some e \<Rightarrow> (Inl e, s) | None \<Rightarrow> delete_task i s) of
                    (Inl e, s') \<Rightarrow>
                      (if errors_is_lib e NoRows then Inl ErrNotFound
                       else Inl (WrapError ''delete task: '' e), s')
                  | (Inr u, s') \<Rightarrow> (Inr u, s')) s of
        (Inl e, s') \<Rightarrow> (Some e, s')
      | (Inr u, s') \<Rightarrow> (None, s'))"

definition pgrepo_Get :: "pg_ctx \<Rightarrow> uuid \<Rightarrow> 'a pg_state_scheme \<Rightarrow> task result" where
  "pgrepo_Get c i s =
     (case pc_stmt c of
        Some e \<Rightarrow> if errors_is_lib e NoRows then Inl ErrNotFound else Inl (WrapError ''get task: '' e)
      | None \<Rightarrow>
          (case find (\<lambda>x. t_id x = i) (pg_tasks s) of
             None \<Rightarrow> Inl ErrNotFound
           | Some t \<Rightarrow> Inr t))"

text \<open>The list query's \<open>WHERE\<close> and \<open>ORDER BY\<close>; a row comparison is lexicographic.\<close>

definition list_where :: "list_query \<Rightarrow> task \<Rightarrow> bool" where
  "list_where q t \<longleftrightarrow>
     (case q_status q of None \<Rightarrow> True | Some st \<Rightarrow> t_status t = st) \<and>
     (cursor_is_zero (q_cursor q) \<or>
      t_created t < tz (c_created (q_cursor q)) \<or>
      t_created t = tz (c_created (q_cursor q)) \<and> t_id t < c_id (q_cursor q))"

definition list_before :: "task \<Rightarrow> task \<Rightarrow> bool" where
  "list_before a b \<longleftrightarrow> t_created a > t_created b \<or> t_created a = t_created b \<and> t_id a > t_id b"

definition pg_page :: "int \<Rightarrow> task list \<Rightarrow> page result" where
  "pg_page limit tasks =
     (if int (length tasks) > limit then
        (if limit < 0 then Inl (PanicError ''slice bounds out of range'')
         else
           (let page = take (nat limit) tasks in
            if page = [] then Inl (PanicError ''index out of range'')
            else Inr \<lparr>p_tasks = page, p_next = CursorOf (page ! (length page - 1))\<rparr>))
      else Inr \<lparr>p_tasks = tasks, p_next = zero_cursor\<rparr>)"

definition pgrepo_List :: "pg_ctx \<Rightarrow> list_query \<Rightarrow> 'a pg_state_scheme \<Rightarrow> page result" where
  "pgrepo_List c q s =
     (case pc_stmt c of
        Some e \<Rightarrow> Inl (WrapError ''list tasks: '' e)
      | None \<Rightarrow>
          if q_limit q + 1 < 0 then Inl (PanicError ''makeslice: cap out of range'')
          else
            pg_page (q_limit q)
              (take (nat (q_limit q + 1)) (sort_by list_before (filter (list_where q) (pg_tasks s)))))"

definition pgrepo :: "go_lib \<Rightarrow> (pg_ctx, 'a pg_state_scheme) repository" where
  "pgrepo lib = \<lparr>r_Create = pgrepo_Create lib False, r_Get = pgrepo_Get,
     r_Update = pgrepo_Update lib False, r_Delete = pgrepo_Delete lib False, r_List = pgrepo_List\<rparr>"

subsection \<open>The tasks table is a map from identifiers to tasks\<close>

definition pg_view :: "'a pg_state_scheme \<Rightarrow> uuid \<Rightarrow> task option" where
  "pg_view s i = sql_find t_id i (pg_tasks s)"

definition pg_inv :: "'a pg_state_scheme \<Rightarrow> bool" where
  "pg_inv s \<longleftrightarrow> distinct (map t_id (pg_tasks s)) \<and> list_all (\<lambda>t. tz (t_created t) = t_created t) (pg_tasks s)"

definition pg_working :: "pg_ctx \<Rightarrow> bool" where
  "pg_working c \<longleftrightarrow> pc_begin c = None \<and> pc_stmt c = None \<and> pc_miss c = None \<and> pc_enqueue c = None \<and>
     pc_commit c = DbOk \<and> (\<forall>e. \<exists>p. pc_marshal c e = Inr p)"

definition pg_lost :: "pg_ctx \<Rightarrow> bool" where
  "pg_lost c \<longleftrightarrow> (\<exists>e. pc_commit c = DbLost e)"

lemma tz_idem [simp]: "tz (tz t) = tz t"
  by (simp add: tz_def)

lemma tz_zero [simp]: "tz 0 = 0"
  by (simp add: tz_def)

lemma find_sql_find: "find (\<lambda>x. t_id x = i) rows = sql_find t_id i rows"
  by (simp add: sql_find_def)

lemma list_ex_sql_find: "list_ex (\<lambda>x. t_id x = i) rows \<longleftrightarrow> sql_find t_id i rows \<noteq> None"
  by (auto simp: sql_find_def find_None_iff list_ex_iff)

lemma sql_find_append:
  "sql_find t_id k (rows @ [r]) = (case sql_find t_id k rows of Some x \<Rightarrow> Some x | None \<Rightarrow> if t_id r = k then Some r else None)"
  by (induction rows) (auto simp: sql_find_def)

lemma sql_find_filter:
  "sql_find t_id k (filter (\<lambda>x. t_id x \<noteq> i) rows) = (if k = i then None else sql_find t_id k rows)"
  by (induction rows) (auto simp: sql_find_def)

lemma find_update_matches:
  assumes "distinct (map t_id rows)"
  shows "find (update_matches t v) rows =
    (case sql_find t_id (t_id t) rows of None \<Rightarrow> None | Some old \<Rightarrow> if version_allows v old then Some old else None)"
  using assms
proof (induction rows)
  case (Cons x xs)
  then have "t_id x = t_id t \<Longrightarrow> find (update_matches t v) xs = None \<and> sql_find t_id (t_id t) xs = None"
    by (auto simp: find_None_iff update_matches_def image_iff sql_find_def)
  moreover have "sql_find t_id (t_id t) (x # xs) = (if t_id x = t_id t then Some x else sql_find t_id (t_id t) xs)"
    by (simp add: sql_find_def)
  ultimately show ?case using Cons by (cases "t_id x = t_id t") 
      (simp_all add: update_matches_def [of t v x] version_allows_def [of v x])
qed (simp add: sql_find_def)

lemma sql_update_matches:
  assumes "distinct (map t_id rows)" and "find (update_matches t v) rows = Some old" and "t_id row = t_id t"
  shows "sql_find t_id k (sql_update (update_matches t v) (\<lambda>_. row) rows) =
      (if k = t_id t then Some row else sql_find t_id k rows)"
    and "map t_id (sql_update (update_matches t v) (\<lambda>_. row) rows) = map t_id rows"
proof -
  show "map t_id (sql_update (update_matches t v) (\<lambda>_. row) rows) = map t_id rows"
    using assms(3) by (simp add: sql_update_def update_matches_def)
  have "sql_find t_id (t_id t) rows = Some old \<and> update_matches t v old"
    using assms(2) find_update_matches [OF assms(1), of t v] find_Some_iff [of "update_matches t v" rows old]
    by (auto split: option.splits if_splits)
  moreover have "sql_find t_id k (sql_update (update_matches t v) (\<lambda>_. row) rows) =
      map_option (\<lambda>r. if update_matches t v r then row else r) (sql_find t_id k rows)"
    using assms(3) by (induction rows) (auto simp: sql_find_def sql_update_def update_matches_def)
  moreover have "\<not> update_matches t v x" if "sql_find t_id k rows = Some x" "k \<noteq> t_id t" for x
    using sql_find_in [OF that(1)] that(2) by (simp add: update_matches_def)
  ultimately show "sql_find t_id k (sql_update (update_matches t v) (\<lambda>_. row) rows) =
      (if k = t_id t then Some row else sql_find t_id k rows)"
    by (cases "sql_find t_id k rows") auto
qed

text \<open>What \<open>write\<close> does to the tasks: the statement's change or nothing.\<close>

lemma enqueue_event_tasks: "enqueue_event lib c name t s = (r, s') \<Longrightarrow> pg_tasks s' = pg_tasks s"
  by (auto simp: enqueue_event_def Let_def split: prod.splits)

lemma pg_write_done:
  assumes "pg_write lib False c name fn s = (Inr u, s')"
  shows "\<exists>s1. fn s = (Inr u, s1) \<and> pg_tasks s' = pg_tasks s1"
  using assms
  by (auto simp: pg_write_def Let_def dest: enqueue_event_tasks
      split: option.splits prod.splits sum.splits db_outcome.splits)

lemma pg_write_failed:
  assumes "pg_write lib False c name fn s = (Inl e, s')"
  shows "pg_tasks s' = pg_tasks s \<or> pg_lost c \<and> (\<exists>u s1. fn s = (Inr u, s1) \<and> pg_tasks s' = pg_tasks s1)"
  using assms
  by (auto simp: pg_write_def Let_def rollback_def pg_lost_def dest: enqueue_event_tasks
      split: option.splits prod.splits sum.splits db_outcome.splits)

lemma enqueue_event_works:
  "pg_working c \<Longrightarrow> \<exists>b s'. enqueue_event lib c name t s = (Inr b, s')"
proof -
  assume w: "pg_working c"
  obtain p where "pc_marshal c (eventFor name t) = Inr p" using w by (auto simp: pg_working_def)
  then show ?thesis using w
    by (auto simp: enqueue_event_def Enqueue_def Let_def pg_working_def stmt_outcome_def new_row_def JobKind_def)
qed

lemma pg_write_works:
  assumes "pg_working c" and "fn s = (Inr u, s1)"
  shows "\<exists>s'. pg_write lib j c name fn s = (Inr u, s')"
proof -
  obtain b s2 where "enqueue_event lib c name u s1 = (Inr b, s2)" using enqueue_event_works [OF assms(1)] by blast
  then show ?thesis using assms by (cases j) (simp_all add: pg_write_def Let_def pg_working_def)
qed

lemma pg_write_refused:
  assumes "pg_working c" and "fn s = (Inl e, s1)"
  shows "fst (pg_write lib False c name fn s) = Inl e"
  using assms by (simp add: pg_write_def Let_def pg_working_def)

text \<open>The three statements, as the repository runs them.\<close>

abbreviation pg_change :: "pg_ctx \<Rightarrow> ('a pg_state_scheme \<Rightarrow> task result \<times> 'a pg_state_scheme) \<Rightarrow>
    'a pg_state_scheme \<Rightarrow> task result \<times> 'a pg_state_scheme" where
  "pg_change c f s \<equiv> (case pc_stmt c of Some e \<Rightarrow> (Inl e, s) | None \<Rightarrow> f s)"

lemma insert_task_done:
  assumes "pg_inv s" and "insert_task t s = (Inr u, s')"
  shows "pg_inv s' \<and> pg_view s (t_id t) = None \<and> u = store_task tz t \<and> pg_view s' = (pg_view s)(t_id t \<mapsto> u)"
proof -
  have s': "s' = s\<lparr>pg_tasks := pg_tasks s @ [store_task tz t]\<rparr>" "u = store_task tz t"
    and none: "sql_find t_id (t_id t) (pg_tasks s) = None"
    using assms(2) by (auto simp: insert_task_def Let_def list_ex_sql_find split: if_splits)
  have "t_id t \<notin> t_id ` set (pg_tasks s)" using none by (auto simp: sql_find_def find_None_iff)
  then have "pg_inv s'" using assms(1) s' by (simp add: pg_inv_def store_task_def)
  moreover have "pg_view s' = (pg_view s)(t_id t \<mapsto> u)"
    using s' none by (auto simp: pg_view_def fun_eq_iff sql_find_append store_task_def split: option.splits)
  ultimately show ?thesis using s' none by (simp add: pg_view_def)
qed

lemma update_task_done:
  assumes "pg_inv s" and "update_task t v s = (Inr u, s')"
  shows "pg_inv s' \<and> (\<exists>old. pg_view s (t_id t) = Some old \<and> version_allows v old \<and> u = next_task tz old t \<and>
    pg_view s' = (pg_view s)(t_id t \<mapsto> u))"
proof -
  have d: "distinct (map t_id (pg_tasks s))" using assms(1) by (simp add: pg_inv_def)
  obtain old where f: "find (update_matches t v) (pg_tasks s) = Some old" and u: "u = next_task tz old t"
    and s': "s' = s\<lparr>pg_tasks := sql_update (update_matches t v) (\<lambda>_. u) (pg_tasks s)\<rparr>"
    using assms(2) by (auto simp: update_task_def Let_def split: option.splits if_splits)
  have i: "t_id u = t_id t" using u by (simp add: next_task_def)
  note m = sql_update_matches [OF d f i]
  have old: "sql_find t_id (t_id t) (pg_tasks s) = Some old" "version_allows v old"
    using f find_update_matches [OF d, of t v] by (auto split: option.splits if_splits)
  have "tz (t_created u) = t_created u"
    using u sql_find_in [OF old(1)] assms(1) by (auto simp: next_task_def pg_inv_def list_all_iff)
  moreover have "distinct (map t_id (pg_tasks s'))" using d s' m(2) by simp
  ultimately have "pg_inv s'"
    using assms(1) s' by (auto simp: pg_inv_def list_all_iff set_sql_update split: if_splits)
  then show ?thesis using old u s' m(1) by (auto simp: pg_view_def fun_eq_iff)
qed

lemma delete_task_done:
  assumes "pg_inv s" and "delete_task i s = (Inr u, s')"
  shows "pg_inv s' \<and> i \<in> dom (pg_view s) \<and> pg_view s' = (pg_view s)(i := None)"
  using assms
  by (auto simp: delete_task_def find_sql_find pg_inv_def pg_view_def fun_eq_iff sql_find_filter
      distinct_map_filter list_all_iff split: option.splits)

text \<open>Only the tasks matter to the view and the invariant.\<close>

lemma pg_tasks_eq:
  "pg_tasks s' = pg_tasks s1 \<Longrightarrow> pg_view s' = pg_view s1" "pg_tasks s' = pg_tasks s1 \<Longrightarrow> pg_inv s' = pg_inv s1"
  by (simp_all add: pg_view_def pg_inv_def fun_eq_iff)

lemma pg_write_failed_as:
  assumes "pg_write lib False c name fn s = (Inl e, s')" and "pg_inv s"
    and "\<And>u s1. fn s = (Inr u, s1) \<Longrightarrow> pg_inv s1 \<and> Q (pg_view s1)"
  shows "pg_inv s' \<and> (pg_view s' = pg_view s \<or> pg_lost c \<and> Q (pg_view s'))"
  using pg_write_failed [OF assms(1)] assms(2,3) pg_tasks_eq by metis

lemma pg_write_done_as:
  assumes "pg_write lib False c name fn s = (Inr u, s')"
    and "\<And>s1. fn s = (Inr u, s1) \<Longrightarrow> pg_inv s1 \<and> Q (pg_view s1)"
  shows "pg_inv s' \<and> Q (pg_view s')"
  using pg_write_done [OF assms(1)] assms(2) pg_tasks_eq by metis

subsection \<open>The list query\<close>

lemma tz_fix_selects:
  assumes "uuid_laws lib" and "tz (c_created (q_cursor q)) = c_created (q_cursor q)"
  shows "list_where q = selects lib q"
  using assms
  by (auto simp: list_where_def selects_def status_matches_def cursor_after_def uuid_laws_def fun_eq_iff
      split: option.splits)

lemma list_before_Less: "uuid_laws lib \<Longrightarrow> list_before = Less lib"
  by (auto simp: list_before_def Less_def uuid_laws_def fun_eq_iff)

lemma pg_all_tasks: "pg_inv s \<Longrightarrow> all_tasks (pg_view s) (pg_tasks s)"
  unfolding all_tasks_def pg_inv_def
proof (intro conjI, simp)
  assume "distinct (map t_id (pg_tasks s)) \<and> list_all (\<lambda>t. tz (t_created t) = t_created t) (pg_tasks s)"
  then show "set (pg_tasks s) = ran (pg_view s)"
    using sql_find_unique sql_find_in by (fastforce simp: ran_def pg_view_def)
qed

lemma limit_page: "1 \<le> l \<Longrightarrow> pg_page l (take (nat (l + 1)) ts) = Inr (page_of (nat l) ts)"
  by (auto simp: pg_page_def page_of_def Let_def min_def)

lemma pgrepo_List_works:
  assumes "pg_inv s" and "pg_working c" and "uuid_laws lib" and "1 \<le> q_limit q"
    and "tz (c_created (q_cursor q)) = c_created (q_cursor q)" and "all_tasks (pg_view s) ts"
  shows "pgrepo_List c q s = Inr (page_of (nat (q_limit q)) (sort_by (Less lib) (filter (selects lib q) ts)))"
proof -
  let ?us = "filter (selects lib q) (pg_tasks s)" and ?ts = "filter (selects lib q) ts"
  have m: "mset ?us = mset ?ts"
    using all_tasks_mset [OF pg_all_tasks [OF assms(1)] assms(6)] by simp
  have d: "distinct (map t_id ?us)" "distinct (map t_id ?ts)"
    using pg_all_tasks [OF assms(1)] assms(6) by (simp_all add: all_tasks_def distinct_map_filter)
  have "sort_by (Less lib) ?us = sort_by (Less lib) ?ts"
    using d mset_eq_setD [OF m] mem.task_keys_distinct [OF assms(3)]
    by (intro newest_first.sort_by_order_irrelevant) blast+
  then show ?thesis
    using assms(2,4) tz_fix_selects [OF assms(3,5)] list_before_Less [OF assms(3)]
    by (simp add: pgrepo_List_def pg_working_def limit_page)
qed

subsection \<open>The backend keeps the repository's promises\<close>

lemma pgrepo_Create_done:
  assumes "pg_inv s" and "pgrepo_Create lib False c t s = (Inr u, s')"
  shows "pg_inv s' \<and> pg_view s (t_id t) = None \<and> u = store_task tz t \<and> pg_view s' = (pg_view s)(t_id t \<mapsto> u)"
  using assms(2) unfolding pgrepo_Create_def
  by (rule pg_write_done_as [where Q = "\<lambda>m. pg_view s (t_id t) = None \<and> u = store_task tz t \<and> m = (pg_view s)(t_id t \<mapsto> u)"])
    (auto dest!: insert_task_done [OF assms(1)] split: option.splits prod.splits sum.splits)

lemma pgrepo_Create_failed:
  assumes "pg_inv s" and "pgrepo_Create lib False c t s = (Inl e, s')"
  shows "pg_inv s' \<and> (pg_view s' = pg_view s \<or> pg_lost c \<and> pg_view s' = (pg_view s)(t_id t \<mapsto> store_task tz t))"
  using assms(2,1) unfolding pgrepo_Create_def
  by (rule pg_write_failed_as)
    (auto dest!: insert_task_done [OF assms(1)] split: option.splits prod.splits sum.splits)

lemma pgrepo_Update_done:
  assumes "pg_inv s" and "pgrepo_Update lib False c t v s = (Inr u, s')"
  shows "pg_inv s' \<and> (\<exists>old. pg_view s (t_id t) = Some old \<and> version_allows v old \<and> u = next_task tz old t \<and>
    pg_view s' = (pg_view s)(t_id t \<mapsto> u))"
  using assms(2) unfolding pgrepo_Update_def
  by (rule pg_write_done_as [where Q = "\<lambda>m. \<exists>old. pg_view s (t_id t) = Some old \<and> version_allows v old \<and>
      u = next_task tz old t \<and> m = (pg_view s)(t_id t \<mapsto> u)"])
    (auto dest!: update_task_done [OF assms(1)] split: option.splits prod.splits sum.splits if_splits)

lemma pgrepo_Update_failed:
  assumes "pg_inv s" and "pgrepo_Update lib False c t v s = (Inl e, s')"
  shows "pg_inv s' \<and> (pg_view s' = pg_view s \<or> pg_lost c \<and> (\<exists>old. pg_view s (t_id t) = Some old \<and>
    pg_view s' = (pg_view s)(t_id t \<mapsto> next_task tz old t)))"
  using assms(2,1) unfolding pgrepo_Update_def
  by (rule pg_write_failed_as [where Q = "\<lambda>m. \<exists>old. pg_view s (t_id t) = Some old \<and>
      m = (pg_view s)(t_id t \<mapsto> next_task tz old t)"])
    (auto dest!: update_task_done [OF assms(1)] split: option.splits prod.splits sum.splits if_splits)

lemma pgrepo_Delete_done:
  assumes "pg_inv s" and "pgrepo_Delete lib False c i s = (None, s')"
  shows "pg_inv s' \<and> i \<in> dom (pg_view s) \<and> pg_view s' = (pg_view s)(i := None)"
proof -
  obtain u where w: "pg_write lib False c EventDeleted
      (\<lambda>s. case pg_change c (delete_task i) s of
             (Inl e, s') \<Rightarrow> (if errors_is_lib e NoRows then Inl ErrNotFound else Inl (WrapError ''delete task: '' e), s')
           | (Inr u, s') \<Rightarrow> (Inr u, s')) s = (Inr u, s')"
    using assms(2) by (auto simp: pgrepo_Delete_def split: prod.splits sum.splits)
  show ?thesis
    by (rule pg_write_done_as [OF w, where Q = "\<lambda>m. i \<in> dom (pg_view s) \<and> m = (pg_view s)(i := None)"])
      (auto dest!: delete_task_done [OF assms(1)] split: option.splits prod.splits sum.splits if_splits)
qed

lemma pgrepo_Delete_failed:
  assumes "pg_inv s" and "pgrepo_Delete lib False c i s = (Some e, s')"
  shows "pg_inv s' \<and> (pg_view s' = pg_view s \<or> pg_lost c \<and> pg_view s' = (pg_view s)(i := None))"
proof -
  have w: "pg_write lib False c EventDeleted
      (\<lambda>s. case pg_change c (delete_task i) s of
             (Inl e, s') \<Rightarrow> (if errors_is_lib e NoRows then Inl ErrNotFound else Inl (WrapError ''delete task: '' e), s')
           | (Inr u, s') \<Rightarrow> (Inr u, s')) s = (Inl e, s')"
    using assms(2) by (auto simp: pgrepo_Delete_def split: prod.splits sum.splits)
  show ?thesis
    by (rule pg_write_failed_as [OF w assms(1)])
      (auto dest!: delete_task_done [OF assms(1)] split: option.splits prod.splits sum.splits if_splits)
qed

definition pg_storable :: "task \<Rightarrow> bool" where
  "pg_storable t \<longleftrightarrow> tasks_check t"

lemma errors_is_no_rows [simp]: "errors_is_lib no_rows NoRows"
  by (simp add: errors_is_lib_def no_rows_def)

lemma pgrepo_Create_works:
  assumes "pg_working c" and "pg_storable t" and "pg_view s (t_id t) = None"
  shows "\<exists>s'. pgrepo_Create lib j c t s = (Inr (store_task tz t), s')"
proof -
  have i: "insert_task t s = (Inr (store_task tz t), s\<lparr>pg_tasks := pg_tasks s @ [store_task tz t]\<rparr>)"
    using assms(2,3) by (simp add: insert_task_def pg_storable_def tasks_check_def store_task_def Let_def
        list_ex_sql_find pg_view_def)
  show ?thesis unfolding pgrepo_Create_def
    by (rule pg_write_works [OF assms(1)])
      (use assms(1) i in \<open>simp add: pg_working_def\<close>)
qed

lemma update_task_miss:
  assumes "pg_inv s"
  shows "update_task t v s = (Inl no_rows, s) \<longleftrightarrow>
    (case pg_view s (t_id t) of None \<Rightarrow> True | Some old \<Rightarrow> \<not> version_allows v old)"
  using find_update_matches [of "pg_tasks s" t v] assms
  by (auto simp: update_task_def pg_inv_def pg_view_def no_rows_def check_violation_def Let_def
      split: option.splits if_splits)

lemma pgrepo_Update_miss:
  assumes "pg_inv s" and "pg_working c"
    and "case pg_view s (t_id t) of None \<Rightarrow> True | Some old \<Rightarrow> \<not> version_allows v old"
  shows "fst (pgrepo_Update lib False c t v s) = Inl (if pg_view s (t_id t) = None then ErrNotFound else ErrConflict)"
proof -
  have m: "update_task t v s = (Inl no_rows, s)" using update_task_miss [OF assms(1)] assms(3) by simp
  show ?thesis unfolding pgrepo_Update_def
    by (rule pg_write_refused [OF assms(2), where ?s1.0 = s])
      (use m assms(2) in \<open>simp add: pg_working_def classifyMiss_def list_ex_sql_find pg_view_def\<close>)
qed

lemma pgrepo_Update_missing:
  "pg_inv s \<Longrightarrow> pg_working c \<Longrightarrow> pg_view s (t_id t) = None \<Longrightarrow> fst (pgrepo_Update lib False c t v s) = Inl ErrNotFound"
  using pgrepo_Update_miss [where s = s and c = c and t = t and v = v and lib = lib] by simp

lemma pgrepo_Update_stale:
  "pg_inv s \<Longrightarrow> pg_working c \<Longrightarrow> pg_view s (t_id t) = Some old \<Longrightarrow> \<not> version_allows v old \<Longrightarrow>
   fst (pgrepo_Update lib False c t v s) = Inl ErrConflict"
  using pgrepo_Update_miss [where s = s and c = c and t = t and v = v and lib = lib] by simp

lemma pgrepo_Update_works:
  assumes "pg_inv s" and "pg_working c" and "pg_storable t" and "pg_view s (t_id t) = Some old"
    and "version_allows v old" and "t_version old \<noteq> 0x7FFFFFFFFFFFFFFF"
  shows "\<exists>u s'. pgrepo_Update lib False c t v s = (Inr u, s')"
proof -
  have "find (update_matches t v) (pg_tasks s) = Some old"
    using find_update_matches [of "pg_tasks s" t v] assms(1,4,5) by (simp add: pg_inv_def pg_view_def)
  then have i: "update_task t v s = (Inr (next_task tz old t),
      s\<lparr>pg_tasks := sql_update (update_matches t v) (\<lambda>_. next_task tz old t) (pg_tasks s)\<rparr>)"
    using assms(3,6) by (simp add: update_task_def pg_storable_def tasks_check_def next_task_def Let_def)
  show ?thesis unfolding pgrepo_Update_def
    by (rule exI [of _ "next_task tz old t"], rule pg_write_works [OF assms(2)])
      (use assms(2) i in \<open>simp add: pg_working_def\<close>)
qed

lemma pgrepo_Delete_answers:
  assumes "pg_working c"
  shows "fst (pgrepo_Delete lib False c i s) = (if pg_view s i = None then Some ErrNotFound else None)"
proof (cases "pg_view s i")
  case None
  then have "delete_task i s = (Inl no_rows, s)" by (simp add: delete_task_def find_sql_find pg_view_def)
  then show ?thesis
    using None assms by (simp add: pgrepo_Delete_def pg_write_def pg_working_def Let_def)
next
  case (Some old)
  then have d: "delete_task i s = (Inr old, s\<lparr>pg_tasks := filter (\<lambda>x. t_id x \<noteq> i) (pg_tasks s)\<rparr>)"
    by (simp add: delete_task_def find_sql_find pg_view_def)
  then have "\<exists>s'. pg_write lib False c EventDeleted
      (\<lambda>s. case pg_change c (delete_task i) s of
             (Inl e, s') \<Rightarrow> (if errors_is_lib e NoRows then Inl ErrNotFound else Inl (WrapError ''delete task: '' e), s')
           | (Inr u, s') \<Rightarrow> (Inr u, s')) s = (Inr old, s')"
    using assms by (intro pg_write_works [OF assms]) (simp add: pg_working_def)
  then show ?thesis using Some by (auto simp: pgrepo_Delete_def)
qed

interpretation pg: task_repository "pgrepo lib" lib pg_inv pg_view tz pg_storable pg_working pg_lost for lib
proof (unfold_locales, goal_cases)
  case (1 s i t)
  then show ?case using sql_find_in [of t_id i "pg_tasks s" t] by (simp add: pg_view_def)
next
  case (2 s i t)
  then show ?case using sql_find_in [of t_id i "pg_tasks s" t] by (auto simp: pg_view_def pg_inv_def list_all_iff)
next
  case (3)
  then show ?case by simp
next
  case (4 c)
  then show ?case by (simp add: pg_working_def pg_lost_def)
next
  case (5 s)
  then show ?case using pg_all_tasks by blast
next
  case (6 s c t u s')
  then show ?case using pgrepo_Create_done by (simp add: pgrepo_def)
next
  case (7 s c t e s')
  then show ?case using pgrepo_Create_failed by (simp add: pgrepo_def)
next
  case (8 s c t)
  then show ?case using pgrepo_Create_works [of c t s lib False] by (auto simp: pgrepo_def)
next
  case (9 s c i t)
  then show ?case by (auto simp: pgrepo_def pgrepo_Get_def find_sql_find pg_view_def split: option.splits if_splits)
next
  case (10 s c i)
  then show ?case
    by (auto simp: pgrepo_def pgrepo_Get_def find_sql_find pg_view_def pg_working_def split: option.splits)
next
  case (11 s c t v u s')
  then show ?case using pgrepo_Update_done by (simp add: pgrepo_def)
next
  case (12 s c t v e s')
  then show ?case using pgrepo_Update_failed by (simp add: pgrepo_def)
next
  case 13
  then show ?case using pgrepo_Update_missing by (simp add: pgrepo_def)
next
  case 14
  then show ?case using pgrepo_Update_stale by (simp add: pgrepo_def)
next
  case (15 s c t old v)
  then show ?case using pgrepo_Update_works by (simp add: pgrepo_def)
next
  case (16 s c i s')
  then show ?case using pgrepo_Delete_done by (simp add: pgrepo_def)
next
  case (17 s c i e s')
  then show ?case using pgrepo_Delete_failed by (simp add: pgrepo_def)
next
  case (18 s c i)
  then show ?case by (simp add: pgrepo_def pgrepo_Delete_answers)
next
  case (19 s c i t)
  then show ?case by (simp add: pgrepo_def pgrepo_Delete_answers)
next
  case (20 s c q ts)
  then show ?case using pgrepo_List_works by (simp add: pgrepo_def)
qed

end
