(* ===== verification/Outbox.thy ===== *)
theory Outbox
  imports Pgrepo
begin

text \<open>
  What the Postgres backend guarantees: the service's contract, through the interpretation of the
  repository interface, and the transactional outbox (a change and its job exist together or not at
  all, under every failure of a statement or of the commit), with event identifiers that tell any
  two changes apart.
\<close>

subsection \<open>Example data\<close>

definition demo_pg_ctx :: pg_ctx where
  "demo_pg_ctx = \<lparr>pc_begin = None, pc_stmt = None, pc_miss = None, pc_enqueue = None, pc_commit = DbOk,
     pc_now = 5000, pc_marshal = (\<lambda>e. Inr ''{}'')\<rparr>"

definition demo_pg_task :: "nat \<Rightarrow> task" where
  "demo_pg_task n = \<lparr>t_id = word_of_nat n, t_name = ''task'', t_status = 0, t_created = int n * 1000,
     t_updated = int n * 1000, t_version = 1\<rparr>"

definition demo_pg :: pg_state where
  "demo_pg = \<lparr>pg_tasks = map demo_pg_task [2, 1, 3], pg_jobs = [], pg_seq = 1, pg_after = [], pg_sent = []\<rparr>"

lemma demo_pg_inv: "pg_inv demo_pg"
  by (simp add: pg_inv_def demo_pg_def demo_pg_task_def tz_def)

lemma demo_pg_working: "pg_working demo_pg_ctx"
  by (simp add: pg_working_def demo_pg_ctx_def)

lemma demo_pg_ran: "ran (pg_view demo_pg) = {demo_pg_task 2, demo_pg_task 1, demo_pg_task 3}"
  using pg_all_tasks [OF demo_pg_inv] by (auto simp: all_tasks_def demo_pg_def)

subsection \<open>The service's contract\<close>

text \<open>
  C15: Following page tokens over the Postgres backend returns every task of the requested status exactly once,
  newest first, whatever order the rows are stored in, within one request more than there are rows.
\<close>
theorem pgrepo_pagination_complete:
  assumes "pg_inv s" and "pg_working c" and "uuid_laws lib" and "time_laws lib"
    and "\<forall>x. st = Some x \<longrightarrow> status_valid x" and "0 \<le> n" and "n \<le> MaxPageSize"
    and "\<forall>t \<in> ran (pg_view s). t_id t \<noteq> uuid_Nil \<and> rfc3339_range (t_created t)"
    and "length (pg_tasks s) < m"
  shows "\<exists>ts. follow m (pgrepo lib) lib c st n [] s = Some (Inr ts) \<and>
    distinct (map t_id ts) \<and> set ts = {t \<in> set (pg_tasks s). status_matches st t} \<and> sorted_wrt (Less lib) ts"
proof -
  let ?us = "filter (status_matches st) (pg_tasks s)"
  have all: "all_tasks (pg_view s) (pg_tasks s)" by (rule pg_all_tasks) fact
  obtain limit where l: "clampLimit n = Inr limit" using clampLimit_accepts assms(6,7) by blast
  have d: "distinct (map t_id ?us)" using all unfolding all_tasks_def by (blast intro: distinct_map_filter)
  then have "sorted_wrt (Less lib) (sort_by (Less lib) ?us)"
    by (intro newest_first.sort_by_sorted mem.task_keys_distinct [OF assms(3)])
  moreover have "mset (map t_id (sort_by (Less lib) ?us)) = mset (map t_id ?us)" by (simp only: mset_map mset_sort_by)
  then have "distinct (map t_id (sort_by (Less lib) ?us))" using d by (metis mset_eq_imp_distinct_iff)
  moreover have "set (sort_by (Less lib) ?us) = {t \<in> set (pg_tasks s). status_matches st t}" by auto
  ultimately show ?thesis using pg.follow_complete [OF assms(1-4) all assms(5) l assms(8,9)] by blast
qed

theorem pgrepo_pagination_complete_witness:
  "\<exists>ts. follow 4 (pgrepo std_lib) std_lib demo_pg_ctx None 2 [] demo_pg = Some (Inr ts) \<and>
    distinct (map t_id ts) \<and> set ts = {t \<in> set (pg_tasks demo_pg). status_matches None t} \<and>
    sorted_wrt (Less std_lib) ts"
proof -
  have ok: "\<forall>t \<in> ran (pg_view demo_pg). t_id t \<noteq> uuid_Nil \<and> rfc3339_range (t_created t)"
    by (simp add: demo_pg_ran demo_pg_task_def rfc3339_range_def)
  show ?thesis
    by (rule pgrepo_pagination_complete [OF demo_pg_inv demo_pg_working std_uuid_laws std_time_laws _ _ _ ok])
      (simp_all add: demo_pg_def)
qed

text \<open>
  C13: Optimistic locking over Postgres: once one writer has updated a task from a version it read, a second
  update naming the same version is refused as a conflict and leaves the tasks alone; without an
  expected version the last write wins and the version still counts every update.
\<close>
theorem pgrepo_versions:
  assumes "pg_inv s" and "service_Update (pgrepo lib) lib c now inp s = (Inr u, s')"
    and "ui_id inp' = ui_id inp" and "update_valid inp'" and "pg_working c'"
    and "tasks_check \<lparr>t_id = ui_id inp', t_name = ui_name inp', t_status = ui_status inp',
         t_created = 0, t_updated = now', t_version = 0\<rparr>"
  shows "(ui_expected inp \<noteq> 0 \<and> ui_expected inp' = ui_expected inp \<longrightarrow>
      (\<exists>e s''. service_Update (pgrepo lib) lib c' now' inp' s' = (Inl e, s'') \<and> KindOf (Some e) = Conflict \<and>
        pg_view s'' = pg_view s')) \<and>
    (ui_expected inp' = 0 \<and> t_version u \<noteq> 0x7FFFFFFFFFFFFFFF \<longrightarrow>
      (\<exists>w s''. service_Update (pgrepo lib) lib c' now' inp' s' = (Inr w, s'') \<and> t_version w = t_version u + 1 \<and>
        t_name w = ui_name inp' \<and> t_created w = t_created u))"
proof -
  let ?t = "\<lparr>t_id = ui_id inp', t_name = ui_name inp', t_status = ui_status inp',
         t_created = 0, t_updated = now', t_version = 0\<rparr>"
  have st: "pg_storable ?t" using assms(6) by (simp add: pg_storable_def)
  from pg.service_update_done [OF assms(1,2)] have d: "pg_inv s'" "pg_view s' (ui_id inp) = Some u" by auto
  have "\<exists>e s''. service_Update (pgrepo lib) lib c' now' inp' s' = (Inl e, s'') \<and> KindOf (Some e) = Conflict \<and>
      pg_view s'' = pg_view s'" if "ui_expected inp \<noteq> 0" "ui_expected inp' = ui_expected inp"
    using pg.service_no_lost_update [OF assms(1,2) that(1) assms(3) that(2) assms(4,5) st] .
  moreover have "\<exists>w s''. service_Update (pgrepo lib) lib c' now' inp' s' = (Inr w, s'') \<and> t_version w = t_version u + 1 \<and>
        t_name w = ui_name inp' \<and> t_created w = t_created u"
    if z: "ui_expected inp' = 0" "t_version u \<noteq> 0x7FFFFFFFFFFFFFFF"
  proof -
    have "\<exists>w s''. r_Update (pgrepo lib) c' ?t (ui_expected inp') s' = (Inr w, s'')"
      by (rule pg.update_works [OF d(1) assms(5) st, of u])
        (use d(2) assms(3) z in \<open>simp_all add: version_allows_def\<close>)
    then obtain w s'' where "r_Update (pgrepo lib) c' ?t (ui_expected inp') s' = (Inr w, s'')" by blast
    then have r: "service_Update (pgrepo lib) lib c' now' inp' s' = (Inr w, s'')"
      using assms(4) by (simp add: service_Update_valid)
    from pg.service_update_done [OF d(1) r] d(2) assms(3) r show ?thesis by auto
  qed
  ultimately show ?thesis by blast
qed

lemma demo_update_valid:
  "update_valid \<lparr>ui_id = 2, ui_name = ''a'', ui_status = 1, ui_expected = 1\<rparr>"
  by (simp add: update_valid_def demo_name_ok status_valid_def word_sless_alt)

theorem pgrepo_versions_witness:
  "\<exists>u s' e s''. service_Update (pgrepo std_lib) std_lib demo_pg_ctx 7000
       \<lparr>ui_id = 2, ui_name = ''a'', ui_status = 1, ui_expected = 1\<rparr> demo_pg = (Inr u, s') \<and>
     service_Update (pgrepo std_lib) std_lib demo_pg_ctx 8000
       \<lparr>ui_id = 2, ui_name = ''a'', ui_status = 1, ui_expected = 1\<rparr> s' = (Inl e, s'') \<and> KindOf (Some e) = Conflict"
proof -
  let ?inp = "\<lparr>ui_id = 2, ui_name = ''a'', ui_status = 1, ui_expected = 1\<rparr>"
  have st: "tasks_check \<lparr>t_id = 2, t_name = ''a'', t_status = 1, t_created = 0, t_updated = n, t_version = 0\<rparr>" for n
    by (simp add: tasks_check_def utf8_length_def)
  have "\<exists>u s'. r_Update (pgrepo std_lib) demo_pg_ctx \<lparr>t_id = 2, t_name = ''a'', t_status = 1, t_created = 0,
      t_updated = 7000, t_version = 0\<rparr> 1 demo_pg = (Inr u, s')"
    by (rule pg.update_works [OF demo_pg_inv demo_pg_working, of _ "demo_pg_task 2"])
      (use st [of 7000] in \<open>simp_all add: pg_storable_def demo_pg_task_def pg_view_def demo_pg_def sql_find_def
        version_allows_def\<close>)
  then obtain u s' where "r_Update (pgrepo std_lib) demo_pg_ctx \<lparr>t_id = 2, t_name = ''a'', t_status = 1, t_created = 0,
      t_updated = 7000, t_version = 0\<rparr> 1 demo_pg = (Inr u, s')" by blast
  then have u: "service_Update (pgrepo std_lib) std_lib demo_pg_ctx 7000 ?inp demo_pg = (Inr u, s')"
    by (simp add: service_Update_valid demo_update_valid)
  show ?thesis
    using pgrepo_versions [OF demo_pg_inv u _ demo_update_valid demo_pg_working, of 8000] u st [of 8000] by fastforce
qed

subsection \<open>The transactional outbox\<close>

lemma event_ID_not_Nil [simp]: "event_ID lib e \<noteq> []"
  by (simp add: event_ID_def)

text \<open>After a successful enqueue the event's job is live in the table, inserted now or before.\<close>

lemma enqueue_event_queued:
  assumes "enqueue_event lib c name t s = (Inr inserted, s')"
  shows "\<exists>j \<in> set (pg_jobs s'). live (j_state j) \<and> j_unique_key j = Some (event_ID lib (eventFor name t))"
proof -
  let ?key = "Some (event_ID lib (eventFor name t))"
  obtain p where "pg_jobs s' = pg_jobs s \<and> key_taken ?key (pg_jobs s) \<or>
      pg_jobs s' = pg_jobs s @ [new_row (pg_seq s) (pc_now c) JobKind p (event_ID lib (eventFor name t)) 0]"
    using assms
    by (cases "pc_enqueue c")
      (auto simp: enqueue_event_def Enqueue_def Let_def stmt_outcome_def new_row_def split: sum.splits if_splits prod.splits)
  then show ?thesis by (auto simp: key_taken_def list_ex_iff new_row_def live_def)
qed

lemma enqueue_event_frame:
  "enqueue_event lib c name t s = (r, s') \<Longrightarrow> pg_tasks s' = pg_tasks s \<and> pg_sent s' = pg_sent s \<and> pg_after s' = pg_after s"
  by (auto simp: enqueue_event_def Let_def split: prod.splits)

text \<open>
  C2: The transactional outbox: a write in its own transaction either leaves tasks, jobs and notifications as they
  were and reports an error, or makes the task change and leaves a live job for exactly that event in the table.
  There is no outcome with one and not the other, whichever statement fails; the caller is told of a change that
  was made, unless the commit's answer is lost; and workers are notified only after the commit.
\<close>
theorem outbox_atomic:
  assumes "pg_write lib False c name fn s = (r, s')"
  shows "(\<exists>e. r = Inl e) \<and> pg_tasks s' = pg_tasks s \<and> pg_jobs s' = pg_jobs s \<and> pg_sent s' = pg_sent s \<or>
    (\<exists>t s1. fn s = (Inr t, s1) \<and> pg_tasks s' = pg_tasks s1 \<and>
      (\<exists>j \<in> set (pg_jobs s'). live (j_state j) \<and> j_unique_key j = Some (event_ID lib (eventFor name t))) \<and>
      (r = Inr t \<and> pg_sent s' = pg_sent s1 @ [JobKind] \<or> (\<exists>e. r = Inl e) \<and> pg_lost c \<and> pg_sent s' = pg_sent s1))"
proof -
  consider e where "r = Inl e" "s' = s \<or> (\<exists>s2. s' = rollback s s2)"
    | t s1 b s2 where "fn s = (Inr t, s1)" "enqueue_event lib c name t s1 = (Inr b, s2)"
        "r = Inr t \<and> s' = s2\<lparr>pg_sent := pg_sent s2 @ [JobKind]\<rparr> \<or> (\<exists>e. r = Inl e) \<and> pg_lost c \<and> s' = s2"
    using assms
    by (auto simp: pg_write_def Let_def pg_lost_def split: option.splits prod.splits sum.splits db_outcome.splits)
  then show ?thesis
  proof cases
    case 1
    then show ?thesis by (auto simp: rollback_def)
  next
    case 2
    note q = enqueue_event_queued [OF 2(2)] and f = enqueue_event_frame [OF 2(2)]
    from 2(3) have "pg_tasks s' = pg_tasks s1 \<and> pg_jobs s' = pg_jobs s2 \<and>
        (r = Inr t \<and> pg_sent s' = pg_sent s1 @ [JobKind] \<or> (\<exists>e. r = Inl e) \<and> pg_lost c \<and> pg_sent s' = pg_sent s1)"
      using f by auto
    with q 2(1) show ?thesis by auto
  qed
qed

theorem outbox_atomic_witness:
  "\<exists>r s'. pgrepo_Create std_lib False demo_pg_ctx (demo_pg_task 9) demo_pg = (Inr r, s') \<and>
     (\<exists>j \<in> set (pg_jobs s'). live (j_state j) \<and> j_unique_key j = Some (event_ID std_lib (eventFor EventCreated r)))"
proof -
  have "pg_storable (demo_pg_task 9)" "pg_view demo_pg (t_id (demo_pg_task 9)) = None"
    by (simp_all add: pg_storable_def tasks_check_def utf8_length_def demo_pg_task_def pg_view_def sql_find_def demo_pg_def)
  then obtain r s' where c: "pgrepo_Create std_lib False demo_pg_ctx (demo_pg_task 9) demo_pg = (Inr r, s')"
    using pgrepo_Create_works [OF demo_pg_working] by blast
  from outbox_atomic [OF c [unfolded pgrepo_Create_def]] c show ?thesis by auto
qed

text \<open>Nothing in an identifier's first two parts is a colon.\<close>

lemma colon_free: "uuid_laws lib \<Longrightarrow> CHR '':'' \<notin> set (uuid_string lib u)"
proof
  assume "uuid_laws lib" and "CHR '':'' \<in> set (uuid_string lib u)"
  then have "CHR '':'' \<in> set ''0123456789abcdef-''" unfolding uuid_laws_def by blast
  then show False by simp
qed

text \<open>
  An event identifier names exactly one change: two events about task changes have the same identifier only if they
  are the same kind of change to the same task at the same version, so neither the outbox's deduplication key nor the
  receiver's ever drops a distinct change, a deletion right after an update included.
\<close>
theorem event_ID_injective:
  assumes "uuid_laws lib" and "event_ID lib a = event_ID lib b"
    and "{ev_event a, ev_event b} \<subseteq> {EventCreated, EventUpdated, EventDeleted}"
  shows "ev_event a = ev_event b \<and> ev_task_id a = ev_task_id b \<and> ev_version a = ev_version b"
proof -
  have no: "CHR '':'' \<notin> set (ev_event a)" "CHR '':'' \<notin> set (ev_event b)"
    using assms(3) by (auto simp: EventCreated_def EventUpdated_def EventDeleted_def)
  have "ev_event a = ev_event b \<and> uuid_string lib (ev_task_id a) @ CHR '':'' # itoa (sint (ev_version a)) =
      uuid_string lib (ev_task_id b) @ CHR '':'' # itoa (sint (ev_version b))"
    using assms(2) append_sep_inject [OF _ no] by (simp add: event_ID_def)
  moreover from this have "uuid_string lib (ev_task_id a) = uuid_string lib (ev_task_id b) \<and>
      itoa (sint (ev_version a)) = itoa (sint (ev_version b))"
    using append_sep_inject [OF _ colon_free [OF assms(1)] colon_free [OF assms(1)]] by blast
  ultimately show ?thesis using uuid_string_inject [OF assms(1)] by (auto intro: signed_word_eqI)
qed

theorem event_ID_injective_witness:
  "event_ID std_lib (eventFor EventUpdated (demo_pg_task 1)) \<noteq> event_ID std_lib (eventFor EventDeleted (demo_pg_task 1))"
  using event_ID_injective [OF std_uuid_laws, of "eventFor EventUpdated (demo_pg_task 1)" "eventFor EventDeleted (demo_pg_task 1)"]
  by (auto simp: eventFor_def EventUpdated_def EventDeleted_def)

end
