(* ===== verification/Webhook.thy ===== *)
theory Webhook
  imports Outbox Pool
begin

text \<open>
  The one job handler of the service: \<open>internal/queue/handler/webhook.go\<close>, which delivers task
  events to an HTTP endpoint, and what its results mean to the worker pool.

  The HTTP client and the resilience chain (\<open>failsafe-go\<close>, assembled in
  \<open>internal/resilience\<close>) are parameters. The client answers a request with a status or fails. The
  chain is given the outcome of every attempt it might make and says how many it made and what
  came of it; \<open>guard_laws\<close> is what the documentation of its policies promises, derived from the laws of the
  single policies in \<open>Resilience\<close>. The observer is left out.
\<close>

subsection \<open>Deliveries\<close>

record delivery =
  dl_url :: string
  dl_Content_Type :: string
  dl_Idempotency_Key :: string
  dl_Event_Id :: string
  dl_body :: string

record guard =
  gd_Name :: string
  gd_Run :: "(nat \<Rightarrow> go_error option) \<Rightarrow> nat \<times> go_error option"
  gd_RemainingDelay :: duration

record webhook_env =
  we_decode :: "string \<Rightarrow> event result"
  we_marshal :: "event \<Rightarrow> string result"
  we_request :: "string \<Rightarrow> go_error option"
  we_get_body :: "nat \<Rightarrow> go_error option"
  we_do :: "nat \<Rightarrow> delivery \<Rightarrow> int result"

record webhook =
  wh_url :: string
  wh_timeout :: duration
  wh_guard :: "guard option"

definition IsDependencyFailure :: "go_error option \<Rightarrow> bool" where
  "IsDependencyFailure err = (case err of None \<Rightarrow> False | Some e \<Rightarrow> \<not> IsTerminal e)"

definition classify :: "int \<Rightarrow> go_error option" where
  "classify status =
     (if status \<ge> 200 \<and> status < 300 then None
      else if status = 429 then Some (New Exhausted ''webhook rate limited'')
      else if status \<ge> 500 then Some (New Unavailable (''webhook returned '' @ itoa status))
      else if status \<ge> 400 then
        Some (Terminal (Some (New Invalid (''webhook rejected the event with '' @ itoa status))))
      else Some (New Unavailable (''webhook returned '' @ itoa status)))"

definition resultOf :: "go_error option \<Rightarrow> string" where
  "resultOf err =
     (case err of None \<Rightarrow> ''success'' | Some e \<Rightarrow> if IsTerminal e then ''rejected'' else ''failure'')"

definition send :: "webhook_env \<Rightarrow> nat \<Rightarrow> delivery \<Rightarrow> go_error option" where
  "send env n req =
     (case we_do env n req of
        Inl e \<Rightarrow> Some (Wrap Unavailable e ''webhook delivery failed'')
      | Inr status \<Rightarrow> classify status)"

text \<open>A fresh copy of the request for one attempt, its body rewound.\<close>

definition rewind :: "webhook_env \<Rightarrow> nat \<Rightarrow> delivery \<Rightarrow> delivery result" where
  "rewind env n req =
     (case we_get_body env n of
        Some e \<Rightarrow> Inl (WrapError ''rewind request body: '' e)
      | None \<Rightarrow> Inr req)"

definition webhook_attempt :: "webhook_env \<Rightarrow> delivery \<Rightarrow> nat \<Rightarrow> go_error option" where
  "webhook_attempt env req n =
     (case rewind env n req of Inl e \<Rightarrow> Some (Terminal (Some e)) | Inr req' \<Rightarrow> send env n req')"

definition deliver :: "webhook \<Rightarrow> webhook_env \<Rightarrow> delivery \<Rightarrow> go_error option" where
  "deliver w env req =
     (case wh_guard w of
        None \<Rightarrow> send env 0 req
      | Some g \<Rightarrow>
          (case snd (gd_Run g (webhook_attempt env req)) of
             None \<Rightarrow> None
           | Some e \<Rightarrow>
               if errors_is_lib e CircuitOpen then
                 Some (Snooze (gd_RemainingDelay g) (''circuit breaker open for '' @ gd_Name g))
               else if errors_is_lib e BudgetExceeded then
                 Some (Snooze (wh_timeout w) (''retry budget exhausted for '' @ gd_Name g))
               else Some e))"

definition delivery_of :: "go_lib \<Rightarrow> webhook \<Rightarrow> job \<Rightarrow> event \<Rightarrow> string \<Rightarrow> delivery" where
  "delivery_of lib w j ev body =
     \<lparr>dl_url = wh_url w, dl_Content_Type = ''application/json'',
      dl_Idempotency_Key = itoa (job_id j) @ '':'' @ itoa (job_attempt j),
      dl_Event_Id = event_ID lib ev, dl_body = body\<rparr>"

definition Handle :: "go_lib \<Rightarrow> webhook \<Rightarrow> webhook_env \<Rightarrow> job \<Rightarrow> go_error option" where
  "Handle lib w env j =
     (case jsonPayload (we_decode env) j of
        Inl e \<Rightarrow> Some e
      | Inr ev \<Rightarrow>
          if wh_url w = [] then None
          else
            (case we_marshal env ev of
               Inl e \<Rightarrow> Some (Terminal (Some (WrapError ''marshal event: '' e)))
             | Inr body \<Rightarrow>
                 (case we_request env (wh_url w) of
                    Some e \<Rightarrow> Some (Terminal (Some (WrapError ''build request: '' e)))
                  | None \<Rightarrow> deliver w env (delivery_of lib w j ev body))))"

subsection \<open>What the resilience chain promises\<close>

text \<open>
  What the chain sees of an attempt is the attempt's own outcome, or the timeout's error when the attempt took
  too long, whatever it would have answered. The chain makes another attempt only after one it saw as a failure
  of the dependency. It returns what it saw last, as it is or, once the attempts are used up, wrapped into the
  retry policy's own error; or it refuses to go on, with the breaker's error (wrapped likewise) or the budget's.
\<close>

definition timed_out :: "go_error option \<Rightarrow> bool" where
  "timed_out res \<longleftrightarrow> (\<exists>t. res = Some (LibError TimeLimitExceeded t))"

definition returned_as :: "go_error option \<Rightarrow> go_error option \<Rightarrow> bool" where
  "returned_as res out \<longleftrightarrow> out = res \<or> (\<exists>t e. res = Some e \<and> out = Some (WrapError t e))"

definition refusal :: "go_error option \<Rightarrow> bool" where
  "refusal res \<longleftrightarrow> (\<exists>t. returned_as (Some (LibError CircuitOpen t)) res) \<or> (\<exists>t. res = Some (LibError BudgetExceeded t))"

definition guard_laws :: "guard \<Rightarrow> bool" where
  "guard_laws g \<longleftrightarrow>
     (\<forall>f n res. gd_Run g f = (n, res) \<longrightarrow>
        (\<exists>seen. (\<forall>k < n. seen k = f k \<or> timed_out (seen k)) \<and>
           (\<forall>k. Suc k < n \<longrightarrow> IsDependencyFailure (seen k)) \<and>
           (n > 0 \<and> returned_as (seen (n - 1)) res \<or> refusal res)))"

text \<open>Errors of the HTTP transport are not the queue's own, nor the chain's.\<close>

definition of_chain :: "go_error \<Rightarrow> bool" where
  "of_chain e \<longleftrightarrow> errors_is_lib e CircuitOpen \<or> errors_is_lib e BudgetExceeded \<or> errors_is_lib e TimeLimitExceeded"

definition foreign_error :: "go_error \<Rightarrow> bool" where
  "foreign_error e \<longleftrightarrow> \<not> errors_is e ErrTerminal \<and> as_snooze e = None \<and> \<not> of_chain e"

lemma chain_AppError: "chain (AppError k f m c) = AppError k f m c # (case c of None \<Rightarrow> [] | Some e \<Rightarrow> chain e)"
  by (cases c) simp_all

lemma errors_is_terminal_App:
  "errors_is (AppError k f m c) ErrTerminal \<longleftrightarrow> (case c of None \<Rightarrow> False | Some e \<Rightarrow> errors_is e ErrTerminal)"
  by (cases c) (auto simp: errors_is_def app_is_def as_app_def chain_AppError)

lemma snooze_App:
  "as_snooze (AppError k f m c) = (case c of None \<Rightarrow> None | Some e \<Rightarrow> as_snooze e)"
  by (cases c) (auto simp: as_snooze_def)

lemma IsTerminal_Terminal: "IsTerminal (Terminal (Some e))"
  by (simp add: IsTerminal_def Terminal_def errors_is_def)

lemma Retryable_App: "Retryable (Some (AppError k f m c)) = kind_retryable k"
  by (simp add: Retryable_def)

text \<open>The queue's view of an error: retry it, give up on it, or wait.\<close>

definition transient :: "go_error \<Rightarrow> bool" where
  "transient e \<longleftrightarrow> retryable e \<and> as_snooze e = None"

definition fatal :: "go_error \<Rightarrow> bool" where
  "fatal e \<longleftrightarrow> \<not> retryable e \<and> as_snooze e = None \<and> IsTerminal e"

definition rejected :: "int \<Rightarrow> bool" where
  "rejected st \<longleftrightarrow> 400 \<le> st \<and> st < 500 \<and> st \<noteq> 429"

definition accepted :: "int \<Rightarrow> bool" where
  "accepted st \<longleftrightarrow> 200 \<le> st \<and> st < 300"

lemma error_WrapError [simp]:
  "errors_is_lib (WrapError t e) l = errors_is_lib e l" "as_snooze (WrapError t e) = as_snooze e"
  "IsTerminal (WrapError t e) = IsTerminal e" "retryable (WrapError t e) = retryable e"
  "transient (WrapError t e) = transient e" "fatal (WrapError t e) = fatal e"
  by (simp_all add: errors_is_lib_def as_snooze_def IsTerminal_def retryable_def transient_def fatal_def)

lemma transient_New: "kind_retryable k \<Longrightarrow> transient (New k m)"
  by (simp add: transient_def New_def retryable_def IsTerminal_def errors_is_terminal_App Retryable_App snooze_App)

lemma fatal_Terminal: "fatal (Terminal (Some (New k m)))"
  by (simp add: fatal_def retryable_def IsTerminal_Terminal) (simp add: Terminal_def New_def as_snooze_def)

lemma transient_Wrap: "foreign_error e \<Longrightarrow> kind_retryable k \<Longrightarrow> transient (Wrap k e m)"
  by (simp add: transient_def Wrap_def foreign_error_def retryable_def IsTerminal_def errors_is_terminal_App Retryable_App
      snooze_App)

lemma transient_TimeLimit: "transient (LibError TimeLimitExceeded t)"
  by (simp add: transient_def retryable_def IsTerminal_def errors_is_def Retryable_def KindOf_def as_app_def as_snooze_def
      kind_retryable_def normalize_def)

lemma kinds_retryable: "kind_retryable Exhausted" "kind_retryable Unavailable"
  by (simp_all add: kind_retryable_def normalize_def)

text \<open>What one attempt's answer means.\<close>

lemma classify_verdict:
  "classify st = None \<and> accepted st \<or> (\<exists>e. classify st = Some e \<and> fatal e \<and> rejected st) \<or>
   (\<exists>e. classify st = Some e \<and> transient e \<and> \<not> accepted st \<and> \<not> rejected st)"
  by (auto simp: classify_def accepted_def rejected_def transient_New kinds_retryable fatal_Terminal)

lemma send_verdict:
  assumes "\<And>e. we_do env n req = Inl e \<Longrightarrow> foreign_error e"
  shows "(case we_do env n req of
      Inl e \<Rightarrow> \<exists>e'. send env n req = Some e' \<and> transient e'
    | Inr st \<Rightarrow>
        if accepted st then send env n req = None
        else if rejected st then \<exists>e'. send env n req = Some e' \<and> fatal e'
        else \<exists>e'. send env n req = Some e' \<and> transient e')"
proof (cases "we_do env n req")
  case (Inl e)
  with assms show ?thesis by (simp add: send_def transient_Wrap kinds_retryable)
next
  case (Inr st)
  have "\<not> (accepted st \<and> rejected st)" by (auto simp: accepted_def rejected_def)
  with Inr classify_verdict [of st] show ?thesis by (auto simp: send_def)
qed

text \<open>What a delivery ended with: a refusal of the chain, an attempt that took too long, or the endpoint's answer.\<close>

datatype delivery_end = Refused | TimedOut | Answered "int result"

definition delivery_ended :: "webhook \<Rightarrow> webhook_env \<Rightarrow> delivery \<Rightarrow> delivery_end" where
  "delivery_ended w env req =
     (case wh_guard w of
        None \<Rightarrow> Answered (we_do env 0 req)
      | Some g \<Rightarrow>
          (case gd_Run g (webhook_attempt env req) of
             (n, None) \<Rightarrow> Answered (we_do env (n - 1) req)
           | (n, Some e) \<Rightarrow>
               if errors_is_lib e CircuitOpen \<or> errors_is_lib e BudgetExceeded then Refused
               else if errors_is_lib e TimeLimitExceeded then TimedOut
               else Answered (we_do env (n - 1) req)))"

lemma lib_errors: "errors_is_lib (LibError l t) l' \<longleftrightarrow> l = l'"
  by (simp add: errors_is_lib_def)

lemma send_not_chain:
  assumes "\<And>e. we_do env n req = Inl e \<Longrightarrow> foreign_error e" and "send env n req = Some e"
  shows "\<not> of_chain e"
  using assms
  by (auto simp: send_def foreign_error_def of_chain_def classify_def New_def Wrap_def Terminal_def errors_is_lib_def
      split: sum.splits if_splits)

lemma guard_verdict:
  assumes "guard_laws g" and "gd_Run g f = (n, res)" and "\<And>k e. f k = Some e \<Longrightarrow> \<not> of_chain e"
  shows "case res of
      None \<Rightarrow> f (n - 1) = None
    | Some e \<Rightarrow>
        if errors_is_lib e CircuitOpen \<or> errors_is_lib e BudgetExceeded then True
        else if errors_is_lib e TimeLimitExceeded then transient e
        else returned_as (f (n - 1)) (Some e)"
proof -
  obtain seen where seen: "\<And>k. k < n \<Longrightarrow> seen k = f k \<or> timed_out (seen k)"
    "n > 0 \<and> returned_as (seen (n - 1)) res \<or> refusal res"
    using assms(1,2) unfolding guard_laws_def by blast
  show ?thesis
  proof (cases "refusal res")
    case True
    then show ?thesis by (auto simp: refusal_def returned_as_def lib_errors)
  next
    case False
    then have n: "n > 0" "returned_as (seen (n - 1)) res" using seen(2) by simp_all
    from seen(1) [of "n - 1"] n(1) consider "seen (n - 1) = f (n - 1)" | "timed_out (seen (n - 1))" by auto
    then show ?thesis
    proof cases
      case 1
      then show ?thesis using n(2) assms(3) [of "n - 1"] by (auto simp: returned_as_def of_chain_def split: option.splits)
    next
      case 2
      then show ?thesis using n(2) by (auto simp: timed_out_def returned_as_def lib_errors transient_TimeLimit)
    qed
  qed
qed

lemma deliver_verdict:
  assumes "\<And>n. we_get_body env n = None" and "\<And>n e. we_do env n req = Inl e \<Longrightarrow> foreign_error e"
    and "\<And>g. wh_guard w = Some g \<Longrightarrow> guard_laws g"
  shows "case delivery_ended w env req of
      Refused \<Rightarrow> \<exists>d why. deliver w env req = Some (SnoozeError d why)
    | TimedOut \<Rightarrow> \<exists>e. deliver w env req = Some e \<and> transient e
    | Answered a \<Rightarrow> \<exists>n. a = we_do env n req \<and> returned_as (send env n req) (deliver w env req)"
proof (cases "wh_guard w")
  case None
  then show ?thesis by (auto simp: delivery_ended_def deliver_def returned_as_def)
next
  case (Some g)
  obtain n res where run: "gd_Run g (webhook_attempt env req) = (n, res)" by fastforce
  have att: "webhook_attempt env req k = send env k req" for k
    by (simp add: webhook_attempt_def rewind_def assms(1))
  have "case res of None \<Rightarrow> send env (n - 1) req = None
    | Some e \<Rightarrow> if errors_is_lib e CircuitOpen \<or> errors_is_lib e BudgetExceeded then True
        else if errors_is_lib e TimeLimitExceeded then transient e else returned_as (send env (n - 1) req) (Some e)"
    using guard_verdict [OF assms(3) [OF Some] run] send_not_chain assms(2) unfolding att by blast
  then show ?thesis
    using Some run by (cases res) (auto simp: delivery_ended_def deliver_def Snooze_def returned_as_def)
qed

lemma pool_write_transient:
  "transient e \<Longrightarrow> fst (pool_write cfg wk k db now j (Some e) rows) =
     (if job_attempt j \<ge> maxAttempts cfg j then OutcomeDiscarded else OutcomeRetried)"
  by (simp add: pool_write_def transient_def)

lemma pool_write_fatal: "fatal e \<Longrightarrow> fst (pool_write cfg wk k db now j (Some e) rows) = OutcomeCancelled"
  by (simp add: pool_write_def fatal_def)

lemma Handle_deliver:
  assumes "wh_url w \<noteq> []" and "we_decode env (job_payload j) = Inr ev" and "we_marshal env ev = Inr body"
    and "we_request env (wh_url w) = None"
  shows "Handle lib w env j = deliver w env (delivery_of lib w j ev body)"
  using assms by (simp add: Handle_def jsonPayload_def)

lemma pool_write_answer:
  assumes "\<And>e. we_do env n req = Inl e \<Longrightarrow> foreign_error e" and "returned_as (send env n req) cause"
  shows "fst (pool_write cfg wk k db now j cause rows) =
    (let give_up = (if job_attempt j \<ge> maxAttempts cfg j then OutcomeDiscarded else OutcomeRetried) in
     case we_do env n req of
       Inl e \<Rightarrow> give_up
     | Inr st \<Rightarrow> if accepted st then OutcomeSucceeded else if rejected st then OutcomeCancelled else give_up)"
proof -
  let ?out = "fst (pool_write cfg wk k db now j cause rows)"
  let ?give_up = "if job_attempt j \<ge> maxAttempts cfg j then OutcomeDiscarded else OutcomeRetried"
  have v: "case we_do env n req of
      Inl e \<Rightarrow> \<exists>e'. send env n req = Some e' \<and> transient e'
    | Inr st \<Rightarrow>
        if accepted st then send env n req = None
        else if rejected st then \<exists>e'. send env n req = Some e' \<and> fatal e'
        else \<exists>e'. send env n req = Some e' \<and> transient e'"
    using assms(1) by (rule send_verdict)
  have ok: "send env n req = None \<Longrightarrow> ?out = OutcomeSucceeded"
    using assms(2) by (simp add: returned_as_def pool_write_def)
  have again: "send env n req = Some e \<Longrightarrow> transient e \<Longrightarrow> ?out = ?give_up" for e
    using assms(2) by (auto simp: returned_as_def pool_write_transient)
  have never: "send env n req = Some e \<Longrightarrow> fatal e \<Longrightarrow> ?out = OutcomeCancelled" for e
    using assms(2) by (auto simp: returned_as_def pool_write_fatal)
  show ?thesis
  proof (cases "we_do env n req")
    case (Inl e)
    with v again show ?thesis unfolding Let_def by auto
  next
    case (Inr st)
    consider "accepted st" | "\<not> accepted st" "rejected st" | "\<not> accepted st" "\<not> rejected st" by blast
    then show ?thesis
    proof cases
      case 1
      then show ?thesis using v ok Inr by simp
    next
      case 2
      then show ?thesis using v never Inr by auto
    next
      case 3
      then show ?thesis using v again Inr unfolding Let_def by auto
    qed
  qed
qed

text \<open>
  C33: What a delivery ended with decides the job. A delivery whose last attempt was answered in time with a success
  finishes the job; one rejected with a 4xx other than 429, which is the payload's fault, cancels it at once; a 429, a
  5xx, any other status, a transport failure, or an attempt the chain's timeout cut off, even one the endpoint would
  have accepted, is retried until the job's attempts are used up and then discarded, also when the chain returns it
  wrapped into the error of its exhausted retries; and a delivery the chain refused to go on with, by an open circuit
  or an exhausted budget, only puts the job back. The HTTP client's errors are none of the queue's or the chain's own.
\<close>
theorem webhook_outcomes:
  assumes "wh_url w \<noteq> []" and "we_decode env (job_payload j) = Inr ev" and "we_marshal env ev = Inr body"
    and "we_request env (wh_url w) = None" and "\<And>n. we_get_body env n = None"
    and "\<And>n e. we_do env n (delivery_of lib w j ev body) = Inl e \<Longrightarrow> foreign_error e"
    and "\<And>g. wh_guard w = Some g \<Longrightarrow> guard_laws g"
  shows "fst (pool_write cfg wk k db now j (Handle lib w env j) rows) =
    (let give_up = (if job_attempt j \<ge> maxAttempts cfg j then OutcomeDiscarded else OutcomeRetried) in
     case delivery_ended w env (delivery_of lib w j ev body) of
       Refused \<Rightarrow> OutcomeSnoozed
     | TimedOut \<Rightarrow> give_up
     | Answered (Inl e) \<Rightarrow> give_up
     | Answered (Inr st) \<Rightarrow> if accepted st then OutcomeSucceeded else if rejected st then OutcomeCancelled else give_up)"
proof -
  let ?req = "delivery_of lib w j ev body"
  have h: "Handle lib w env j = deliver w env ?req" by (rule Handle_deliver [OF assms(1-4)])
  have v: "case delivery_ended w env ?req of
      Refused \<Rightarrow> \<exists>d why. deliver w env ?req = Some (SnoozeError d why)
    | TimedOut \<Rightarrow> \<exists>e. deliver w env ?req = Some e \<and> transient e
    | Answered a \<Rightarrow> \<exists>n. a = we_do env n ?req \<and> returned_as (send env n ?req) (deliver w env ?req)"
    using assms(5-7) by (intro deliver_verdict) blast+
  show ?thesis
  proof (cases "delivery_ended w env ?req")
    case Refused
    with v obtain d why where "deliver w env ?req = Some (SnoozeError d why)" by auto
    then show ?thesis using Refused h by (simp add: pool_write_def as_snooze_def)
  next
    case TimedOut
    with v h show ?thesis by (auto simp: pool_write_transient)
  next
    case (Answered a)
    with v obtain n where n: "a = we_do env n ?req" "returned_as (send env n ?req) (deliver w env ?req)" by auto
    show ?thesis
      unfolding h using pool_write_answer [OF assms(6) n(2)] Answered n(1) by (cases a) (simp_all add: Let_def)
  qed
qed

text \<open>
  A chain that makes at most two attempts, stops at the first that is not the dependency's fault, and returns the
  error of exhausted retries after a second failure. \<open>slow\<close> says which attempts take too long.
\<close>

definition demo_guard :: "(nat \<Rightarrow> bool) \<Rightarrow> guard" where
  "demo_guard slow = \<lparr>gd_Name = ''webhook'',
     gd_Run = (\<lambda>f.
       let seen = (\<lambda>k. if slow k then Some (LibError TimeLimitExceeded ''timeout exceeded'') else f k) in
       if IsDependencyFailure (seen 0)
       then (2, if IsDependencyFailure (seen 1) then map_option (WrapError ''retries exceeded: '') (seen 1) else seen 1)
       else (1, seen 0)),
     gd_RemainingDelay = 30 * second\<rparr>"

definition open_guard :: guard where
  "open_guard = (demo_guard (\<lambda>_. False))\<lparr>gd_Run := (\<lambda>f. (0, Some (LibError CircuitOpen ''circuit breaker open'')))\<rparr>"

definition demo_webhook :: "guard \<Rightarrow> webhook" where
  "demo_webhook g = \<lparr>wh_url = ''http://sink'', wh_timeout = 5 * second, wh_guard = Some g\<rparr>"

definition demo_webhook_env :: "(nat \<Rightarrow> int result) \<Rightarrow> webhook_env" where
  "demo_webhook_env answers = \<lparr>we_decode = (\<lambda>p. Inr (eventFor EventCreated (demo_pg_task 9))), we_marshal = (\<lambda>e. Inr ''{}''),
     we_request = (\<lambda>u. None), we_get_body = (\<lambda>n. None), we_do = (\<lambda>n req. answers n)\<rparr>"

definition demo_delivery_job :: job where
  "demo_delivery_job = \<lparr>job_id = 7, job_kind = JobKind, job_payload = ''{}'', job_attempt = 1, job_max_attempts = 5\<rparr>"

lemma demo_guard_laws: "guard_laws (demo_guard slow)" "guard_laws open_guard"
proof -
  show "guard_laws (demo_guard slow)"
    unfolding guard_laws_def
  proof (intro allI impI)
    fix f n res assume "gd_Run (demo_guard slow) f = (n, res)"
    then show "\<exists>seen. (\<forall>k<n. seen k = f k \<or> timed_out (seen k)) \<and> (\<forall>k. Suc k < n \<longrightarrow> IsDependencyFailure (seen k)) \<and>
        (n > 0 \<and> returned_as (seen (n - 1)) res \<or> refusal res)"
      by (intro exI [of _ "\<lambda>k. if slow k then Some (LibError TimeLimitExceeded ''timeout exceeded'') else f k"])
        (auto simp: demo_guard_def Let_def timed_out_def returned_as_def less_Suc_eq numeral_2_eq_2 map_option_case
          split: if_splits option.splits)
  qed
  show "guard_laws open_guard" by (auto simp: guard_laws_def open_guard_def refusal_def returned_as_def)
qed

text \<open>Two 503s in a row, a rejection, and a success that came too late twice.\<close>

theorem webhook_outcomes_witness:
  "fst (pool_write queue_defaults ''w'' 0 DbOk 0 demo_delivery_job
     (Handle std_lib (demo_webhook (demo_guard (\<lambda>_. False))) (demo_webhook_env (\<lambda>n. Inr 503)) demo_delivery_job) []) = OutcomeRetried \<and>
   fst (pool_write queue_defaults ''w'' 0 DbOk 0 demo_delivery_job
     (Handle std_lib (demo_webhook (demo_guard (\<lambda>_. False))) (demo_webhook_env (\<lambda>n. Inr 404)) demo_delivery_job) []) = OutcomeCancelled \<and>
   fst (pool_write queue_defaults ''w'' 0 DbOk 0 demo_delivery_job
     (Handle std_lib (demo_webhook (demo_guard (\<lambda>_. True))) (demo_webhook_env (\<lambda>n. Inr 200)) demo_delivery_job) []) = OutcomeRetried"
proof -
  let ?j = demo_delivery_job
  have out: "fst (pool_write queue_defaults ''w'' 0 DbOk 0 ?j
      (Handle std_lib (demo_webhook (demo_guard slow)) (demo_webhook_env (\<lambda>n. Inr st)) ?j) []) =
    (let give_up = (if job_attempt ?j \<ge> maxAttempts queue_defaults ?j then OutcomeDiscarded else OutcomeRetried) in
     case delivery_ended (demo_webhook (demo_guard slow)) (demo_webhook_env (\<lambda>n. Inr st))
         (delivery_of std_lib (demo_webhook (demo_guard slow)) ?j (eventFor EventCreated (demo_pg_task 9)) ''{}'') of
       Refused \<Rightarrow> OutcomeSnoozed
     | TimedOut \<Rightarrow> give_up
     | Answered (Inl e) \<Rightarrow> give_up
     | Answered (Inr st) \<Rightarrow> if accepted st then OutcomeSucceeded else if rejected st then OutcomeCancelled else give_up)"
    for st slow
    by (rule webhook_outcomes) (auto simp: demo_webhook_def demo_webhook_env_def demo_guard_laws)
  note demo = delivery_ended_def demo_webhook_def demo_guard_def demo_webhook_env_def webhook_attempt_def rewind_def send_def
    classify_def New_def Terminal_def IsDependencyFailure_def IsTerminal_def errors_is_def app_is_def as_app_def Let_def
    errors_is_lib_def
  have "delivery_ended (demo_webhook (demo_guard (\<lambda>_. False))) (demo_webhook_env (\<lambda>n. Inr 503)) req = Answered (Inr 503)"
    "delivery_ended (demo_webhook (demo_guard (\<lambda>_. False))) (demo_webhook_env (\<lambda>n. Inr 404)) req = Answered (Inr 404)"
    "delivery_ended (demo_webhook (demo_guard (\<lambda>_. True))) (demo_webhook_env (\<lambda>n. Inr 200)) req = TimedOut" for req
    by (simp_all add: demo)
  then show ?thesis unfolding out
    by (simp add: Let_def accepted_def rejected_def demo_delivery_job_def maxAttempts_def queue_defaults_def)
qed

subsection \<open>An outage costs no attempts\<close>

text \<open>
  C34: An open circuit costs a job nothing but time. When the resilience chain refuses a delivery because the circuit is open, the worker that still holds the job puts it back as scheduled for when the circuit will probe again, with the attempt it was claimed for returned and nothing added to its error history, so that the next claim makes the same attempt again.\<close>
theorem open_circuit_spares_attempts:
  assumes "wh_url w \<noteq> []" and "we_decode env (job_payload j) = Inr ev" and "we_marshal env ev = Inr body"
    and "we_request env (wh_url w) = None" and "wh_guard w = Some g"
    and "gd_Run g (webhook_attempt env (delivery_of lib w j ev body)) = (n, Some e)"
    and "distinct (map j_id rows)" and "r \<in> set rows" and "claimGuard wk j r" and "errors_is_lib e CircuitOpen"
  shows "\<exists>rows' r'. finish cfg wk k DbOk now j (Handle lib w env j) rows = (OutcomeSnoozed, rows') \<and> r' \<in> set rows' \<and>
    j_id r' = job_id j \<and> j_state r' = StateScheduled \<and> j_attempt r' = job_attempt j - 1 \<and>
    j_scheduled_at r' = now + gd_RemainingDelay g \<and> j_errors r' = j_errors r"
proof -
  have "Handle lib w env j = Some (SnoozeError (gd_RemainingDelay g) (''circuit breaker open for '' @ gd_Name g))"
    using assms(5,6,10) by (simp add: Handle_deliver [OF assms(1-4)] deliver_def Snooze_def)
  moreover have "sql_count (claimGuard wk j) rows = 1"
    using sql_count_key_iff [OF assms(7), of "claimGuard wk j" "job_id j"] assms(8,9) by (auto simp: claimGuard_def)
  ultimately have "finish cfg wk k DbOk now j (Handle lib w env j) rows = (OutcomeSnoozed,
      sql_update (claimGuard wk j) (\<lambda>r. unlock (r\<lparr>j_state := StateScheduled, j_attempt := j_attempt r - 1,
        j_scheduled_at := now + gd_RemainingDelay g\<rparr>)) rows)"
    by (simp add: finish_def pool_write_def as_snooze_def Store_Snooze_def guarded_def)
  moreover have "unlock (r\<lparr>j_state := StateScheduled, j_attempt := j_attempt r - 1, j_scheduled_at := now + gd_RemainingDelay g\<rparr>)
      \<in> set (sql_update (claimGuard wk j) (\<lambda>r. unlock (r\<lparr>j_state := StateScheduled, j_attempt := j_attempt r - 1,
        j_scheduled_at := now + gd_RemainingDelay g\<rparr>)) rows)"
    using assms(8,9) by (auto simp: set_sql_update intro!: image_eqI [of _ _ r])
  ultimately show ?thesis using assms(9) by (fastforce simp: claimGuard_def unlock_def)
qed

text \<open>A row the example's worker holds.\<close>

definition demo_held_row :: job_row where
  "demo_held_row = (new_row 7 0 JobKind ''{}'' ''k'' 0)\<lparr>j_state := StateRunning, j_attempt := 1, j_locked_by := Some ''w''\<rparr>"

theorem open_circuit_spares_attempts_witness:
  "\<exists>rows' r'. finish queue_defaults ''w'' 0 DbOk 100 demo_delivery_job
      (Handle std_lib (demo_webhook open_guard) (demo_webhook_env (\<lambda>n. Inr 200)) demo_delivery_job) [demo_held_row] =
      (OutcomeSnoozed, rows') \<and> r' \<in> set rows' \<and> j_attempt r' = 0 \<and> j_scheduled_at r' = 100 + 30 * second"
proof -
  let ?w = "demo_webhook open_guard" and ?env = "demo_webhook_env (\<lambda>n. Inr 200)" and ?j = demo_delivery_job
  have run: "gd_Run open_guard (webhook_attempt ?env (delivery_of std_lib ?w ?j (eventFor EventCreated (demo_pg_task 9)) ''{}'')) =
      (0, Some (LibError CircuitOpen ''circuit breaker open''))"
    by (simp add: open_guard_def)
  have "\<exists>rows' r'. finish queue_defaults ''w'' 0 DbOk 100 ?j (Handle std_lib ?w ?env ?j) [demo_held_row] = (OutcomeSnoozed, rows') \<and>
      r' \<in> set rows' \<and> j_id r' = job_id ?j \<and> j_state r' = StateScheduled \<and> j_attempt r' = job_attempt ?j - 1 \<and>
      j_scheduled_at r' = 100 + gd_RemainingDelay open_guard \<and> j_errors r' = j_errors demo_held_row"
    by (rule open_circuit_spares_attempts [OF _ _ _ _ _ run])
      (simp_all add: lib_errors demo_webhook_def demo_webhook_env_def demo_held_row_def demo_delivery_job_def new_row_def claimGuard_def)
  then show ?thesis by (fastforce simp: demo_delivery_job_def open_guard_def demo_guard_def)
qed

end
