(* ===== verification/Delivery.thy ===== *)
theory Delivery
  imports Pool_Loop Webhook
begin

text \<open>
  The whole path of an event, from the repository's write (\<open>internal/task/pgrepo/pgrepo.go\<close>) through the outbox
  and the claim loop (\<open>internal/queue/pool.go\<close>) to the webhook handler and the completion write. Nothing is
  modelled here that is not in the theories of those parts; the lemmas say what one part leaves for the next:
  a claimed row stays held for the worker until the worker writes its completion, and running one job does not
  touch the row of another.
\<close>

subsection \<open>Rows held for a worker\<close>

definition held :: "string \<Rightarrow> jobs \<Rightarrow> job \<Rightarrow> string option \<Rightarrow> bool" where
  "held w rows j key \<longleftrightarrow> (\<exists>r \<in> set rows. claimGuard w j r \<and> j_unique_key r = key)"

text \<open>
  An environment that leaves one job alone: the database answers, the pool is not stopping, nobody holds the job's
  row locked, and between two batches the others neither touch the row while it is available nor take it from this
  worker once it is held. Of every other row they may do what they like, locking, claiming and deleting included, as
  long as the backlog does not grow meanwhile.
\<close>

definition spares :: "string \<Rightarrow> int \<Rightarrow> time \<Rightarrow> claim_env \<Rightarrow> bool" where
  "spares w i t e \<longleftrightarrow> \<not> ce_stopped e \<and> ce_stop e = None \<and> ce_claim_db e = DbOk \<and> \<not> ce_locked e i \<and>
     t \<le> ce_now e \<and> \<not> ce_ctx_done e \<and> \<not> ce_draining e \<and>
     (\<forall>fs rows rows'. distinct (map j_id rows) \<longrightarrow> rows' = snd (ce_others e (fs, rows)) \<longrightarrow>
        distinct (map j_id rows') \<and> backlog rows' \<le> backlog rows \<and>
        (\<forall>r \<in> available rows. j_id r = i \<longrightarrow> r \<in> set rows') \<and>
        (\<forall>j key. job_id j = i \<longrightarrow> held w rows j key \<longrightarrow> held w rows' j key))"

lemma held_not_claimed:
  assumes "distinct (map j_id rows)" and "ids = claim_ids locked b now rows" and "held w rows j key"
  shows "job_id j \<notin> set ids"
proof
  obtain r where r: "r \<in> set rows" "claimGuard w j r" using assms(3) by (auto simp: held_def)
  assume "job_id j \<in> set ids"
  then obtain r' where "r' \<in> set rows" "j_id r' = j_id r" "claimable now r'"
    using claim_ids_rows r(2) unfolding assms(2) claimGuard_def by metis
  then have "claimable now r" using distinct_key_eq [OF assms(1)] r(1) by metis
  then show False using claimGuard_running [OF r(2)] by (simp add: claimable_def)
qed

lemma claim_keeps_held:
  assumes "distinct (map j_id rows)" and "ids = claim_ids locked b now rows" and "held w rows j key"
  shows "held w (sql_update (\<lambda>r. j_id r \<in> set ids) f rows) j key"
proof -
  obtain r where r: "r \<in> set rows" "claimGuard w j r" "j_unique_key r = key" using assms(3) by (auto simp: held_def)
  then have "j_id r \<notin> set ids" using held_not_claimed [OF assms] by (simp add: claimGuard_def)
  then have "r \<in> set (sql_update (\<lambda>r. j_id r \<in> set ids) f rows)" using r(1) by (force simp: set_sql_update)
  then show ?thesis using r(2,3) by (auto simp: held_def)
qed

lemma claim_ids_room:
  assumes "length (claim_ids locked b now rows) < b" and "r \<in> set rows" and "claimable now r" and "\<not> locked (j_id r)"
  shows "j_id r \<in> set (claim_ids locked b now rows)"
  using assms by (simp add: claim_ids_def)

lemma claim_row_guard: "claimGuard w (next_job r) (claim_row w lease now r)"
  by (simp add: claimGuard_def next_job_def claim_row_def job_of_def)

text \<open>One batch: what it hands out, and that it leaves what it does not hand out as it is.\<close>

lemma claim_once_spares:
  assumes "spares w i t e" and "distinct (map j_id rows)" and "0 < qc_claim_batch cfg"
    and "claim_once cfg w e fs rows = (again, ds, fs', rows')"
  shows "\<exists>ids. ids = claim_ids (ce_locked e) (nat (qc_claim_batch cfg)) (ce_now e) rows \<and>
    rows' = sql_update (\<lambda>r. j_id r \<in> set ids) (claim_row w (qc_lease cfg) (ce_now e)) rows \<and>
    ds = map job_of (filter (\<lambda>r. j_id r \<in> set ids) rows') \<and> again = (int (length ids) = qc_claim_batch cfg) \<and>
    distinct (map j_id rows')"
proof -
  define ids where "ids = claim_ids (ce_locked e) (nat (qc_claim_batch cfg)) (ce_now e) rows"
  define rows1 where "rows1 = sql_update (\<lambda>r. j_id r \<in> set ids) (claim_row w (qc_lease cfg) (ce_now e)) rows"
  let ?hit = "filter (\<lambda>r. j_id r \<in> set ids) rows1"
  have same: "map j_id rows1 = map j_id rows" unfolding rows1_def by (simp add: sql_update_ids claim_row_def)
  have "set ids \<subseteq> j_id ` set rows" using claim_ids_rows unfolding ids_def by blast
  then have "set ids \<subseteq> j_id ` set rows1" using same by (metis set_map)
  then have len: "length ?hit = length ids"
    using assms(2) same claim_ids_distinct unfolding ids_def by (intro claim_hits_length) simp_all
  have "Claim DbOk (ce_locked e) (ce_now e) w (nat (qc_claim_batch cfg)) (qc_lease cfg) rows = (Inr (map job_of ?hit), rows1)"
    by (simp add: Claim_def Let_def flip: ids_def rows1_def)
  then have "rows' = rows1 \<and> ds = map job_of ?hit \<and> again = (int (length ids) = qc_claim_batch cfg)"
    using assms(1,3,4) len
    by (cases "map job_of ?hit") (auto simp: spares_def claim_once_def claimBatch_def dispatch_None)
  then show ?thesis using ids_def rows1_def same assms(2) by metis
qed

lemma claimed_job_row:
  assumes "j \<in> set (map job_of (filter (\<lambda>r. j_id r \<in> set ids) (sql_update (\<lambda>r. j_id r \<in> set ids) (claim_row w lease now) rows)))"
  shows "\<exists>r \<in> set rows. j = next_job r \<and> j_id r \<in> set ids"
proof -
  obtain x where x: "x \<in> set (sql_update (\<lambda>r. j_id r \<in> set ids) (claim_row w lease now) rows)" "j_id x \<in> set ids" "j = job_of x"
    using assms by auto
  then obtain r where "r \<in> set rows" "x = (if j_id r \<in> set ids then claim_row w lease now r else r)"
    by (auto simp: set_sql_update)
  with x(2,3) show ?thesis by (auto simp: job_of_claim_row split: if_splits)
qed

text \<open>Once a job is held, the loop does not hand it out again and the worker still holds it at the end.\<close>

lemma claim_batches_held:
  assumes "\<And>k. spares w (job_id J) t (env k)" and "0 < qc_claim_batch cfg" and "distinct (map j_id rows)" and "held w rows J key"
  shows "\<exists>i' js fs' rows'. claim_batches cfg w env i acc fs rows = Some (False, i', acc @ js, fs', rows') \<and>
    (\<forall>j \<in> set js. job_id j \<noteq> job_id J) \<and> held w rows' J key"
  using assms(3,4)
proof (induction "backlog rows" arbitrary: i acc fs rows rule: less_induct)
  case less
  obtain again ds fs1 rows1 where c: "claim_once cfg w (env i) fs rows = (again, ds, fs1, rows1)" by (metis prod.exhaust)
  obtain fs2 rows2 where o: "ce_others (env i) (fs1, rows1) = (fs2, rows2)" by (metis prod.exhaust)
  obtain ids where ids: "ids = claim_ids (ce_locked (env i)) (nat (qc_claim_batch cfg)) (ce_now (env i)) rows"
    and rows1: "rows1 = sql_update (\<lambda>r. j_id r \<in> set ids) (claim_row w (qc_lease cfg) (ce_now (env i))) rows"
    and ds: "ds = map job_of (filter (\<lambda>r. j_id r \<in> set ids) rows1)" and d1: "distinct (map j_id rows1)"
    using claim_once_spares [OF assms(1) less.prems(1) assms(2) c] by blast
  have h1: "held w rows1 J key" unfolding rows1 by (rule claim_keeps_held [OF less.prems(1) ids less.prems(2)])
  have "job_id J \<notin> set ids" using held_not_claimed [OF less.prems(1) ids less.prems(2)] .
  then have other: "\<forall>j \<in> set ds. job_id j \<noteq> job_id J"
    using claimed_job_row unfolding ds rows1 by (fastforce simp: next_job_def job_of_def)
  note unfold = claim_batches_unfold [of cfg w env i, OF c o, of acc]
  show ?case
  proof (cases again)
    case True
    have sp: "distinct (map j_id rows2)" "backlog rows2 \<le> backlog rows1" "held w rows2 J key"
      using assms(1) [of i] d1 o h1 unfolding spares_def by (metis snd_conv)+
    have "backlog rows1 < backlog rows" using claim_once_shrinks c True by simp
    then have "backlog rows2 < backlog rows" using sp(2) by simp
    from less.hyps [OF this sp(1,3), of "Suc i" "acc @ ds" fs2] obtain i' js fs' rows' where
      r: "claim_batches cfg w env (Suc i) (acc @ ds) fs2 rows2 = Some (False, i', (acc @ ds) @ js, fs', rows')"
      "\<forall>j \<in> set js. job_id j \<noteq> job_id J" "held w rows' J key" by blast
    have "pool_wait (ce_ctx_done (env i)) (ce_draining (env i)) (qc_fetch_cooldown cfg)"
      using assms(1) [of i] by (simp add: spares_def pool_wait_def)
    then have "claim_batches cfg w env i acc fs rows = Some (False, i', acc @ (ds @ js), fs', rows')"
      using unfold True r(1) by (simp only: if_True if_False not_True_eq_False append_assoc)
    moreover have "\<forall>j \<in> set (ds @ js). job_id j \<noteq> job_id J" using other r(2) by auto
    ultimately show ?thesis using r(3) by blast
  next
    case False
    then have "claim_batches cfg w env i acc fs rows = Some (False, Suc i, acc @ ds, fs1, rows1)" using unfold by simp
    then show ?thesis using other h1 by blast
  qed
qed

text \<open>A job that is due is handed out, once, with its next attempt number, and is then held.\<close>

lemma claim_batches_takes:
  assumes "\<And>k. spares w (j_id r) t (env k)" and "0 < qc_claim_batch cfg" and "distinct (map j_id rows)" and "r \<in> set rows"
    and "claimable t r"
  shows "\<exists>i' js fs' rows'. claim_batches cfg w env i acc fs rows = Some (False, i', acc @ js, fs', rows') \<and>
    next_job r \<in> set js \<and> (\<forall>j \<in> set js. job_id j = j_id r \<longrightarrow> j = next_job r) \<and> held w rows' (next_job r) (j_unique_key r)"
  using assms(3,4)
proof (induction "backlog rows" arbitrary: i acc fs rows rule: less_induct)
  case less
  let ?J = "next_job r"
  have J: "job_id ?J = j_id r" by (simp add: next_job_def job_of_def)
  obtain again ds fs1 rows1 where c: "claim_once cfg w (env i) fs rows = (again, ds, fs1, rows1)" by (metis prod.exhaust)
  obtain fs2 rows2 where o: "ce_others (env i) (fs1, rows1) = (fs2, rows2)" by (metis prod.exhaust)
  obtain ids where ids: "ids = claim_ids (ce_locked (env i)) (nat (qc_claim_batch cfg)) (ce_now (env i)) rows"
    and rows1: "rows1 = sql_update (\<lambda>r. j_id r \<in> set ids) (claim_row w (qc_lease cfg) (ce_now (env i))) rows"
    and ds: "ds = map job_of (filter (\<lambda>r. j_id r \<in> set ids) rows1)"
    and again: "again = (int (length ids) = qc_claim_batch cfg)" and d1: "distinct (map j_id rows1)"
    using claim_once_spares [OF assms(1) less.prems(1) assms(2) c] by blast
  have wait: "pool_wait (ce_ctx_done (env i)) (ce_draining (env i)) (qc_fetch_cooldown cfg)"
    using assms(1) [of i] by (simp add: spares_def pool_wait_def)
  have sp: "distinct (map j_id rows2)" "backlog rows2 \<le> backlog rows1"
    using assms(1) [of i] d1 o unfolding spares_def by (metis snd_conv)+
  note unfold = claim_batches_unfold [of cfg w env i, OF c o, of acc]
  have only: "j = ?J" if j: "j \<in> set ds" "job_id j = j_id r" for j
  proof -
    obtain r' where r': "r' \<in> set rows" "j = next_job r'" using claimed_job_row j(1) unfolding ds rows1 by blast
    then have "j_id r' = j_id r" using j(2) by (simp add: next_job_def job_of_def)
    then show ?thesis using distinct_key_eq [OF less.prems(1) r'(1) less.prems(2)] r'(2) by simp
  qed
  show ?case
  proof (cases "j_id r \<in> set ids")
    case True
    let ?r = "claim_row w (qc_lease cfg) (ce_now (env i)) r"
    have "?r \<in> set rows1" using True less.prems(2) unfolding rows1 by (force simp: set_sql_update)
    moreover have "j_id ?r \<in> set ids" "j_unique_key ?r = j_unique_key r" using True by (simp_all add: claim_row_def)
    ultimately have taken: "?J \<in> set ds" "held w rows1 ?J (j_unique_key r)"
      unfolding ds held_def using claim_row_guard job_of_claim_row by (auto intro!: image_eqI [of _ _ ?r] bexI [of _ ?r])
    show ?thesis
    proof (cases again)
      case False
      then have "claim_batches cfg w env i acc fs rows = Some (False, Suc i, acc @ ds, fs1, rows1)" using unfold by simp
      then show ?thesis using taken only by blast
    next
      case True
      have "held w rows2 ?J (j_unique_key r)"
        using assms(1) [of i] d1 o taken(2) J unfolding spares_def by (metis snd_conv)
      from claim_batches_held [OF _ assms(2) sp(1) this, of t env "Suc i" "acc @ ds" fs2] obtain i' js fs' rows' where
        r: "claim_batches cfg w env (Suc i) (acc @ ds) fs2 rows2 = Some (False, i', (acc @ ds) @ js, fs', rows')"
        "\<forall>j \<in> set js. job_id j \<noteq> job_id ?J" "held w rows' ?J (j_unique_key r)"
        using assms(1) unfolding J by blast
      have "claim_batches cfg w env i acc fs rows = Some (False, i', acc @ (ds @ js), fs', rows')"
        using unfold True wait r(1) by (simp only: if_True if_False not_True_eq_False append_assoc)
      moreover have "\<forall>j \<in> set (ds @ js). job_id j = j_id r \<longrightarrow> j = ?J" using only r(2) J by (metis UnE set_append)
      moreover have "?J \<in> set (ds @ js)" using taken(1) by simp
      ultimately show ?thesis using r(3) by blast
    qed
  next
    case False
    have "\<not> ce_locked (env i) (j_id r)" "claimable (ce_now (env i)) r"
      using assms(1) [of i] assms(5) by (auto simp: spares_def claimable_def)
    then have "\<not> length ids < nat (qc_claim_batch cfg)" using False less.prems(2) claim_ids_room unfolding ids by blast
    moreover have "length ids \<le> nat (qc_claim_batch cfg)" by (simp add: ids claim_ids_def)
    ultimately have True': "again" using assms(2) again by simp
    have "r \<in> available rows1"
      using False less.prems(2) assms(5) unfolding rows1 by (force simp: available_def claimable_def set_sql_update)
    then have r2: "r \<in> set rows2" using assms(1) [of i] d1 o unfolding spares_def by (metis snd_conv)
    have "backlog rows1 < backlog rows" using claim_once_shrinks c True' by simp
    then have "backlog rows2 < backlog rows" using sp(2) by simp
    from less.hyps [OF this sp(1) r2, of "Suc i" "acc @ ds" fs2] obtain i' js fs' rows' where
      r: "claim_batches cfg w env (Suc i) (acc @ ds) fs2 rows2 = Some (False, i', (acc @ ds) @ js, fs', rows')"
      "?J \<in> set js" "\<forall>j \<in> set js. job_id j = j_id r \<longrightarrow> j = ?J" "held w rows' ?J (j_unique_key r)" by blast
    have "claim_batches cfg w env i acc fs rows = Some (False, i', acc @ (ds @ js), fs', rows')"
      using unfold True' wait r(1) by (simp only: if_True if_False not_True_eq_False append_assoc)
    moreover have "\<forall>j \<in> set (ds @ js). job_id j = j_id r \<longrightarrow> j = ?J" using only r(3) by (metis UnE set_append)
    moreover have "?J \<in> set (ds @ js)" using r(2) by simp
    ultimately show ?thesis using r(4) by blast
  qed
qed

subsection \<open>Running the jobs\<close>

lemma pool_write_guarded: "\<exists>op f. snd (pool_write cfg w k db now j cause rows) = guarded db op w j f rows"
  by (auto simp: pool_write_def Succeed_def Retry_def Cancel_def Discard_def terminal_def Store_Snooze_def split: option.splits)

lemma pool_run_other:
  assumes "pool_run cfg w hs ctx k db now j fs rows = (outc, fs', rows')" and "r \<in> set rows" and "\<not> claimGuard w j r"
  shows "r \<in> set rows'"
proof -
  obtain op f where g: "snd (pool_write cfg w k db now j (invoke hs j) rows) = guarded db op w j f rows"
    using pool_write_guarded by blast
  have "rows' = snd (guarded db op w j f rows)"
    using assms(1) finish_rows [of cfg w k db now j "invoke hs j" rows] g
    by (simp add: pool_run_def Let_def split: prod.splits)
  then show ?thesis
    using assms(2,3) by (cases db) (force simp: guarded_def set_sql_update)+
qed

lemma pool_run_success:
  assumes "pool_run cfg w hs ctx k DbOk now j fs rows = (outc, fs', rows')" and "invoke hs j = None"
    and "r \<in> set rows" and "claimGuard w j r"
  shows "\<exists>r' \<in> set rows'. j_id r' = j_id r \<and> j_unique_key r' = j_unique_key r \<and> j_state r' = StateSucceeded"
proof -
  let ?f = "\<lambda>r. unlock (r\<lparr>j_state := StateSucceeded, j_finalized_at := Some now\<rparr>)"
  have "rows' = sql_update (claimGuard w j) ?f rows"
    using assms(1,2) finish_rows [of cfg w k DbOk now j None rows]
    by (simp add: pool_run_def Let_def pool_write_def Succeed_def guarded_def split: prod.splits)
  then have "?f r \<in> set rows'" using assms(3,4) by (force simp: set_sql_update)
  then show ?thesis by (intro bexI [of _ "?f r"]) (simp_all add: unlock_def)
qed

lemma work_step:
  "pool_run cfg w hs (re_ctx e) (re_draw e) (re_db e) (re_now e) j fs rows = (outc, fs1, rows1) \<Longrightarrow>
   snd (snd (work cfg w hs ((j, e) # js) fs rows)) = snd (snd (work cfg w hs js fs1 rows1))"
  by (simp split: prod.splits)

lemma work_keeps_final:
  "r \<in> set rows \<Longrightarrow> j_state r \<noteq> StateRunning \<Longrightarrow> r \<in> set (snd (snd (work cfg w hs js fs rows)))"
proof (induction cfg w hs js fs rows rule: work.induct)
  case (2 cfg w hs j e js fs rows)
  obtain outc fs1 rows1 where run: "pool_run cfg w hs (re_ctx e) (re_draw e) (re_db e) (re_now e) j fs rows = (outc, fs1, rows1)"
    by (metis prod.exhaust)
  have "\<not> claimGuard w j r" using claimGuard_running "2.prems"(2) by blast
  then have "r \<in> set rows1" using pool_run_other [OF run] "2.prems"(1) by blast
  from "2.IH" [OF run [symmetric] refl this "2.prems"(2)] show ?case unfolding work_step [OF run] .
qed simp

text \<open>
  A job a worker holds and whose handler returns no error ends as succeeded, whatever happens to the other jobs
  the workers run before and after it.
\<close>

lemma work_succeeds:
  assumes "J \<in> set js" and "\<And>j. j \<in> set js \<Longrightarrow> job_id j = job_id J \<Longrightarrow> j = J"
    and "held w rows J key" and "re_db (e J) = DbOk" and "invoke hs J = None"
  shows "\<exists>r \<in> set (snd (snd (work cfg w hs (map (\<lambda>j. (j, e j)) js) fs rows))).
    j_id r = job_id J \<and> j_unique_key r = key \<and> j_state r = StateSucceeded"
  using assms(1-3)
proof (induction js arbitrary: fs rows)
  case (Cons j js)
  obtain outc fs1 rows1 where
    run: "pool_run cfg w hs (re_ctx (e j)) (re_draw (e j)) (re_db (e j)) (re_now (e j)) j fs rows = (outc, fs1, rows1)"
    by (metis prod.exhaust)
  have rest: "snd (snd (work cfg w hs (map (\<lambda>j. (j, e j)) (j # js)) fs rows)) =
      snd (snd (work cfg w hs (map (\<lambda>j. (j, e j)) js) fs1 rows1))"
    unfolding list.map by (rule work_step [OF run])
  obtain r where r: "r \<in> set rows" "claimGuard w J r" "j_unique_key r = key" using Cons.prems(3) by (auto simp: held_def)
  show ?case
  proof (cases "j = J")
    case True
    then obtain r' where r': "r' \<in> set rows1" "j_id r' = j_id r" "j_unique_key r' = j_unique_key r" "j_state r' = StateSucceeded"
      using pool_run_success [OF _ assms(5) r(1,2)] run assms(4) by metis
    then have "r' \<in> set (snd (snd (work cfg w hs (map (\<lambda>j. (j, e j)) js) fs1 rows1)))"
      by (intro work_keeps_final) simp_all
    moreover have "j_id r' = job_id J" using r'(2) r(2) by (simp add: claimGuard_def)
    ultimately show ?thesis unfolding rest using r'(3,4) r(3) by blast
  next
    case False
    then have "job_id j \<noteq> job_id J" using Cons.prems(2) [of j] by auto
    then have "\<not> claimGuard w j r" using r(2) by (auto simp: claimGuard_def)
    then have "held w rows1 J key" using pool_run_other [OF run r(1)] r(2,3) by (auto simp: held_def)
    moreover have "J \<in> set js" using Cons.prems(1) False by simp
    ultimately show ?thesis unfolding rest using Cons.prems(2) by (intro Cons.IH) simp_all
  qed
qed simp

subsection \<open>From the write to the row\<close>

text \<open>What \<open>Enqueue\<close> leaves of a new event: an available row with the next identity, due at once.\<close>

definition queue_ready :: "'a pg_state_scheme \<Rightarrow> bool" where
  "queue_ready s \<longleftrightarrow> distinct (map j_id (pg_jobs s)) \<and> (\<forall>r \<in> set (pg_jobs s). j_id r < pg_seq s)"

definition event_row :: "go_lib \<Rightarrow> pg_ctx \<Rightarrow> event \<Rightarrow> int \<Rightarrow> string \<Rightarrow> job_row" where
  "event_row lib c ev i p = new_row i (pc_now c) JobKind p (event_ID lib ev) 0"

lemma enqueue_event_row:
  assumes "enqueue_event lib c name t s = (Inr b, s')" and "\<not> key_taken (Some (event_ID lib (eventFor name t))) (pg_jobs s)"
  shows "\<exists>p. pc_marshal c (eventFor name t) = Inr p \<and>
    pg_jobs s' = pg_jobs s @ [event_row lib c (eventFor name t) (pg_seq s) p]"
  using assms
  by (cases "pc_enqueue c")
    (auto simp: enqueue_event_def Enqueue_def event_row_def Let_def stmt_outcome_def new_row_def split: sum.splits if_splits prod.splits)

lemma pg_write_row:
  assumes "pg_write lib False c name fn s = (Inr t, s')"
    and "\<And>u s1. fn s = (Inr u, s1) \<Longrightarrow> pg_jobs s1 = pg_jobs s \<and> pg_seq s1 = pg_seq s"
    and "\<not> key_taken (Some (event_ID lib (eventFor name t))) (pg_jobs s)"
  shows "\<exists>p. pc_marshal c (eventFor name t) = Inr p \<and>
    pg_jobs s' = pg_jobs s @ [event_row lib c (eventFor name t) (pg_seq s) p]"
proof -
  obtain s1 b s2 where "fn s = (Inr t, s1)" "enqueue_event lib c name t s1 = (Inr b, s2)" "pg_jobs s' = pg_jobs s2"
    using assms(1) by (auto simp: pg_write_def Let_def split: option.splits prod.splits sum.splits db_outcome.splits)
  then show ?thesis using enqueue_event_row [of lib c name t s1 b s2] assms(2,3) by auto
qed

text \<open>A change the service acknowledged, and the name of its event.\<close>

definition acknowledged ::
  "go_lib \<Rightarrow> pg_ctx \<Rightarrow> string \<Rightarrow> task \<Rightarrow> 'a pg_state_scheme \<Rightarrow> 'a pg_state_scheme \<Rightarrow> bool" where
  "acknowledged lib c name t s s' \<longleftrightarrow>
     (name = EventCreated \<and> (\<exists>now newID inp. service_Create (pgrepo lib) c now newID inp s = (Inr t, s')) \<or>
      name = EventUpdated \<and> (\<exists>now inp. service_Update (pgrepo lib) lib c now inp s = (Inr t, s')))"

lemma acknowledged_row:
  assumes "acknowledged lib c name t s s'" and "\<not> key_taken (Some (event_ID lib (eventFor name t))) (pg_jobs s)"
  shows "\<exists>p. pc_marshal c (eventFor name t) = Inr p \<and>
    pg_jobs s' = pg_jobs s @ [event_row lib c (eventFor name t) (pg_seq s) p]"
proof -
  have ins: "insert_task x s = (Inr u, s1) \<Longrightarrow> pg_jobs s1 = pg_jobs s \<and> pg_seq s1 = pg_seq s" for x u s1
    by (auto simp: insert_task_def Let_def split: if_splits)
  have upd: "update_task x v s = (Inr u, s1) \<Longrightarrow> pg_jobs s1 = pg_jobs s \<and> pg_seq s1 = pg_seq s" for x v u s1
    by (auto simp: update_task_def Let_def split: if_splits option.splits)
  consider x where "name = EventCreated" "pgrepo_Create lib False c x s = (Inr t, s')"
    | x v where "name = EventUpdated" "pgrepo_Update lib False c x v s = (Inr t, s')"
    using assms(1)
    by (auto simp: acknowledged_def service_Create_def service_Update_def pgrepo_def Let_def split: option.splits prod.splits sum.splits if_splits)
  then show ?thesis
  proof cases
    case 1
    show ?thesis
      by (rule pg_write_row [OF 1(2) [unfolded pgrepo_Create_def, folded 1(1)] _ assms(2)])
        (auto split: option.splits prod.splits sum.splits dest: ins)
  next
    case 2
    show ?thesis
      by (rule pg_write_row [OF 2(2) [unfolded pgrepo_Update_def, folded 2(1)] _ assms(2)])
        (auto split: option.splits prod.splits sum.splits if_splits dest: upd)
  qed
qed

subsection \<open>An acknowledged change is delivered\<close>

text \<open>The endpoint accepts the event: the chain does not refuse the delivery, and its last attempt is answered with a success in time.\<close>

definition endpoint_accepts :: "go_lib \<Rightarrow> webhook \<Rightarrow> webhook_env \<Rightarrow> event \<Rightarrow> bool" where
  "endpoint_accepts lib wh wenv ev \<longleftrightarrow>
     wh_url wh \<noteq> [] \<and> we_request wenv (wh_url wh) = None \<and> (\<forall>n. we_get_body wenv n = None) \<and>
     (\<forall>g. wh_guard wh = Some g \<longrightarrow> guard_laws g) \<and>
     (\<exists>body. we_marshal wenv ev = Inr body \<and>
        (\<forall>j. (\<forall>n e. we_do wenv n (delivery_of lib wh j ev body) = Inl e \<longrightarrow> foreign_error e) \<and>
           (\<exists>st. delivery_ended wh wenv (delivery_of lib wh j ev body) = Answered (Inr st) \<and> accepted st)))"

lemma accepted_Handle:
  assumes "endpoint_accepts lib wh wenv ev" and "we_decode wenv (job_payload j) = Inr ev"
  shows "Handle lib wh wenv j = None"
proof -
  obtain body where b: "we_marshal wenv ev = Inr body" and fe: "\<And>n e. we_do wenv n (delivery_of lib wh j ev body) = Inl e \<Longrightarrow> foreign_error e"
    and la: "\<exists>st. delivery_ended wh wenv (delivery_of lib wh j ev body) = Answered (Inr st) \<and> accepted st"
    using assms(1) unfolding endpoint_accepts_def by blast
  let ?req = "delivery_of lib wh j ev body"
  from la obtain st where st: "delivery_ended wh wenv ?req = Answered (Inr st)" "accepted st" by blast
  have v: "case delivery_ended wh wenv ?req of
      Refused \<Rightarrow> \<exists>d why. deliver wh wenv ?req = Some (SnoozeError d why)
    | TimedOut \<Rightarrow> \<exists>e. deliver wh wenv ?req = Some e \<and> transient e
    | Answered a \<Rightarrow> \<exists>n. a = we_do wenv n ?req \<and> returned_as (send wenv n ?req) (deliver wh wenv ?req)"
    using assms(1) fe unfolding endpoint_accepts_def by (intro deliver_verdict) blast+
  with st obtain n where n: "Inr st = we_do wenv n ?req" "returned_as (send wenv n ?req) (deliver wh wenv ?req)" by auto
  have "send wenv n ?req = None" using st(2) unfolding send_def n(1) [symmetric] by (simp add: classify_def accepted_def)
  then have "deliver wh wenv ?req = None" using n(2) by (simp add: returned_as_def)
  then show ?thesis
    using Handle_deliver [of wh wenv j ev body lib] assms b by (simp add: endpoint_accepts_def)
qed

text \<open>
  C3: An acknowledged change reaches the webhook. Once the service has answered a create or an update whose event has no
  job in the table yet, the claim loop of any worker finds the event's job, however large the backlog, and returns; after
  the workers have run what it handed out, the job of exactly this event is in the table as succeeded. It takes an endpoint
  that accepts the event (the chain neither refuses the delivery nor cuts its last attempt off), a database that answers the
  claims and the completion write, a pool that is not stopping, and between the batches other processes that do not lock,
  claim or change this job's row and do not let the backlog grow. Nothing is asked of the other jobs: other processes may
  lock, claim, change and delete them, and their handlers may fail, panic or be refused.
\<close>
theorem acknowledged_change_delivered:
  assumes "acknowledged lib c name t s s'" and "queue_ready s"
    and "\<not> key_taken (Some (event_ID lib (eventFor name t))) (pg_jobs s)"
    and "\<And>k. spares w (pg_seq s) (pc_now c) (env k)" and "0 < qc_claim_batch cfg"
    and "hs JobKind = Some (\<lambda>j. Returned (Handle lib wh wenv j))" and "endpoint_accepts lib wh wenv (eventFor name t)"
    and "\<And>p. pc_marshal c (eventFor name t) = Inr p \<Longrightarrow> we_decode wenv p = Inr (eventFor name t)"
    and "\<And>j. job_id j = pg_seq s \<Longrightarrow> re_db (e j) = DbOk"
  shows "\<exists>i' js fs' rows'. claim_batches cfg w env i [] fs (pg_jobs s') = Some (False, i', js, fs', rows') \<and>
    (\<exists>r \<in> set (snd (snd (work cfg w hs (map (\<lambda>j. (j, e j)) js) fs' rows'))).
       j_unique_key r = Some (event_ID lib (eventFor name t)) \<and> j_state r = StateSucceeded)"
proof -
  obtain p where p: "pc_marshal c (eventFor name t) = Inr p"
    and jobs: "pg_jobs s' = pg_jobs s @ [event_row lib c (eventFor name t) (pg_seq s) p]"
    using acknowledged_row [OF assms(1,3)] by blast
  define r0 where "r0 = event_row lib c (eventFor name t) (pg_seq s) p"
  have r0: "r0 \<in> set (pg_jobs s')" "claimable (pc_now c) r0" "j_id r0 = pg_seq s" "j_kind r0 = JobKind" "j_payload r0 = p"
    "j_unique_key r0 = Some (event_ID lib (eventFor name t))"
    unfolding jobs r0_def by (simp_all add: event_row_def new_row_def claimable_def)
  have d: "distinct (map j_id (pg_jobs s'))"
    using assms(2) unfolding jobs queue_ready_def by (auto simp: event_row_def new_row_def)
  let ?J = "next_job r0"
  have id: "job_id ?J = pg_seq s" using r0(3) by (simp add: next_job_def job_of_def)
  have sp: "\<And>k. spares w (j_id r0) (pc_now c) (env k)" unfolding r0(3) by (rule assms(4))
  from claim_batches_takes [of w r0 "pc_now c" env cfg "pg_jobs s'" i "[]" fs, OF sp assms(5) d r0(1,2)] obtain i' js fs' rows'
    where cb: "claim_batches cfg w env i [] fs (pg_jobs s') = Some (False, i', [] @ js, fs', rows')"
    and J: "?J \<in> set js" "\<forall>j \<in> set js. job_id j = j_id r0 \<longrightarrow> j = ?J" "held w rows' ?J (j_unique_key r0)" by blast
  have "invoke hs ?J = None"
    using assms(6) accepted_Handle [OF assms(7), of ?J] assms(8) [OF p] r0(4,5)
    by (simp add: invoke_def next_job_def job_of_def)
  moreover have "re_db (e ?J) = DbOk" using id by (rule assms(9))
  ultimately have "\<exists>r \<in> set (snd (snd (work cfg w hs (map (\<lambda>j. (j, e j)) js) fs' rows'))).
      j_id r = job_id ?J \<and> j_unique_key r = j_unique_key r0 \<and> j_state r = StateSucceeded"
    by (intro work_succeeds [OF J(1) _ J(3)]) (use J(2) r0(3) id in metis)+
  then show ?thesis using cb r0(6) by auto
qed

text \<open>A task is created, its event is claimed among nothing else, and the endpoint answers 204.\<close>

definition demo_calm :: "nat \<Rightarrow> claim_env" where
  "demo_calm k = (demo_env k)\<lparr>ce_now := 5000\<rparr>"

definition demo_handlers :: handlers where
  "demo_handlers kind =
     (if kind = JobKind then
        Some (\<lambda>j. Returned (Handle std_lib (demo_webhook (demo_guard (\<lambda>_. False))) (demo_webhook_env (\<lambda>n. Inr 204)) j))
      else None)"

definition demo_run_env :: "job \<Rightarrow> run_env" where
  "demo_run_env j = \<lparr>re_ctx = 0, re_draw = 0, re_db = DbOk, re_now = 6000\<rparr>"

lemma demo_accepts: "endpoint_accepts std_lib (demo_webhook (demo_guard (\<lambda>_. False))) (demo_webhook_env (\<lambda>n. Inr 204)) ev"
proof -
  have "delivery_ended (demo_webhook (demo_guard (\<lambda>_. False))) (demo_webhook_env (\<lambda>n. Inr 204)) req = Answered (Inr 204)" for req
    by (simp add: delivery_ended_def demo_webhook_def demo_guard_def demo_webhook_env_def webhook_attempt_def rewind_def send_def
        classify_def IsDependencyFailure_def)
  then show ?thesis
    using demo_guard_laws(1) by (simp add: endpoint_accepts_def demo_webhook_env_def accepted_def) (simp add: demo_webhook_def)
qed

lemma demo_task_name_ok: "name_ok ''task''"
  by (simp add: name_ok_def trim_space_def trim_left.simps trim_right.simps starts_with_def
      ends_with_def spaces_def space_front_def space_back_def)

theorem acknowledged_change_delivered_witness:
  "\<exists>t s' i' js fs' rows'.
     service_Create (pgrepo std_lib) demo_pg_ctx 9000 9 \<lparr>ci_name = ''task'', ci_status = 0\<rparr> demo_pg = (Inr t, s') \<and>
     claim_batches demo_cfg ''w1'' demo_calm 0 [] [] (pg_jobs s') = Some (False, i', js, fs', rows') \<and>
     (\<exists>r \<in> set (snd (snd (work demo_cfg ''w1'' demo_handlers (map (\<lambda>j. (j, demo_run_env j)) js) fs' rows'))).
        j_unique_key r = Some (event_ID std_lib (eventFor EventCreated t)) \<and> j_state r = StateSucceeded)"
proof -
  let ?t = "demo_pg_task 9" and ?inp = "\<lparr>ci_name = ''task'', ci_status = 0\<rparr>"
  have valid: "service_Create (pgrepo std_lib) demo_pg_ctx 9000 9 ?inp demo_pg =
      (case pgrepo_Create std_lib False demo_pg_ctx ?t demo_pg of
         (Inl e, s') \<Rightarrow> (Inl (WrapError ''create task: '' e), s') | (Inr u, s') \<Rightarrow> (Inr u, s'))"
    by (simp add: service_Create_valid demo_task_name_ok status_valid_def pgrepo_def demo_pg_task_def)
  have "pg_storable ?t" "pg_view demo_pg (t_id ?t) = None"
    by (simp_all add: pg_storable_def tasks_check_def utf8_length_def demo_pg_task_def pg_view_def sql_find_def demo_pg_def)
  then obtain s' where "pgrepo_Create std_lib False demo_pg_ctx ?t demo_pg = (Inr (store_task tz ?t), s')"
    using pgrepo_Create_works [OF demo_pg_working] by blast
  moreover have "store_task tz ?t = ?t" by (simp add: store_task_def demo_pg_task_def tz_def)
  ultimately have created: "service_Create (pgrepo std_lib) demo_pg_ctx 9000 9 ?inp demo_pg = (Inr ?t, s')" using valid by simp
  then have "acknowledged std_lib demo_pg_ctx EventCreated ?t demo_pg s'" by (auto simp: acknowledged_def)
  moreover have "queue_ready demo_pg" "\<not> key_taken (Some (event_ID std_lib (eventFor EventCreated ?t))) (pg_jobs demo_pg)"
    by (simp_all add: queue_ready_def demo_pg_def key_taken_def)
  moreover have "\<And>k. spares ''w1'' (pg_seq demo_pg) (pc_now demo_pg_ctx) (demo_calm k)"
    by (simp add: spares_def available_def demo_calm_def demo_env_def demo_pg_ctx_def)
  moreover have "0 < qc_claim_batch demo_cfg" by (simp add: demo_cfg_def)
  ultimately have "\<exists>i' js fs' rows'. claim_batches demo_cfg ''w1'' demo_calm 0 [] [] (pg_jobs s') = Some (False, i', js, fs', rows') \<and>
     (\<exists>r \<in> set (snd (snd (work demo_cfg ''w1'' demo_handlers (map (\<lambda>j. (j, demo_run_env j)) js) fs' rows'))).
        j_unique_key r = Some (event_ID std_lib (eventFor EventCreated ?t)) \<and> j_state r = StateSucceeded)"
    by (rule acknowledged_change_delivered [OF _ _ _ _ _ _ demo_accepts])
      (simp_all add: demo_handlers_def demo_webhook_env_def demo_run_env_def)
  then show ?thesis using created by blast
qed

end
