(* ===== verification/Httpx.thy ===== *)
theory Httpx
  imports Apperr
begin

text \<open>
  The HTTP layer's own code: \<open>internal/httpx\<close> (\<open>chain.go\<close>, \<open>problem.go\<close>, \<open>requestid.go\<close>,
  \<open>recover.go\<close>, \<open>limits.go\<close>, \<open>deprecation.go\<close>, \<open>route.go\<close>) over a model of what it uses of
  \<open>net/http\<close>.

  A header is a map from canonical names to values. A body is the bytes it yields and the error
  its reader ends with, if any. A response writer is either the connection's, which freezes the
  headers when the status line is written, or a buffering recorder, which does not. A handler
  takes the request, the writer and the application's state, and may end in a panic.
\<close>

subsection \<open>Requests and contexts\<close>

type_synonym header = "string \<rightharpoonup> string list"

definition header_Get :: "header \<Rightarrow> string \<Rightarrow> string" where
  "header_Get h name = (case h name of Some (v # _) \<Rightarrow> v | _ \<Rightarrow> [])"

definition header_Set :: "string \<Rightarrow> string \<Rightarrow> header \<Rightarrow> header" where
  "header_Set name v h = h(name \<mapsto> [v])"

definition header_Del :: "string \<Rightarrow> header \<Rightarrow> header" where
  "header_Del name h = h(name := None)"

record identity =
  id_ClientID :: string
  id_Tier :: string
  id_Key :: string

text \<open>The values the program keeps in a request's context.\<close>

record ctx =
  cx_request_id :: string
  cx_identity :: "identity option"
  cx_tx :: bool

type_synonym body = "string \<times> go_error option"

definition ReadAll :: "body \<Rightarrow> string result" where
  "ReadAll b = (case snd b of None \<Rightarrow> Inr (fst b) | Some e \<Rightarrow> Inl e)"

definition MaxBytesReader :: "int \<Rightarrow> body \<Rightarrow> body" where
  "MaxBytesReader limit b =
     (if int (length (fst b)) > limit
      then (take (nat limit) (fst b), Some (LibError MaxBytes ''http: request body too large''))
      else b)"

record request =
  rq_Method :: string
  rq_Path :: string
  rq_Header :: header
  rq_ContentLength :: int
  rq_Body :: "body option"
  rq_RemoteAddr :: string
  rq_Context :: ctx

definition WithContext :: "ctx \<Rightarrow> request \<Rightarrow> request" where
  "WithContext c r = r\<lparr>rq_Context := c\<rparr>"

subsection \<open>Response writers and handlers\<close>

record writer =
  w_buffered :: bool
  w_header :: header
  w_wrote :: bool
  w_status :: int
  w_sent :: header
  w_body :: string

definition conn_writer :: writer where
  "conn_writer = \<lparr>w_buffered = False, w_header = Map.empty, w_wrote = False, w_status = 200,
     w_sent = Map.empty, w_body = []\<rparr>"

definition set_header :: "string \<Rightarrow> string \<Rightarrow> writer \<Rightarrow> writer" where
  "set_header name v w = w\<lparr>w_header := header_Set name v (w_header w)\<rparr>"

definition WriteHeader :: "int \<Rightarrow> writer \<Rightarrow> writer" where
  "WriteHeader status w =
     (if w_wrote w then w
      else w\<lparr>w_wrote := True, w_status := status, w_sent := (if w_buffered w then w_sent w else w_header w)\<rparr>)"

definition Write :: "string \<Rightarrow> writer \<Rightarrow> writer" where
  "Write b w =
     (let w' = (if w_buffered w then w\<lparr>w_wrote := True\<rparr> else WriteHeader 200 w) in
      w'\<lparr>w_body := w_body w' @ b\<rparr>)"

datatype panic = PanicErr go_error | PanicValue string

type_synonym 's handler = "request \<Rightarrow> writer \<Rightarrow> 's \<Rightarrow> writer \<times> panic option \<times> 's"

type_synonym 's middleware = "'s handler \<Rightarrow> 's handler"

subsection \<open>Composition (chain.go)\<close>

definition Chain :: "'s handler \<Rightarrow> 's middleware list \<Rightarrow> 's handler" where
  "Chain h mw = fold (\<lambda>m h. m h) (rev mw) h"

subsection \<open>Problem documents (problem.go)\<close>

definition StatusText :: "int \<Rightarrow> string" where
  "StatusText code =
     (case map_of
        [(100, ''Continue''), (101, ''Switching Protocols''), (102, ''Processing''), (103, ''Early Hints''),
         (200, ''OK''), (201, ''Created''), (202, ''Accepted''), (203, ''Non-Authoritative Information''),
         (204, ''No Content''), (205, ''Reset Content''), (206, ''Partial Content''), (207, ''Multi-Status''),
         (208, ''Already Reported''), (226, ''IM Used''), (300, ''Multiple Choices''),
         (301, ''Moved Permanently''), (302, ''Found''), (303, ''See Other''), (304, ''Not Modified''),
         (305, ''Use Proxy''), (307, ''Temporary Redirect''), (308, ''Permanent Redirect''),
         (400, ''Bad Request''), (401, ''Unauthorized''), (402, ''Payment Required''), (403, ''Forbidden''),
         (404, ''Not Found''), (405, ''Method Not Allowed''), (406, ''Not Acceptable''),
         (407, ''Proxy Authentication Required''), (408, ''Request Timeout''), (409, ''Conflict''),
         (410, ''Gone''), (411, ''Length Required''), (412, ''Precondition Failed''),
         (413, ''Request Entity Too Large''), (414, ''Request URI Too Long''),
         (415, ''Unsupported Media Type''), (416, ''Requested Range Not Satisfiable''),
         (417, ''Expectation Failed''), (418, ''I'' @ [CHR 0x27] @ ''m a teapot''), (421, ''Misdirected Request''),
         (422, ''Unprocessable Entity''), (423, ''Locked''), (424, ''Failed Dependency''),
         (425, ''Too Early''), (426, ''Upgrade Required''), (428, ''Precondition Required''),
         (429, ''Too Many Requests''), (431, ''Request Header Fields Too Large''),
         (451, ''Unavailable For Legal Reasons''), (500, ''Internal Server Error''),
         (501, ''Not Implemented''), (502, ''Bad Gateway''), (503, ''Service Unavailable''),
         (504, ''Gateway Timeout''), (505, ''HTTP Version Not Supported''),
         (506, ''Variant Also Negotiates''), (507, ''Insufficient Storage''), (508, ''Loop Detected''),
         (510, ''Not Extended''), (511, ''Network Authentication Required'')] code of
        Some t \<Rightarrow> t | None \<Rightarrow> [])"

text \<open>
  \<open>encoding/json\<close> on a string: the HTML-sensitive characters are escaped too. The texts rendered
  here are ASCII; a byte above it is kept, as it is in valid UTF-8.
\<close>

definition json_char :: "char \<Rightarrow> string" where
  "json_char c =
     (let n = (of_char c :: nat) in
      if n = 34 \<or> n = 92 then [char_of (92 :: nat), c]
      else if n = 8 then [char_of (92 :: nat), CHR ''b'']
      else if n = 12 then [char_of (92 :: nat), CHR ''f'']
      else if n = 10 then [char_of (92 :: nat), CHR ''n'']
      else if n = 13 then [char_of (92 :: nat), CHR ''r'']
      else if n = 9 then [char_of (92 :: nat), CHR ''t'']
      else if n < 32 \<or> n = 60 \<or> n = 62 \<or> n = 38 then
        [char_of (92 :: nat)] @ ''u00'' @ [hex_nibble (n div 16), hex_nibble (n mod 16)]
      else [c])"

definition json_quote :: "string \<Rightarrow> string" where
  "json_quote s = [char_of (34 :: nat)] @ concat (map json_char s) @ [char_of (34 :: nat)]"

definition json_member :: "string \<Rightarrow> string \<Rightarrow> string" where
  "json_member name v = json_quote name @ '':'' @ v"

fun json_members :: "string list \<Rightarrow> string" where
  "json_members [] = []"
| "json_members [m] = m"
| "json_members (m # ms) = m @ '','' @ json_members ms"

record problem =
  pb_Type :: string
  pb_Title :: string
  pb_Status :: int
  pb_Detail :: string
  pb_Instance :: string

definition problem_json :: "problem \<Rightarrow> string" where
  "problem_json p =
     ''{'' @ json_members (
       [json_member ''type'' (json_quote (pb_Type p)),
        json_member ''title'' (json_quote (pb_Title p)),
        json_member ''status'' (itoa (pb_Status p))] @
       (if pb_Detail p = [] then [] else [json_member ''detail'' (json_quote (pb_Detail p))]) @
       (if pb_Instance p = [] then [] else [json_member ''instance'' (json_quote (pb_Instance p))])) @
     ''}'' @ [CHR 10]"

definition RequestIDFrom :: "ctx \<Rightarrow> string" where
  "RequestIDFrom c = cx_request_id c"

definition ProblemContentType :: string where
  "ProblemContentType = ''application/problem+json''"

definition WriteProblem :: "request \<Rightarrow> int \<Rightarrow> string \<Rightarrow> writer \<Rightarrow> writer" where
  "WriteProblem r status detail w =
     (if header_Get (w_header w) ''Content-Type'' \<noteq> [] \<and> status = 500 then w
      else
        Write (problem_json \<lparr>pb_Type = ''about:blank'', pb_Title = StatusText status, pb_Status = status,
                 pb_Detail = detail, pb_Instance = RequestIDFrom (rq_Context r)\<rparr>)
          (WriteHeader status
            (set_header ''X-Content-Type-Options'' ''nosniff''
              (set_header ''Content-Type'' ProblemContentType w))))"

subsection \<open>Request identifiers (requestid.go)\<close>

definition RequestIDHeader :: string where "RequestIDHeader = ''X-Request-Id''"
definition maxInboundRequestID :: nat where "maxInboundRequestID = 64"

definition printable :: "char \<Rightarrow> bool" where
  "printable c \<longleftrightarrow> \<not> ((of_char c :: nat) < 0x20 \<or> (of_char c :: nat) > 0x7e)"

definition sanitizeRequestID :: "string \<Rightarrow> string" where
  "sanitizeRequestID raw =
     (if raw = [] \<or> length raw > maxInboundRequestID then []
      else if list_ex (\<lambda>c. \<not> printable c) raw then []
      else raw)"

definition RequestID :: "string \<Rightarrow> 's middleware" where
  "RequestID fresh next r w s =
     (let given = sanitizeRequestID (header_Get (rq_Header r) RequestIDHeader);
          i = (if given = [] then fresh else given) in
      next (WithContext ((rq_Context r)\<lparr>cx_request_id := i\<rparr>) r) (set_header RequestIDHeader i w) s)"

subsection \<open>Panics (recover.go)\<close>

definition errorOf :: "panic \<Rightarrow> go_error option" where
  "errorOf p = (case p of PanicErr e \<Rightarrow> Some e | PanicValue v \<Rightarrow> None)"

definition Recover :: "'s middleware" where
  "Recover next r w s =
     (case next r w s of
        (w', None, s') \<Rightarrow> (w', None, s')
      | (w', Some p, s') \<Rightarrow>
          if (case errorOf p of None \<Rightarrow> False | Some e \<Rightarrow> errors_is_lib e AbortHandler) then (w', Some p, s')
          else (WriteProblem r 500 ''internal error'' w', None, s'))"

subsection \<open>Body size (limits.go)\<close>

definition MaxBody :: "int \<Rightarrow> 's middleware" where
  "MaxBody limit next r w s =
     (if limit \<le> 0 then next r w s
      else if rq_ContentLength r > limit then
        (WriteProblem r 413 (''request body exceeds the limit of '' @ itoa limit @ '' bytes'')
           (set_header ''Connection'' ''close'' w), None, s)
      else next (r\<lparr>rq_Body := map_option (MaxBytesReader limit) (rq_Body r)\<rparr>) w s)"

subsection \<open>Routes and deprecation (route.go, deprecation.go)\<close>

definition isSingleSegment :: "string \<Rightarrow> bool" where
  "isSingleSegment s \<longleftrightarrow> s \<noteq> [] \<and> CHR ''/'' \<notin> set s"

definition RouteOther :: string where "RouteOther = ''other''"
definition RouteConnect :: string where "RouteConnect = ''/task.v1.TaskService/{method}''"

definition single_under :: "string \<Rightarrow> string \<Rightarrow> bool" where
  "single_under p path = (case cut_prefix p path of None \<Rightarrow> False | Some rest \<Rightarrow> isSingleSegment rest)"

definition Route :: "string \<Rightarrow> string" where
  "Route path =
     (if path \<in> set [''/api/v1/tasks'', ''/tasks''] then path
      else if path \<in> set [''/healthz'', ''/readyz'', ''/metrics'', ''/version'',
                        ''/openapi.yaml'', ''/openapi.json'', ''/docs'', ''/docs/''] then path
      else if single_under ''/api/v1/tasks/'' path then ''/api/v1/tasks/{id}''
      else if single_under ''/tasks/'' path then ''/tasks/{id}''
      else if single_under ''/task.v1.TaskService/'' path then RouteConnect
      else if starts_with ''/debug/'' path then ''/debug/*''
      else RouteOther)"

definition IsLegacyRoute :: "string \<Rightarrow> bool" where
  "IsLegacyRoute path \<longleftrightarrow> path = ''/tasks'' \<or> single_under ''/tasks/'' path"

definition sunset :: string where
  "sunset = ''Fri, 01 Jan 2027 00:00:00 GMT''"

definition Deprecation :: "'s middleware" where
  "Deprecation next r w s =
     next r
       (if IsLegacyRoute (rq_Path r) then
          set_header ''Link'' (''</api/v1'' @ rq_Path r @ ''>; rel='' @ [CHR 34] @ ''successor-version'' @ [CHR 34])
            (set_header ''Sunset'' sunset (set_header ''Deprecation'' ''true'' w))
        else w) s"

end
