(* ===== verification/Sha256.thy ===== *)
theory Sha256
  imports Prelude "HOL-Library.Word"
begin

text \<open>
  \<open>crypto/sha256\<close>, which the idempotency layer fingerprints requests with and the resolver
  hashes bearer tokens with (FIPS 180-4). Nothing is assumed of it beyond what it computes:
  where a property needs two digests to differ, it says which two.
\<close>

unbundle bit_operations_syntax

text \<open>
  The round constants, in decimal: the first 32 bits of the fractional parts of the cube roots of
  the first 64 primes.
\<close>

definition sha_k :: "32 word list" where
  "sha_k =
    [1116352408, 1899447441, 3049323471, 3921009573, 961987163, 1508970993, 2453635748, 2870763221,
     3624381080, 310598401, 607225278, 1426881987, 1925078388, 2162078206, 2614888103, 3248222580,
     3835390401, 4022224774, 264347078, 604807628, 770255983, 1249150122, 1555081692, 1996064986,
     2554220882, 2821834349, 2952996808, 3210313671, 3336571891, 3584528711, 113926993, 338241895,
     666307205, 773529912, 1294757372, 1396182291, 1695183700, 1986661051, 2177026350, 2456956037,
     2730485921, 2820302411, 3259730800, 3345764771, 3516065817, 3600352804, 4094571909, 275423344,
     430227734, 506948616, 659060556, 883997877, 958139571, 1322822218, 1537002063, 1747873779,
     1955562222, 2024104815, 2227730452, 2361852424, 2428436474, 2756734187, 3204031479, 3329325298]"

record sha_state =
  sh_a :: "32 word"
  sh_b :: "32 word"
  sh_c :: "32 word"
  sh_d :: "32 word"
  sh_e :: "32 word"
  sh_f :: "32 word"
  sh_g :: "32 word"
  sh_h :: "32 word"

definition sha_init :: sha_state where
  "sha_init = \<lparr>sh_a = 0x6a09e667, sh_b = 0xbb67ae85, sh_c = 0x3c6ef372, sh_d = 0xa54ff53a,
     sh_e = 0x510e527f, sh_f = 0x9b05688c, sh_g = 0x1f83d9ab, sh_h = 0x5be0cd19\<rparr>"

definition rotr32 :: "nat \<Rightarrow> 32 word \<Rightarrow> 32 word" where
  "rotr32 n x = drop_bit n x OR push_bit (32 - n) x"

definition be_bytes :: "nat \<Rightarrow> nat \<Rightarrow> string" where
  "be_bytes k n = map (\<lambda>i. char_of (n div 256 ^ (k - 1 - i))) [0..<k]"

definition be_word :: "string \<Rightarrow> 32 word" where
  "be_word s = foldl (\<lambda>a c. a * 256 + of_nat (of_char c)) 0 s"

definition sha_pad :: "string \<Rightarrow> string" where
  "sha_pad s =
     s @ [char_of (0x80 :: nat)] @ replicate ((119 - length s mod 64) mod 64) (char_of (0 :: nat)) @
     be_bytes 8 (8 * length s)"

text \<open>The schedule, newest word first.\<close>

definition sha_extend :: "32 word list \<Rightarrow> 32 word list" where
  "sha_extend ws =
     (let x = ws ! 14; y = ws ! 1;
          s0 = rotr32 7 x XOR rotr32 18 x XOR drop_bit 3 x;
          s1 = rotr32 17 y XOR rotr32 19 y XOR drop_bit 10 y in
      (s1 + ws ! 6 + s0 + ws ! 15) # ws)"

definition sha_schedule :: "32 word list \<Rightarrow> 32 word list" where
  "sha_schedule block = rev ((sha_extend ^^ 48) (rev block))"

definition sha_round :: "32 word \<times> 32 word \<Rightarrow> sha_state \<Rightarrow> sha_state" where
  "sha_round kw h =
     (let s1 = rotr32 6 (sh_e h) XOR rotr32 11 (sh_e h) XOR rotr32 25 (sh_e h);
          ch = (sh_e h AND sh_f h) XOR (NOT (sh_e h) AND sh_g h);
          t1 = sh_h h + s1 + ch + fst kw + snd kw;
          s0 = rotr32 2 (sh_a h) XOR rotr32 13 (sh_a h) XOR rotr32 22 (sh_a h);
          maj = (sh_a h AND sh_b h) XOR (sh_a h AND sh_c h) XOR (sh_b h AND sh_c h) in
      \<lparr>sh_a = t1 + (s0 + maj), sh_b = sh_a h, sh_c = sh_b h, sh_d = sh_c h,
       sh_e = sh_d h + t1, sh_f = sh_e h, sh_g = sh_f h, sh_h = sh_g h\<rparr>)"

fun words_of :: "string \<Rightarrow> 32 word list" where
  "words_of (a # b # c # d # s) = be_word [a, b, c, d] # words_of s"
| "words_of s = []"

definition sha_block :: "string \<Rightarrow> sha_state \<Rightarrow> sha_state" where
  "sha_block block h =
     (let g = fold sha_round (zip sha_k (sha_schedule (words_of block))) h in
      \<lparr>sh_a = sh_a h + sh_a g, sh_b = sh_b h + sh_b g, sh_c = sh_c h + sh_c g, sh_d = sh_d h + sh_d g,
       sh_e = sh_e h + sh_e g, sh_f = sh_f h + sh_f g, sh_g = sh_g h + sh_g g, sh_h = sh_h h + sh_h g\<rparr>)"

function sha_blocks :: "string \<Rightarrow> sha_state \<Rightarrow> sha_state" where
  "sha_blocks s h = (if s = [] then h else sha_blocks (drop 64 s) (sha_block (take 64 s) h))"
  by pat_completeness auto
termination
  by (relation "measure (length \<circ> fst)") auto

declare sha_blocks.simps [simp del]

definition sha256 :: "string \<Rightarrow> string" where
  "sha256 s =
     (let h = sha_blocks (sha_pad s) sha_init in
      concat (map (\<lambda>w. be_bytes 4 (unat w))
        [sh_a h, sh_b h, sh_c h, sh_d h, sh_e h, sh_f h, sh_g h, sh_h h]))"

lemma length_be_bytes [simp]: "length (be_bytes k n) = k"
  by (simp add: be_bytes_def)

lemma length_sha256 [simp]: "length (sha256 s) = 32"
  by (simp add: sha256_def Let_def)

text \<open>The padded message is a whole number of blocks, so no block is short.\<close>

lemma sha_pad_blocks: "length (sha_pad s) mod 64 = 0"
proof -
  define r where "r = length s mod 64"
  have r: "r < 64" by (simp add: r_def)
  have "(length s + (1 + ((119 - r) mod 64 + 8))) mod 64 = (r + (1 + ((119 - r) mod 64 + 8))) mod 64"
    by (simp add: r_def mod_add_left_eq)
  also have "\<dots> = 0" using r by (cases "r \<le> 55") (auto simp: mod_if)
  finally show ?thesis by (simp add: sha_pad_def r_def)
qed

end
