(* ===== verification/Idempotency.thy ===== *)
theory Idempotency
  imports Httpx Sha256 Config Job_Table "HOL-Library.AList"
begin

text \<open>
  Idempotent writes: \<open>internal/idempotency\<close>. This theory holds the fingerprint, the key check,
  the store's interface, the recorder, the middleware and the in-memory store; the Postgres
  store is in \<open>Idempotency_Pg\<close>.

  A call's environment carries what the store's surroundings do to it: the clock readings, the
  failures of each database step, and what the driver and the database make of a duration's text
  and of a byte slice. The interface is the locale \<open>idempotency_store\<close>: what a reservation sees,
  and what completing or abandoning a unit leaves behind. The middleware's lemmas are proved in
  it once and hold for both stores.
\<close>

subsection \<open>Fingerprints and keys (idempotency.go)\<close>

definition HeaderKey :: string where "HeaderKey = ''Idempotency-Key''"
definition HeaderReplayed :: string where "HeaderReplayed = ''Idempotency-Replayed''"

definition canonicalPath :: "string \<Rightarrow> string" where
  "canonicalPath path =
     (case cut_prefix ''/api/v1/'' path of
        Some rest \<Rightarrow> ''/'' @ rest
      | None \<Rightarrow> if path = ''/api/v1'' then ''/'' else path)"

text \<open>What \<open>Fingerprint\<close> feeds the hash: each part with its length in front.\<close>

definition prefixed :: "string \<Rightarrow> string" where
  "prefixed part = dec (length part) @ '':'' @ part"

definition fingerprint_input :: "string \<Rightarrow> string \<Rightarrow> string \<Rightarrow> string" where
  "fingerprint_input method path body = concat (map prefixed [method, canonicalPath path, body])"

definition Fingerprint :: "string \<Rightarrow> string \<Rightarrow> string \<Rightarrow> string" where
  "Fingerprint method path body = sha256 (fingerprint_input method path body)"

text \<open>
  A rune above ASCII is one or more bytes above it, so looking at bytes accepts the same keys;
  the printable ASCII characters are the ones from space to tilde.
\<close>

definition CheckKey :: "string \<Rightarrow> int \<Rightarrow> go_error option" where
  "CheckKey key maxBytes =
     (if key = [] then Some (PlainError (HeaderKey @ '' must not be empty''))
      else if int (length key) > maxBytes then
        Some (PlainError (HeaderKey @ '' must be at most '' @ itoa maxBytes @ '' bytes, got '' @ dec (length key)))
      else if list_ex (\<lambda>c. \<not> printable c) key then Some (PlainError (HeaderKey @ '' must be printable ASCII''))
      else None)"

subsection \<open>The store's interface (store.go)\<close>

definition StateInProgress :: string where "StateInProgress = ''in_progress''"
definition StateCompleted :: string where "StateCompleted = ''completed''"

record idem_record =
  rec_Fingerprint :: string
  rec_State :: string
  rec_StatusCode :: int
  rec_ContentType :: string
  rec_Body :: string

definition Completed :: "idem_record \<Rightarrow> bool" where
  "Completed r \<longleftrightarrow> rec_State r = StateCompleted"

definition in_progress :: "string \<Rightarrow> idem_record" where
  "in_progress fp = \<lparr>rec_Fingerprint = fp, rec_State = StateInProgress, rec_StatusCode = 0,
     rec_ContentType = [], rec_Body = []\<rparr>"

record idem_env =
  ie_now :: time
  ie_later :: time
  ie_begin :: "go_error option"
  ie_reserve :: "go_error option"
  ie_complete :: "go_error option"
  ie_commit :: db_outcome
  ie_lead :: "bool result"
  ie_interval :: "string \<Rightarrow> duration"
  ie_bytea :: "string \<Rightarrow> string option"

record ('u, 's) idem_store =
  st_Reserve :: "idem_env \<Rightarrow> ctx \<Rightarrow> string \<Rightarrow> string \<Rightarrow> duration \<Rightarrow> 's \<Rightarrow> ('u + idem_record) result \<times> 's"
  st_Purge :: "idem_env \<Rightarrow> 's \<Rightarrow> nat result \<times> 's"
  u_Context :: "'u \<Rightarrow> ctx"
  u_Complete :: "idem_env \<Rightarrow> int \<Rightarrow> string \<Rightarrow> string \<Rightarrow> 'u \<Rightarrow> 's \<Rightarrow> go_error option \<times> 'u \<times> 's"
  u_Abandon :: "'u \<Rightarrow> 's \<Rightarrow> 'u \<times> 's"

subsection \<open>The recorder (recorder.go)\<close>

definition recorder :: writer where
  "recorder = \<lparr>w_buffered = True, w_header = Map.empty, w_wrote = False, w_status = 200,
     w_sent = Map.empty, w_body = []\<rparr>"

definition flush :: "writer \<Rightarrow> writer \<Rightarrow> writer" where
  "flush rec w =
     Write (w_body rec) (WriteHeader (w_status rec) (w\<lparr>w_header := w_header w ++ w_header rec\<rparr>))"

subsection \<open>The middleware (middleware.go)\<close>

definition safeMethod :: "string \<Rightarrow> bool" where
  "safeMethod m \<longleftrightarrow> m \<in> set [''GET'', ''HEAD'', ''OPTIONS'', ''TRACE'']"

definition stored :: "int \<Rightarrow> bool" where
  "stored status \<longleftrightarrow> status \<ge> 200 \<and> status < 300"

definition identityRequest :: "ctx \<Rightarrow> request \<Rightarrow> request" where
  "identityRequest c r = r\<lparr>rq_Context := c, rq_Header := header_Del ''Accept-Encoding'' (rq_Header r)\<rparr>"

definition readBody :: "request \<Rightarrow> (string \<times> request) result" where
  "readBody r =
     (case rq_Body r of
        None \<Rightarrow> Inr ([], r)
      | Some b \<Rightarrow>
          (case ReadAll b of
             Inl e \<Rightarrow> Inl e
           | Inr bytes \<Rightarrow> Inr (bytes, r\<lparr>rq_Body := Some (bytes, None)\<rparr>)))"

definition replay :: "request \<Rightarrow> idem_record \<Rightarrow> string \<Rightarrow> writer \<Rightarrow> writer" where
  "replay r seen fp w =
     (if rec_Fingerprint seen \<noteq> fp then
        WriteProblem r 422 (HeaderKey @ '' has already been used for a different request'') w
      else if \<not> Completed seen then
        WriteProblem r 409 (''a request with this '' @ HeaderKey @ '' is still in progress'')
          (set_header ''Retry-After'' ''1'' w)
      else
        (let w1 = (if rec_ContentType seen \<noteq> [] then set_header ''Content-Type'' (rec_ContentType seen) w else w);
             w2 = set_header ''X-Content-Type-Options'' ''nosniff'' w1;
             w3 = set_header HeaderReplayed ''true'' w2;
             w4 = set_header ''Content-Length'' (dec (length (rec_Body seen))) w3 in
         Write (rec_Body seen) (WriteHeader (rec_StatusCode seen) w4)))"

definition execute ::
  "('u, 's) idem_store \<Rightarrow> idem_env \<Rightarrow> 's handler \<Rightarrow> 'u \<Rightarrow> 's handler" where
  "execute store x next u r w s =
     (case next (identityRequest (u_Context store u) r) recorder s of
        (rec, Some p, s1) \<Rightarrow> (w, Some p, snd (u_Abandon store u s1))
      | (rec, None, s1) \<Rightarrow>
          if \<not> stored (w_status rec) then
            (case u_Abandon store u s1 of
               (u1, s2) \<Rightarrow> (flush rec w, None, snd (u_Abandon store u1 s2)))
          else
            (case u_Complete store x (w_status rec) (header_Get (w_header rec) ''Content-Type'') (w_body rec) u s1 of
               (Some e, u1, s2) \<Rightarrow>
                 (WriteProblem r 503 ''the write could not be committed; retry with the same key'' w, None,
                  snd (u_Abandon store u1 s2))
             | (None, u1, s2) \<Rightarrow> (flush rec w, None, snd (u_Abandon store u1 s2))))"

definition handle ::
  "('u, 's) idem_store \<Rightarrow> idempotency_cfg \<Rightarrow> idem_env \<Rightarrow> 's handler \<Rightarrow> string \<Rightarrow> 's handler" where
  "handle store cfg x next key r w s =
     (case readBody r of
        Inl e \<Rightarrow>
          if errors_is_lib e MaxBytes then (WriteProblem r 413 ''request body is too large'' w, None, s)
          else (WriteProblem r 400 ''could not read the request body'' w, None, s)
      | Inr (body, r') \<Rightarrow>
          (let fp = Fingerprint (rq_Method r') (rq_Path r') body in
           case st_Reserve store x (rq_Context r') key fp (id_ttl cfg) s of
             (Inl e, s1) \<Rightarrow>
               (WriteProblem r' 503 ''could not record the idempotency key; retry with the same key'' w, None, s1)
           | (Inr (Inr seen), s1) \<Rightarrow> (replay r' seen fp w, None, s1)
           | (Inr (Inl u), s1) \<Rightarrow> execute store x next u r' w s1))"

definition idempotency_Middleware ::
  "('u, 's) idem_store \<Rightarrow> idempotency_cfg \<Rightarrow> idem_env \<Rightarrow> 's middleware" where
  "idempotency_Middleware store cfg x next r w s =
     (if \<not> id_enabled cfg \<or> safeMethod (rq_Method r) then next r w s
      else
        (let key = header_Get (rq_Header r) HeaderKey in
         if key = [] then
           (if id_required cfg
            then (WriteProblem r 400 (HeaderKey @ '' is required on '' @ rq_Method r) w, None, s)
            else next r w s)
         else
           (case CheckKey key (id_max_key_bytes cfg) of
              Some e \<Rightarrow> (WriteProblem r 400 (error_text e) w, None, s)
            | None \<Rightarrow> handle store cfg x next key r w s)))"

subsection \<open>The in-memory store (memory.go)\<close>

record mem_record =
  mr_rec :: idem_record
  mr_expires :: time

type_synonym mem_keys = "(string \<times> mem_record) list"

record mem_unit =
  mu_key :: string
  mu_ctx :: ctx
  mu_done :: bool

definition NewMemoryStore :: mem_keys where
  "NewMemoryStore = []"

definition mem_Reserve ::
  "idem_env \<Rightarrow> ctx \<Rightarrow> string \<Rightarrow> string \<Rightarrow> duration \<Rightarrow> 'a \<times> mem_keys \<Rightarrow> (mem_unit + idem_record) result \<times> 'a \<times> mem_keys"
where
  "mem_Reserve x c key fp ttl s =
     (let grant =
        (Inr (Inl \<lparr>mu_key = key, mu_ctx = c, mu_done = False\<rparr>), fst s,
         AList.update key \<lparr>mr_rec = in_progress fp, mr_expires = ie_later x + ttl\<rparr> (snd s)) in
      case map_of (snd s) key of
        Some held \<Rightarrow> if mr_expires held > ie_now x then (Inr (Inr (mr_rec held)), s) else grant
      | None \<Rightarrow> grant)"

definition mem_Purge :: "idem_env \<Rightarrow> 'a \<times> mem_keys \<Rightarrow> nat result \<times> 'a \<times> mem_keys" where
  "mem_Purge x s =
     (let expired = (\<lambda>kr. \<not> mr_expires (snd kr) > ie_now x) in
      (Inr (length (filter expired (snd s))), fst s, filter (\<lambda>kr. \<not> expired kr) (snd s)))"

definition mem_Complete ::
  "idem_env \<Rightarrow> int \<Rightarrow> string \<Rightarrow> string \<Rightarrow> mem_unit \<Rightarrow> 'a \<times> mem_keys \<Rightarrow> go_error option \<times> mem_unit \<times> 'a \<times> mem_keys"
where
  "mem_Complete x status contentType body u s =
     (if mu_done u then (None, u, s)
      else
        (None, u\<lparr>mu_done := True\<rparr>, fst s,
         (case map_of (snd s) (mu_key u) of
            None \<Rightarrow> snd s
          | Some held \<Rightarrow>
              AList.update (mu_key u)
                (held\<lparr>mr_rec := (mr_rec held)\<lparr>rec_State := StateCompleted, rec_StatusCode := status,
                   rec_ContentType := contentType, rec_Body := body\<rparr>\<rparr>) (snd s))))"

definition mem_Abandon :: "mem_unit \<Rightarrow> 'a \<times> mem_keys \<Rightarrow> mem_unit \<times> 'a \<times> mem_keys" where
  "mem_Abandon u s =
     (if mu_done u then (u, s)
      else (u\<lparr>mu_done := True\<rparr>, fst s, AList.delete (mu_key u) (snd s)))"

definition MemoryStore :: "(mem_unit, 'a \<times> mem_keys) idem_store" where
  "MemoryStore = \<lparr>st_Reserve = mem_Reserve, st_Purge = mem_Purge, u_Context = mu_ctx,
     u_Complete = mem_Complete, u_Abandon = mem_Abandon\<rparr>"

subsection \<open>Fingerprints: no two requests share a pre-image\<close>

lemma prefixed_inject:
  assumes "prefixed a @ s = prefixed b @ t"
  shows "a = b \<and> s = t"
proof -
  have "dec (length a) @ CHR '':'' # (a @ s) = dec (length b) @ CHR '':'' # (b @ t)"
    using assms by (simp add: prefixed_def)
  then have "dec (length a) = dec (length b) \<and> a @ s = b @ t"
    by (rule append_sep_inject) (rule dec_not_colon)+
  then show ?thesis using append_eq_append_conv by auto
qed

lemma fingerprint_input_inject:
  "fingerprint_input m p b = fingerprint_input m' p' b' \<longleftrightarrow>
     m = m' \<and> canonicalPath p = canonicalPath p' \<and> b = b'"
proof
  assume "fingerprint_input m p b = fingerprint_input m' p' b'"
  then have eq: "prefixed m @ (prefixed (canonicalPath p) @ (prefixed b @ [])) =
      prefixed m' @ (prefixed (canonicalPath p') @ (prefixed b' @ []))"
    by (simp add: fingerprint_input_def)
  from prefixed_inject [OF eq] have m: "m = m'"
    and rest: "prefixed (canonicalPath p) @ (prefixed b @ []) = prefixed (canonicalPath p') @ (prefixed b' @ [])"
    by simp_all
  from prefixed_inject [OF rest] have p: "canonicalPath p = canonicalPath p'"
    and last: "prefixed b @ [] = prefixed b' @ []" by simp_all
  from prefixed_inject [OF last] m p show "m = m' \<and> canonicalPath p = canonicalPath p' \<and> b = b'" by simp
qed (simp add: fingerprint_input_def)

lemma canonicalPath_versioned: "p \<noteq> [] \<Longrightarrow> hd p = CHR ''/'' \<Longrightarrow> canonicalPath (''/api/v1'' @ p) = p"
  by (cases p) (auto simp: canonicalPath_def cut_prefix_def starts_with_def)

lemma IsLegacyRoute_cases:
  "IsLegacyRoute p \<longleftrightarrow> p = ''/tasks'' \<or> (\<exists>i. p = ''/tasks/'' @ i \<and> isSingleSegment i)"
proof -
  have "single_under q p \<longleftrightarrow> (\<exists>i. cut_prefix q p = Some i \<and> isSingleSegment i)" for q
    by (simp add: single_under_def split: option.split)
  then show ?thesis by (simp only: IsLegacyRoute_def cut_prefix_Some)
qed

lemma canonicalPath_legacy: "IsLegacyRoute p \<Longrightarrow> canonicalPath p = p"
  by (auto simp: IsLegacyRoute_cases canonicalPath_def cut_prefix_def starts_with_def)

lemma legacy_slash: "IsLegacyRoute p \<Longrightarrow> p \<noteq> [] \<and> hd p = CHR ''/''"
  by (auto simp: IsLegacyRoute_cases)

lemma Fingerprint_legacy:
  assumes "IsLegacyRoute q"
  shows "Fingerprint m (''/api/v1'' @ q) b = Fingerprint m q b"
proof -
  have "canonicalPath (''/api/v1'' @ q) = canonicalPath q"
    using canonicalPath_versioned [of q] canonicalPath_legacy [OF assms] legacy_slash [OF assms] by auto
  then show ?thesis by (simp only: Fingerprint_def fingerprint_input_def)
qed

text \<open>
  C12: The fingerprint separates requests and joins the two surfaces. What is hashed determines the method, the canonical path and the body, so two requests with the same pre-image are the same request; and a request to a legacy path has the fingerprint of the same request to its successor under /api/v1, so a retry that crosses the two surfaces is a retry.\<close>
theorem fingerprint_identifies:
  "(fingerprint_input m p b = fingerprint_input m' p' b' \<longleftrightarrow>
     m = m' \<and> canonicalPath p = canonicalPath p' \<and> b = b') \<and>
   (IsLegacyRoute q \<longrightarrow> Fingerprint m (''/api/v1'' @ q) b = Fingerprint m q b)"
  using fingerprint_input_inject Fingerprint_legacy by blast

theorem fingerprint_identifies_witness:
  "IsLegacyRoute ''/tasks/7'' \<and> Fingerprint ''PUT'' (''/api/v1'' @ ''/tasks/7'') ''x'' = Fingerprint ''PUT'' ''/tasks/7'' ''x''"
proof -
  have l: "IsLegacyRoute ''/tasks/7''" by code_simp
  show ?thesis using l fingerprint_identifies [of "''PUT''" _ "''x''" _ _ _ "''/tasks/7''"] by blast
qed

subsection \<open>What the middleware relies on\<close>

definition completed :: "string \<Rightarrow> int \<Rightarrow> string \<Rightarrow> string \<Rightarrow> idem_record" where
  "completed fp status ct body = \<lparr>rec_Fingerprint = fp, rec_State = StateCompleted, rec_StatusCode = status,
     rec_ContentType = ct, rec_Body = body\<rparr>"

text \<open>The requests that reach the store: key, body, and the request with its body read.\<close>

definition keyed_write :: "idempotency_cfg \<Rightarrow> request \<Rightarrow> (string \<times> string \<times> request) option" where
  "keyed_write cfg r =
     (let key = header_Get (rq_Header r) HeaderKey in
      if id_enabled cfg \<and> \<not> safeMethod (rq_Method r) \<and> key \<noteq> [] \<and> CheckKey key (id_max_key_bytes cfg) = None
      then (case readBody r of Inl e \<Rightarrow> None | Inr (b, r') \<Rightarrow> Some (key, b, r'))
      else None)"

text \<open>What a client sees of two responses that differ only in the headers a replay adds.\<close>

definition same_answer :: "writer \<Rightarrow> writer \<Rightarrow> bool" where
  "same_answer v w \<longleftrightarrow> w_status v = w_status w \<and> w_body v = w_body w \<and>
     header_Get (w_sent v) ''Content-Type'' = header_Get (w_sent w) ''Content-Type''"

lemma keyed_write_handle:
  assumes "keyed_write cfg r = Some (k, b, r1)"
  shows "idempotency_Middleware store cfg x next r w s = handle store cfg x next k r w s"
    and "readBody r = Inr (b, r1)" and "rq_Method r1 = rq_Method r" and "rq_Path r1 = rq_Path r"
  using assms by (auto simp: keyed_write_def idempotency_Middleware_def readBody_def Let_def
      split: if_splits sum.splits option.splits prod.splits)

lemma keyed_write_granted:
  assumes "keyed_write cfg r = Some (k, b, r1)"
    and "st_Reserve store x (rq_Context r1) k (Fingerprint (rq_Method r1) (rq_Path r1) b) (id_ttl cfg) s = (Inr (Inl u), s0)"
  shows "idempotency_Middleware store cfg x h r w s = execute store x h u r1 w s0"
  by (simp add: keyed_write_handle(1,2) [OF assms(1)] handle_def Let_def assms(2))

lemmas writer_defs = conn_writer_def recorder_def set_header_def header_Set_def header_Get_def
  WriteHeader_def Write_def Let_def

text \<open>A replay of what was stored, on a fresh connection, is the answer that was sent.\<close>

lemma replay_same_answer:
  assumes "fp = fp'"
  shows "same_answer (replay r (completed fp' (w_status rec) (header_Get (w_header rec) ''Content-Type'') (w_body rec)) fp conn_writer)
      (flush rec conn_writer)"
    and "header_Get (w_sent (replay r (completed fp' st ct b) fp conn_writer)) HeaderReplayed = ''true''"
  using assms
  by (auto simp: same_answer_def replay_def completed_def Completed_def flush_def writer_defs HeaderReplayed_def
      split: option.splits list.splits)

text \<open>
  \<open>sees\<close> is what a reservation of a key finds, \<open>live\<close> that a unit is an open reservation of a
  key for a fingerprint, \<open>current\<close> that what is held under a key is still honoured, and
  \<open>exact\<close> that the environment delivers a body to the store as it was sent.
\<close>

locale idempotency_store =
  fixes store :: "('u, 's) idem_store"
    and sees :: "idem_env \<Rightarrow> 's \<Rightarrow> string \<Rightarrow> idem_record option"
    and live :: "'u \<Rightarrow> string \<Rightarrow> string \<Rightarrow> 's \<Rightarrow> bool"
    and current :: "idem_env \<Rightarrow> 's \<Rightarrow> string \<Rightarrow> bool"
    and exact :: "idem_env \<Rightarrow> bool"
  assumes reserve_error: "st_Reserve store x c k fp ttl s = (Inl e, s') \<Longrightarrow> s' = s"
    and reserve_seen: "st_Reserve store x c k fp ttl s = (Inr (Inr seen), s') \<Longrightarrow> s' = s \<and> sees x s k = Some seen"
    and reserve_granted: "st_Reserve store x c k fp ttl s = (Inr (Inl u), s') \<Longrightarrow> sees x s k = None \<and> live u k fp s'"
    and complete_holds: "live u k fp s \<Longrightarrow> u_Complete store x st ct b u s = (None, u', s') \<Longrightarrow> exact x \<Longrightarrow>
          current y s' k \<Longrightarrow> sees y s' k = Some (completed fp st ct b)"
    and complete_finishes: "u_Complete store x st ct b u s = (oe, u', s') \<Longrightarrow> u_Abandon store u' t = (u', t)"
    and abandon_frees: "live u k fp s \<Longrightarrow> u_Abandon store u s = (u', s') \<Longrightarrow> sees y s' k = None"
    and abandon_finishes: "u_Abandon store u s = (u', s') \<Longrightarrow> u_Abandon store u' t = (u', t)"
begin

lemma reserve_held:
  assumes "sees x s k = Some seen"
  shows "st_Reserve store x c k fp ttl s = (Inr (Inr seen), s) \<or> (\<exists>e. st_Reserve store x c k fp ttl s = (Inl e, s))"
proof -
  obtain a s' where res: "st_Reserve store x c k fp ttl s = (a, s')" by fastforce
  consider e where "a = Inl e" | rc where "a = Inr (Inr rc)" | u where "a = Inr (Inl u)"
    by (metis sumE)
  then show ?thesis
    using res assms reserve_error reserve_seen reserve_granted by cases fastforce+
qed

text \<open>A key that is held is answered without running the handler and without touching the state.\<close>

lemma held_key_not_executed:
  assumes "sees x s key = Some seen" and "readBody r = Inr (body, r')"
  shows "handle store cfg x next key r w s =
      (replay r' seen (Fingerprint (rq_Method r') (rq_Path r') body) w, None, s) \<or>
    handle store cfg x next key r w s =
      (WriteProblem r' 503 ''could not record the idempotency key; retry with the same key'' w, None, s)"
  using reserve_held [OF assms(1), of "rq_Context r'" "Fingerprint (rq_Method r') (rq_Path r') body" "id_ttl cfg"]
  by (auto simp: handle_def assms(2) Let_def)

text \<open>What a granted request does, once its handler has answered.\<close>

lemma execute_stores:
  assumes "h (identityRequest (u_Context store u) r) recorder s = (rec, None, s1)"
    and "stored (w_status rec)" and "live u k fp s1"
    and "u_Complete store x (w_status rec) (header_Get (w_header rec) ''Content-Type'') (w_body rec) u s1 = (None, u1, s2)"
    and "exact x"
  shows "execute store x h u r w s = (flush rec w, None, s2)"
    and "current y s2 k \<Longrightarrow>
      sees y s2 k = Some (completed fp (w_status rec) (header_Get (w_header rec) ''Content-Type'') (w_body rec))"
  using assms complete_holds [OF assms(3,4,5)] complete_finishes [OF assms(4)]
  by (simp_all add: execute_def)

lemma execute_releases:
  assumes "h (identityRequest (u_Context store u) r) recorder s = (rec, p, s1)"
    and "live u k fp s1" and "p = None \<Longrightarrow> \<not> stored (w_status rec)"
    and "execute store x h u r w s = (w', q, s')"
  shows "q = p \<and> sees y s' k = None \<and> w' = (if p = None then flush rec w else w)"
proof -
  obtain u2 s2 where ab: "u_Abandon store u s1 = (u2, s2)" by fastforce
  show ?thesis
    using assms ab abandon_frees [OF assms(2) ab] abandon_finishes [OF ab]
    by (cases p) (auto simp: execute_def)
qed

text \<open>While a stored response is held under a key, a retry is answered with it.\<close>

lemma held_then_replayed:
  assumes retry: "keyed_write cfg r' = Some (k, b, r2)"
    and same: "rq_Method r' = m" "canonicalPath (rq_Path r') = canonicalPath p"
    and held: "sees y s k = Some (completed (Fingerprint m p b) st ct body)"
    and works: "\<And>c fp ttl e. fst (st_Reserve store y c k fp ttl s) \<noteq> Inl e"
  shows "idempotency_Middleware store cfg y h' r' conn_writer s =
    (replay r2 (completed (Fingerprint m p b) st ct body) (Fingerprint m p b) conn_writer, None, s)"
proof -
  note k2 = keyed_write_handle [OF retry]
  have fp: "Fingerprint (rq_Method r2) (rq_Path r2) b = Fingerprint m p b"
    using same k2(3,4) by (simp add: Fingerprint_def fingerprint_input_inject fingerprint_input_def)
  have "st_Reserve store y (rq_Context r2) k (Fingerprint m p b) (id_ttl cfg) s =
      (Inr (Inr (completed (Fingerprint m p b) st ct body)), s)"
    using reserve_held [OF held] works by (metis fst_conv)
  then show ?thesis by (simp add: k2(1,2) handle_def Let_def fp)
qed

lemma executed_then_replayed:
  assumes first: "keyed_write cfg r = Some (k, b, r1)" and retry: "keyed_write cfg r' = Some (k, b, r2)"
    and same: "rq_Method r' = rq_Method r" "canonicalPath (rq_Path r') = canonicalPath (rq_Path r)"
    and res: "st_Reserve store x (rq_Context r1) k (Fingerprint (rq_Method r1) (rq_Path r1) b) (id_ttl cfg) s = (Inr (Inl u), s0)"
    and run: "h (identityRequest (u_Context store u) r1) recorder s0 = (rec, None, s1)"
    and ok: "stored (w_status rec)" and live: "live u k (Fingerprint (rq_Method r1) (rq_Path r1) b) s1"
    and com: "u_Complete store x (w_status rec) (header_Get (w_header rec) ''Content-Type'') (w_body rec) u s1 = (None, u1, s2)"
    and "exact x" and "current y s2 k"
    and later: "sees y s3 k = sees y s2 k"
    and works: "\<And>c fp ttl e. fst (st_Reserve store y c k fp ttl s3) \<noteq> Inl e"
  shows "\<exists>w1 w2. idempotency_Middleware store cfg x h r conn_writer s = (w1, None, s2) \<and>
    idempotency_Middleware store cfg y h' r' conn_writer s3 = (w2, None, s3) \<and>
    same_answer w2 w1 \<and> header_Get (w_sent w2) HeaderReplayed = ''true''"
proof -
  note stores = execute_stores [where h = h and u = u and r = r1 and s = s0, OF run ok live com \<open>exact x\<close>]
  have one: "idempotency_Middleware store cfg x h r conn_writer s = (flush rec conn_writer, None, s2)"
    by (simp add: keyed_write_granted [OF first res] stores(1))
  have "rq_Method r' = rq_Method r1" and "canonicalPath (rq_Path r') = canonicalPath (rq_Path r1)"
    using same keyed_write_handle(3,4) [OF first] by simp_all
  from held_then_replayed [OF retry this _ works] stores(2) [OF \<open>current y s2 k\<close>] later one
  show ?thesis using replay_same_answer [OF refl] by fastforce
qed

end

subsection \<open>The in-memory store keeps the contract\<close>

definition mem_sees :: "idem_env \<Rightarrow> 'a \<times> mem_keys \<Rightarrow> string \<Rightarrow> idem_record option" where
  "mem_sees x s k =
     (case map_of (snd s) k of None \<Rightarrow> None | Some h \<Rightarrow> if mr_expires h > ie_now x then Some (mr_rec h) else None)"

definition mem_live :: "mem_unit \<Rightarrow> string \<Rightarrow> string \<Rightarrow> 'a \<times> mem_keys \<Rightarrow> bool" where
  "mem_live u k fp s \<longleftrightarrow> mu_key u = k \<and> \<not> mu_done u \<and>
     (case map_of (snd s) k of None \<Rightarrow> False | Some h \<Rightarrow> mr_rec h = in_progress fp)"

definition mem_current :: "idem_env \<Rightarrow> 'a \<times> mem_keys \<Rightarrow> string \<Rightarrow> bool" where
  "mem_current x s k \<longleftrightarrow> (case map_of (snd s) k of None \<Rightarrow> False | Some h \<Rightarrow> mr_expires h > ie_now x)"

lemmas mem_store_defs = MemoryStore_def mem_Reserve_def mem_Complete_def mem_Abandon_def mem_sees_def
  mem_live_def mem_current_def Let_def

lemma map_of_AList_delete [simp]: "map_of (AList.delete k al) = (map_of al)(k := None)"
  by (simp add: delete_conv')

lemma map_of_AList_update [simp]: "map_of (AList.update k v al) = (map_of al)(k \<mapsto> v)"
  by (simp add: update_conv')

interpretation mem_idem: idempotency_store MemoryStore mem_sees mem_live mem_current "\<lambda>_. True"
proof unfold_locales
  fix u k fp s x st ct b u' s' y
  assume "mem_live u k fp s" and "u_Complete MemoryStore x st ct b u s = (None, u', s')" and "mem_current y s' k"
  then show "mem_sees y s' k = Some (completed fp st ct b)"
    by (auto simp: mem_store_defs in_progress_def completed_def split: option.splits if_splits)
qed (auto simp: mem_store_defs split: option.splits if_splits)

end
