(* ===== verification/Idempotency_Mem.thy ===== *)
theory Idempotency_Mem
  imports Idempotency
begin

text \<open>
  The in-memory store under interleaving. Its operations are atomic under a mutex, so a run is a
  list of them, from any number of requests, with the requests' handlers in between. A key's entry
  survives every such run until it expires or its own unit finishes.
\<close>

datatype 'a mem_op =
    OpReserve idem_env ctx string string duration
  | OpComplete idem_env int string string mem_unit
  | OpAbandon mem_unit
  | OpPurge idem_env
  | OpHandler "'a \<Rightarrow> 'a"

fun mem_step :: "'a mem_op \<Rightarrow> 'a \<times> mem_keys \<Rightarrow> 'a \<times> mem_keys" where
  "mem_step (OpReserve x c k fp ttl) s = snd (mem_Reserve x c k fp ttl s)"
| "mem_step (OpComplete x st ct b u) s = snd (snd (mem_Complete x st ct b u s))"
| "mem_step (OpAbandon u) s = snd (mem_Abandon u s)"
| "mem_step (OpPurge x) s = snd (mem_Purge x s)"
| "mem_step (OpHandler f) s = (f (fst s), snd s)"

text \<open>The operations of other requests while a key's entry has not expired.\<close>

fun foreign :: "string \<Rightarrow> time \<Rightarrow> 'a mem_op \<Rightarrow> bool" where
  "foreign k e (OpReserve x c k' fp ttl) \<longleftrightarrow> ie_now x < e"
| "foreign k e (OpComplete x st ct b u) \<longleftrightarrow> mu_key u \<noteq> k \<or> mu_done u"
| "foreign k e (OpAbandon u) \<longleftrightarrow> mu_key u \<noteq> k \<or> mu_done u"
| "foreign k e (OpPurge x) \<longleftrightarrow> ie_now x < e"
| "foreign k e (OpHandler f) \<longleftrightarrow> True"

definition mem_run :: "'a mem_op list \<Rightarrow> 'a \<times> mem_keys \<Rightarrow> 'a \<times> mem_keys" where
  "mem_run ops s = fold mem_step ops s"

lemma map_of_filter_keep:
  assumes "map_of al k = Some v" and "P (k, v)"
  shows "map_of (filter P al) k = Some v"
  using assms by (induction al) (auto split: if_splits)

lemma mem_step_keeps:
  assumes "map_of (snd s) k = Some h" and "foreign k (mr_expires h) op"
  shows "map_of (snd (mem_step op s)) k = Some h"
proof (cases op)
  case (OpPurge x)
  with assms show ?thesis by (auto simp: mem_Purge_def Let_def intro!: map_of_filter_keep)
qed (use assms in \<open>auto simp: mem_Reserve_def mem_Complete_def mem_Abandon_def Let_def split: option.splits\<close>)

lemma mem_run_keeps:
  assumes "map_of (snd s) k = Some h" and "list_all (foreign k (mr_expires h)) ops"
  shows "map_of (snd (mem_run ops s)) k = Some h"
  using assms unfolding mem_run_def
  by (induction ops arbitrary: s) (simp_all add: mem_step_keeps)

definition app_only :: "('a \<times> mem_keys) handler \<Rightarrow> bool" where
  "app_only h \<longleftrightarrow> (\<forall>r w s. snd (snd (snd (h r w s))) = snd s)"

lemma app_only_keys: "app_only h \<Longrightarrow> h r w s = (w', p, s') \<Longrightarrow> snd s' = snd s"
  by (metis app_only_def snd_conv)

lemma mem_Reserve_fresh:
  assumes "mem_sees x s k = None"
  shows "mem_Reserve x c k fp ttl s =
    (Inr (Inl \<lparr>mu_key = k, mu_ctx = c, mu_done = False\<rparr>), fst s,
     AList.update k \<lparr>mr_rec = in_progress fp, mr_expires = ie_later x + ttl\<rparr> (snd s))"
  using assms by (auto simp: mem_Reserve_def mem_sees_def Let_def split: option.splits if_splits)

lemma mem_Reserve_works: "fst (st_Reserve MemoryStore y c k fp ttl s) \<noteq> Inl e"
  by (auto simp: MemoryStore_def mem_Reserve_def Let_def split: option.split)


definition demo_idem_env :: "time \<Rightarrow> idem_env" where
  "demo_idem_env t = \<lparr>ie_now = t, ie_later = t, ie_begin = None, ie_reserve = None, ie_complete = None,
     ie_commit = DbOk, ie_lead = Inr True, ie_interval = (\<lambda>_. 1000), ie_bytea = (\<lambda>b. if b = [] then None else Some b)\<rparr>"

definition demo_idem_cfg :: idempotency_cfg where
  "demo_idem_cfg = idempotency_defaults\<lparr>id_ttl := 1000\<rparr>"

definition demo_post :: "string \<Rightarrow> request" where
  "demo_post path = \<lparr>rq_Method = ''POST'', rq_Path = path, rq_Header = [HeaderKey \<mapsto> [''k1'']],
     rq_ContentLength = 2, rq_Body = Some (''{}'', None), rq_RemoteAddr = ''10.0.0.1:5000'',
     rq_Context = \<lparr>cx_request_id = ''r1'', cx_identity = None, cx_tx = False\<rparr>\<rparr>"

text \<open>A handler that counts how often it ran.\<close>

definition demo_counter :: "(nat \<times> mem_keys) handler" where
  "demo_counter r w s = (Write ''{}'' (WriteHeader 201 (set_header ''Content-Type'' ''application/json'' w)), None,
     Suc (fst s), snd s)"

lemma demo_key_ok: "CheckKey ''k1'' (id_max_key_bytes idempotency_defaults) = None"
  by code_simp

lemma demo_keyed:
  "keyed_write demo_idem_cfg (demo_post p) = Some (''k1'', ''{}'', demo_post p)"
  using demo_key_ok
  by (simp add: keyed_write_def demo_post_def demo_idem_cfg_def idempotency_defaults_def HeaderKey_def
      header_Get_def safeMethod_def readBody_def ReadAll_def Let_def)

lemma demo_counter_app: "app_only demo_counter"
  by (simp add: app_only_def demo_counter_def)

lemma demo_first:
  "idempotency_Middleware MemoryStore demo_idem_cfg (demo_idem_env 5) demo_counter (demo_post ''/tasks'') conn_writer (0, [])
    = (Write ''{}'' (WriteHeader 201 (set_header ''Content-Type'' ''application/json'' conn_writer)), None,
       1, [(''k1'', \<lparr>mr_rec = completed (Fingerprint ''POST'' ''/tasks'' ''{}'') 201 ''application/json'' ''{}'',
                      mr_expires = 1005\<rparr>)])"
proof -
  have "mem_sees (demo_idem_env 5) (0 :: nat, []) ''k1'' = None" by (simp add: mem_sees_def)
  from mem_Reserve_fresh [OF this] show ?thesis
    by (subst keyed_write_granted [OF demo_keyed])
      (auto simp: MemoryStore_def execute_def demo_counter_def stored_def mem_Complete_def mem_Abandon_def
        demo_post_def demo_idem_env_def demo_idem_cfg_def flush_def writer_defs in_progress_def completed_def)
qed


text \<open>
  C40: A reservation that outlives its time to live is not tied to its unit. When a second request takes a key over after the first one's reservation expired, the first request's completion marks the second one's entry completed with the first one's response: a retry of the second request is then answered with a response to another request. Abandoning the first unit likewise deletes the second one's reservation, so a third request runs beside it.\<close>
theorem memory_expired_unit_clobbers:
  assumes "mem_Reserve x c k fp ttl s = (Inr (Inl u), s1)"
    and "ie_now y \<ge> ie_later x + ttl"
    and "mem_Reserve y c' k fp' ttl' s1 = (Inr (Inl u'), s2)"
    and "ie_now z < ie_later y + ttl'"
  shows "mem_sees z (snd (snd (mem_Complete x st ct b u s2))) k = Some (completed fp' st ct b) \<and>
    mem_sees z (snd (mem_Abandon u s2)) k = None"
  using assms
  by (auto simp: mem_Reserve_def mem_Complete_def mem_Abandon_def mem_sees_def in_progress_def completed_def Let_def
      split: option.splits if_splits)

theorem memory_expired_unit_clobbers_witness:
  "mem_sees (demo_idem_env 1500)
     (snd (snd (mem_Complete (demo_idem_env 0) 201 ''text/plain'' ''A'' \<lparr>mu_key = ''k'', mu_ctx = rq_Context (demo_post []), mu_done = False\<rparr>
        ((), [(''k'', \<lparr>mr_rec = in_progress ''B'', mr_expires = 2000\<rparr>)])))) ''k'' = Some (completed ''B'' 201 ''text/plain'' ''A'')"
proof -
  let ?c = "rq_Context (demo_post [])" and ?e = demo_idem_env
  have first: "mem_Reserve (?e 0) ?c ''k'' ''A'' 1000 ((), []) =
      (Inr (Inl \<lparr>mu_key = ''k'', mu_ctx = ?c, mu_done = False\<rparr>), (), [(''k'', \<lparr>mr_rec = in_progress ''A'', mr_expires = 1000\<rparr>)])"
    by (simp add: mem_Reserve_def demo_idem_env_def Let_def)
  have second: "mem_Reserve (?e 1000) ?c ''k'' ''B'' 1000 ((), [(''k'', \<lparr>mr_rec = in_progress ''A'', mr_expires = 1000\<rparr>)]) =
      (Inr (Inl \<lparr>mu_key = ''k'', mu_ctx = ?c, mu_done = False\<rparr>), (), [(''k'', \<lparr>mr_rec = in_progress ''B'', mr_expires = 2000\<rparr>)])"
    by (simp add: mem_Reserve_def demo_idem_env_def Let_def)
  show ?thesis
    using memory_expired_unit_clobbers [OF first _ second, of "?e 1500" 201 "''text/plain''" "''A''"]
    by (simp add: demo_idem_env_def)
qed

end
