(* ===== verification/Idempotency_Pg.thy ===== *)
theory Idempotency_Pg
  imports Idempotency_Mem Outbox
begin

text \<open>
  The Postgres store of \<open>internal/idempotency/postgres.go\<close>, and what it gives together with the
  repository that joins its transaction: the task, its outbox row and the stored response are one
  commit.

  The database record of the repository is extended with the key table. Reserving opens the
  transaction; the unit remembers the state it started from, which abandoning returns to.
  Transactions are serialised here, as the row lock on a key serialises the requests that share it.
  The driver sends the recorder's bytes as \<open>ie_bytea\<close> says; an untouched buffer is a nil slice.
\<close>

record key_row =
  kr_key :: string
  kr_fingerprint :: string
  kr_state :: string
  kr_status :: "int option"
  kr_content_type :: "string option"
  kr_body :: "string option"
  kr_expires :: time

record pg_idem = pg_state +
  pg_keys :: "key_row list"

record pg_unit =
  pu_key :: string
  pu_ctx :: ctx
  pu_start :: pg_idem
  pu_done :: bool

text \<open>The columns \<open>reserveSQL\<close> returns, with its \<open>coalesce\<close>s.\<close>

definition key_record :: "key_row \<Rightarrow> idem_record" where
  "key_record r = \<lparr>rec_Fingerprint = kr_fingerprint r, rec_State = kr_state r,
     rec_StatusCode = (case kr_status r of None \<Rightarrow> 0 | Some n \<Rightarrow> n),
     rec_ContentType = (case kr_content_type r of None \<Rightarrow> [] | Some t \<Rightarrow> t),
     rec_Body = (case kr_body r of None \<Rightarrow> [] | Some b \<Rightarrow> b)\<rparr>"

definition WithTx :: "ctx \<Rightarrow> ctx" where
  "WithTx c = c\<lparr>cx_tx := True\<rparr>"

definition pg_Reserve ::
  "idem_env \<Rightarrow> ctx \<Rightarrow> string \<Rightarrow> string \<Rightarrow> duration \<Rightarrow> pg_idem \<Rightarrow> (pg_unit + idem_record) result \<times> pg_idem"
where
  "pg_Reserve x c key fp ttl s =
     (case ie_begin x of
        Some e \<Rightarrow> (Inl (WrapError ''idempotency: begin: '' e), s)
      | None \<Rightarrow>
          (case ie_reserve x of
             Some e \<Rightarrow> (Inl (WrapError (''idempotency: reserve '' @ go_quote key @ '': '') e), s)
           | None \<Rightarrow>
               (case sql_find kr_key key (pg_keys s) of
                  Some row \<Rightarrow> (Inr (Inr (key_record row)), s)
                | None \<Rightarrow>
                    (Inr (Inl \<lparr>pu_key = key, pu_ctx = WithTx c, pu_start = s, pu_done = False\<rparr>),
                     s\<lparr>pg_keys := pg_keys s @ [\<lparr>kr_key = key, kr_fingerprint = fp, kr_state = StateInProgress,
                         kr_status = None, kr_content_type = None, kr_body = None,
                         kr_expires = ie_now x + ie_interval x (duration_string ttl)\<rparr>],
                       pg_after := []\<rparr>))))"

text \<open>\<open>completeSQL\<close>, under the constraint that a completed row has a response.\<close>

definition complete_key ::
  "string \<Rightarrow> int \<Rightarrow> string \<Rightarrow> string option \<Rightarrow> pg_idem \<Rightarrow> pg_idem result" where
  "complete_key key status ct body s =
     (if body = None \<and> sql_find kr_key key (pg_keys s) \<noteq> None then Inl check_violation
      else
        Inr (s\<lparr>pg_keys := sql_update (\<lambda>r. kr_key r = key)
                 (\<lambda>r. r\<lparr>kr_state := StateCompleted, kr_status := Some status, kr_content_type := Some ct,
                        kr_body := body\<rparr>) (pg_keys s)\<rparr>))"

definition pg_Complete ::
  "idem_env \<Rightarrow> int \<Rightarrow> string \<Rightarrow> string \<Rightarrow> pg_unit \<Rightarrow> pg_idem \<Rightarrow> go_error option \<times> pg_unit \<times> pg_idem"
where
  "pg_Complete x status contentType body u s =
     (if pu_done u then (Some (PlainError ''idempotency: unit already finished''), u, s)
      else
        (let u' = u\<lparr>pu_done := True\<rparr> in
         case (case ie_complete x of
                 Some e \<Rightarrow> Inl e
               | None \<Rightarrow> complete_key (pu_key u) status contentType (ie_bytea x body) s) of
           Inl e \<Rightarrow>
             (Some (WrapError (''idempotency: complete '' @ go_quote (pu_key u) @ '': '') e), u', rollback (pu_start u) s)
         | Inr s1 \<Rightarrow>
             (case ie_commit x of
                DbFailed e \<Rightarrow>
                  (Some (WrapError (''idempotency: commit '' @ go_quote (pu_key u) @ '': '') e), u', rollback (pu_start u) s1)
              | DbLost e \<Rightarrow>
                  (Some (WrapError (''idempotency: commit '' @ go_quote (pu_key u) @ '': '') e), u', s1)
              | DbOk \<Rightarrow> (None, u', RunAfterCommit (cx_tx (pu_ctx u)) s1))))"

definition pg_Abandon :: "pg_unit \<Rightarrow> pg_idem \<Rightarrow> pg_unit \<times> pg_idem" where
  "pg_Abandon u s =
     (if pu_done u then (u, s) else (u\<lparr>pu_done := True\<rparr>, rollback (pu_start u) s))"

text \<open>The sweep runs under the fleet's advisory lock; whoever does not get it deletes nothing.\<close>

definition pg_Purge :: "idem_env \<Rightarrow> pg_idem \<Rightarrow> nat result \<times> pg_idem" where
  "pg_Purge x s =
     (case ie_begin x of
        Some e \<Rightarrow> (Inl (WrapError ''idempotency: purge: begin: '' e), s)
      | None \<Rightarrow>
          (case ie_lead x of
             Inl e \<Rightarrow> (Inl e, s)
           | Inr led \<Rightarrow>
               if \<not> led then (Inr 0, s)
               else
                 (let expired = (\<lambda>r. kr_expires r < ie_now x);
                      s1 = s\<lparr>pg_keys := filter (\<lambda>r. \<not> expired r) (pg_keys s)\<rparr> in
                  case ie_reserve x of
                    Some e \<Rightarrow> (Inl (WrapError ''idempotency: purge: '' e), s)
                  | None \<Rightarrow>
                      (case ie_commit x of
                         DbFailed e \<Rightarrow> (Inl (WrapError ''idempotency: purge: commit: '' e), s)
                       | DbLost e \<Rightarrow> (Inl (WrapError ''idempotency: purge: commit: '' e), s1)
                       | DbOk \<Rightarrow> (Inr (sql_count expired (pg_keys s)), s1)))))"

definition PostgresStore :: "(pg_unit, pg_idem) idem_store" where
  "PostgresStore = \<lparr>st_Reserve = pg_Reserve, st_Purge = pg_Purge, u_Context = pu_ctx,
     u_Complete = pg_Complete, u_Abandon = pg_Abandon\<rparr>"

subsection \<open>The Postgres store keeps the contract\<close>

definition pg_sees :: "idem_env \<Rightarrow> pg_idem \<Rightarrow> string \<Rightarrow> idem_record option" where
  "pg_sees x s k = map_option key_record (sql_find kr_key k (pg_keys s))"

definition pg_live :: "pg_unit \<Rightarrow> string \<Rightarrow> string \<Rightarrow> pg_idem \<Rightarrow> bool" where
  "pg_live u k fp s \<longleftrightarrow> pu_key u = k \<and> \<not> pu_done u \<and> cx_tx (pu_ctx u) \<and>
     sql_find kr_key k (pg_keys (pu_start u)) = None \<and>
     (case sql_find kr_key k (pg_keys s) of None \<Rightarrow> False | Some r \<Rightarrow> kr_fingerprint r = fp)"

definition pg_exact :: "idem_env \<Rightarrow> bool" where
  "pg_exact x \<longleftrightarrow> (\<forall>b b'. ie_bytea x b = Some b' \<longrightarrow> b' = b)"

lemma sql_find_snoc: "sql_find key k (rows @ [r]) =
    (case sql_find key k rows of Some x \<Rightarrow> Some x | None \<Rightarrow> if key r = k then Some r else None)"
  by (induction rows) (auto simp: sql_find_def)

lemma pg_keys_rollback [simp]: "pg_keys (rollback s s') = pg_keys s"
  by (simp add: rollback_def)

lemma pg_keys_RunAfterCommit [simp]: "pg_keys (RunAfterCommit j s) = pg_keys s"
  by (simp add: RunAfterCommit_def)

lemma complete_key_sees:
  assumes "complete_key k st ct body s = Inr s'" and "sql_find kr_key k (pg_keys s) = Some r"
  shows "\<exists>b. body = Some b \<and> pg_sees y s' k = Some (completed (kr_fingerprint r) st ct b)"
proof -
  obtain b where b: "body = Some b" using assms by (cases body) (auto simp: complete_key_def)
  have "kr_key r = k" using sql_find_in [OF assms(2)] by simp
  with assms b show ?thesis
    by (auto simp: complete_key_def pg_sees_def sql_find_update key_record_def completed_def)
qed

lemmas pg_store_defs = PostgresStore_def pg_Reserve_def pg_Complete_def pg_Abandon_def Let_def

interpretation pg_idem: idempotency_store PostgresStore pg_sees pg_live "\<lambda>_ _ _. True" pg_exact
proof unfold_locales
  fix u k fp s x st ct b u' s' y
  assume live: "pg_live u k fp s" and com: "u_Complete PostgresStore x st ct b u s = (None, u', s')" and "pg_exact x"
  from live obtain r where r: "sql_find kr_key k (pg_keys s) = Some r" "kr_fingerprint r = fp" "pu_key u = k"
    by (auto simp: pg_live_def split: option.splits)
  from com obtain s1 where s1: "complete_key (pu_key u) st ct (ie_bytea x b) s = Inr s1" "pg_keys s' = pg_keys s1"
    by (auto simp: pg_store_defs split: if_splits option.splits sum.splits db_outcome.splits)
  with complete_key_sees [of k st ct "ie_bytea x b" s s1 r y] r \<open>pg_exact x\<close>
  show "pg_sees y s' k = Some (completed fp st ct b)" by (auto simp: pg_exact_def pg_sees_def)
qed (auto simp: pg_store_defs pg_sees_def pg_live_def WithTx_def sql_find_snoc
    split: option.splits if_splits sum.splits db_outcome.splits)

subsection \<open>One commit for the task, its event and the stored response\<close>

text \<open>
  What the middleware asks of the handler: under the unit's transaction it touches neither the key
  table nor the notification channel. The repository's writes keep this, since joined to a
  transaction they register their notification instead of sending it.
\<close>

definition in_tx :: "pg_idem handler \<Rightarrow> bool" where
  "in_tx h \<longleftrightarrow> (\<forall>r w s. cx_tx (rq_Context r) \<longrightarrow>
     pg_keys (snd (snd (h r w s))) = pg_keys s \<and> pg_sent (snd (snd (h r w s))) = pg_sent s)"

lemma in_tx_keeps:
  "in_tx h \<Longrightarrow> cx_tx (rq_Context r) \<Longrightarrow> h r w s = (w', p, s') \<Longrightarrow> pg_keys s' = pg_keys s \<and> pg_sent s' = pg_sent s"
  by (metis in_tx_def snd_conv)

lemma enqueue_event_tx:
  "enqueue_event lib c name t s = (r, s') \<Longrightarrow> pg_keys s' = pg_keys s \<and> pg_sent s' = pg_sent s"
  by (auto simp: enqueue_event_def Let_def split: prod.splits)

lemma pg_write_tx:
  assumes "\<And>s r s'. fn s = (r, s') \<Longrightarrow> pg_keys s' = pg_keys s \<and> pg_sent s' = pg_sent s"
    and "pg_write lib True c name fn s = (r, s')"
  shows "pg_keys s' = pg_keys s \<and> pg_sent s' = pg_sent s"
  using assms by (fastforce simp: pg_write_def AfterCommit_def Let_def dest: enqueue_event_tx
      split: prod.splits sum.splits)

lemma pgrepo_writes_tx:
  fixes s :: pg_idem
  shows "pgrepo_Create lib True c t s = (r, s') \<Longrightarrow> pg_keys s' = pg_keys s \<and> pg_sent s' = pg_sent s"
    and "pgrepo_Update lib True c t v s = (r, s') \<Longrightarrow> pg_keys s' = pg_keys s \<and> pg_sent s' = pg_sent s"
    and "pgrepo_Delete lib True c i s = (e, s') \<Longrightarrow> pg_keys s' = pg_keys s \<and> pg_sent s' = pg_sent s"
proof -
  show "pgrepo_Create lib True c t s = (r, s') \<Longrightarrow> pg_keys s' = pg_keys s \<and> pg_sent s' = pg_sent s"
    unfolding pgrepo_Create_def
    by (erule pg_write_tx [rotated]) (auto simp: insert_task_def Let_def split: option.splits if_splits prod.splits sum.splits)
  show "pgrepo_Update lib True c t v s = (r, s') \<Longrightarrow> pg_keys s' = pg_keys s \<and> pg_sent s' = pg_sent s"
    unfolding pgrepo_Update_def
    by (erule pg_write_tx [rotated]) (auto simp: update_task_def Let_def split: option.splits if_splits prod.splits sum.splits)
  assume "pgrepo_Delete lib True c i s = (e, s')"
  then obtain r where "pg_write lib True c EventDeleted
             (\<lambda>s. case (case pc_stmt c of Some e \<Rightarrow> (Inl e, s) | None \<Rightarrow> delete_task i s) of
                    (Inl e, s') \<Rightarrow>
                      (if errors_is_lib e NoRows then Inl ErrNotFound
                       else Inl (WrapError ''delete task: '' e), s')
                  | (Inr u, s') \<Rightarrow> (Inr u, s')) s = (r, s')"
    unfolding pgrepo_Delete_def by (auto split: prod.splits sum.splits)
  then show "pg_keys s' = pg_keys s \<and> pg_sent s' = pg_sent s"
    by (rule pg_write_tx [rotated]) (auto simp: delete_task_def split: option.splits if_splits prod.splits sum.splits)
qed

lemma pg_Reserve_granted:
  assumes "pg_Reserve x c k fp ttl s = (Inr (Inl u), s0)"
  shows "pg_live u k fp s0 \<and> pu_start u = s \<and> pu_ctx u = WithTx c \<and> pg_sent s0 = pg_sent s"
  using assms pg_idem.reserve_granted [of x c k fp ttl s u s0]
  by (auto simp: pg_store_defs split: option.splits)

text \<open>The two ways a granted write ends: everything it wrote is in, with its response, or nothing is.\<close>

definition all_in :: "string \<Rightarrow> string \<Rightarrow> writer \<Rightarrow> pg_idem \<Rightarrow> pg_idem \<Rightarrow> pg_idem \<Rightarrow> bool" where
  "all_in k fp rec s s1 s' \<longleftrightarrow>
     pg_tasks s' = pg_tasks s1 \<and> pg_jobs s' = pg_jobs s1 \<and>
     sql_find kr_key k (pg_keys s) = None \<and>
     map_option key_record (sql_find kr_key k (pg_keys s')) =
       Some (completed fp (w_status rec) (header_Get (w_header rec) ''Content-Type'') (w_body rec))"

definition none_in :: "pg_idem \<Rightarrow> pg_idem \<Rightarrow> bool" where
  "none_in s s' \<longleftrightarrow> pg_tasks s' = pg_tasks s \<and> pg_jobs s' = pg_jobs s \<and> pg_keys s' = pg_keys s \<and> pg_sent s' = pg_sent s"

lemma none_in_rollback: "none_in s (rollback s s')"
  by (simp add: none_in_def rollback_def)

lemma pg_Complete_ends:
  assumes "pg_Complete x st ct b u s1 = (oe, u', s')" and "pg_live u k fp s1" and "pg_exact x"
  shows "(oe \<noteq> None \<and> none_in (pu_start u) s') \<or>
    (pg_tasks s' = pg_tasks s1 \<and> pg_jobs s' = pg_jobs s1 \<and>
     map_option key_record (sql_find kr_key k (pg_keys s')) = Some (completed fp st ct b) \<and>
     pg_sent s' = pg_sent s1 @ (if oe = None then pg_after s1 else []))"
proof -
  from assms(2) obtain r where r: "sql_find kr_key k (pg_keys s1) = Some r" "kr_fingerprint r = fp" "pu_key u = k"
      "\<not> pu_done u" "cx_tx (pu_ctx u)"
    by (auto simp: pg_live_def split: option.splits)
  show ?thesis
  proof (cases "case ie_complete x of Some e \<Rightarrow> Inl e | None \<Rightarrow> complete_key k st ct (ie_bytea x b) s1")
    case (Inl e)
    with assms(1) r show ?thesis by (auto simp: pg_Complete_def none_in_rollback)
  next
    case (Inr s2)
    then have ck: "complete_key k st ct (ie_bytea x b) s1 = Inr s2" by (auto split: option.splits)
    then have "map_option key_record (sql_find kr_key k (pg_keys s2)) = Some (completed fp st ct b)"
      using complete_key_sees [OF ck r(1)] r(2) assms(3) by (auto simp: pg_exact_def pg_sees_def)
    moreover have "pg_tasks s2 = pg_tasks s1 \<and> pg_jobs s2 = pg_jobs s1 \<and> pg_sent s2 = pg_sent s1 \<and> pg_after s2 = pg_after s1"
      using ck by (auto simp: complete_key_def split: if_splits)
    ultimately show ?thesis
      using assms(1) r(3-5) Inr
      by (cases "ie_commit x") (auto simp: pg_Complete_def none_in_rollback RunAfterCommit_def)
  qed
qed

lemma pg_Complete_done: "pg_Complete x st ct b u s = (oe, u', s') \<Longrightarrow> pu_done u'"
  by (auto simp: pg_Complete_def Let_def split: if_splits sum.splits option.splits db_outcome.splits)

lemma conn_503 [simp]: "w_status (WriteProblem r 503 d conn_writer) = 503"
  by (simp add: WriteProblem_def writer_defs)

lemma flush_status [simp]: "w_status (flush rec conn_writer) = w_status rec"
  by (simp add: flush_def writer_defs)

text \<open>
  C1: A keyed write to Postgres is one commit. When the middleware grants the key and the handler, joined to its transaction, leaves the state s1 and the response rec, the request ends in one of two ways, whatever fails: either the task rows, the outbox rows and the key with exactly that response are all in the database, and the notifications the write registered have been sent if and only if the client was told of the success; or tasks, jobs, keys and notifications are all as they were before the request and the client was not told of a success.\<close>
theorem idempotent_write_atomic:
  assumes "keyed_write cfg r = Some (k, b, r1)" and "in_tx h" and "pg_exact x"
    and "pg_Reserve x (rq_Context r1) k (Fingerprint (rq_Method r1) (rq_Path r1) b) (id_ttl cfg) s = (Inr (Inl u), s0)"
    and "h (identityRequest (WithTx (rq_Context r1)) r1) recorder s0 = (rec, p, s1)"
    and "idempotency_Middleware PostgresStore cfg x h r conn_writer s = (w', p', s')"
  shows "(all_in k (Fingerprint (rq_Method r1) (rq_Path r1) b) rec s s1 s' \<and> p' = None \<and>
      (w' = flush rec conn_writer \<and> stored (w_status w') \<and> pg_sent s' = pg_sent s @ pg_after s1 \<or>
       w_status w' = 503 \<and> pg_sent s' = pg_sent s)) \<or>
    (none_in s s' \<and> (p' = None \<longrightarrow> \<not> stored (w_status w')))"
proof -
  let ?fp = "Fingerprint (rq_Method r1) (rq_Path r1) b"
  from pg_Reserve_granted [OF assms(4)] have u: "pg_live u k ?fp s0" "pu_start u = s" "pu_ctx u = WithTx (rq_Context r1)"
      "pg_sent s0 = pg_sent s" by auto
  have keep: "pg_keys s1 = pg_keys s0 \<and> pg_sent s1 = pg_sent s0"
    using in_tx_keeps [OF assms(2) _ assms(5)] by (simp add: identityRequest_def WithTx_def)
  then have live: "pg_live u k ?fp s1" and sent: "pg_sent s1 = pg_sent s" using u by (auto simp: pg_live_def)
  then have fresh: "\<not> pu_done u" "sql_find kr_key k (pg_keys s) = None" using u(2) by (auto simp: pg_live_def)
  have exec: "execute PostgresStore x h u r1 conn_writer s0 = (w', p', s')"
    using assms(6) keyed_write_granted [OF assms(1), of PostgresStore x s u s0] assms(4) by (simp add: PostgresStore_def)
  have run: "h (identityRequest (u_Context PostgresStore u) r1) recorder s0 = (rec, p, s1)"
    using assms(5) u(3) by (simp add: PostgresStore_def)
  have undone: "none_in s (rollback s s1)" by (rule none_in_rollback)
  let ?ct = "header_Get (w_header rec) ''Content-Type''"
  obtain oe u1 s2 where com: "pg_Complete x (w_status rec) ?ct (w_body rec) u s1 = (oe, u1, s2)" by (metis prod_cases3)
  have fin: "pu_done u1" using com by (rule pg_Complete_done)
  consider (panic) q where "p = Some q" | (failed) "p = None" "\<not> stored (w_status rec)"
    | (stored) "p = None" "stored (w_status rec)" by (cases p) auto
  then show ?thesis
  proof cases
    case stored
    have "s' = s2 \<and> p' = None \<and> w' = (if oe = None then flush rec conn_writer
        else WriteProblem r1 503 ''the write could not be committed; retry with the same key'' conn_writer)"
      using exec run stored com fin by (cases oe) (auto simp: execute_def PostgresStore_def pg_Abandon_def)
    with pg_Complete_ends [OF com live assms(3)] u(2) sent fresh(2) stored(2) show ?thesis
      by (cases oe) (auto simp: all_in_def stored_def)
  qed (use exec run fresh undone u(2) in \<open>auto simp: execute_def PostgresStore_def pg_Abandon_def\<close>)
qed

text \<open>A handler that creates a task through the repository, joined to the ambient transaction.\<close>

definition demo_create :: "task \<Rightarrow> pg_idem handler" where
  "demo_create t r w s =
     (case pgrepo_Create std_lib (cx_tx (rq_Context r)) demo_pg_ctx t s of
        (Inl e, s') \<Rightarrow> (WriteProblem r 500 ''internal error'' w, None, s')
      | (Inr t', s') \<Rightarrow> (Write (t_name t') (WriteHeader 201 (set_header ''Content-Type'' ''text/plain'' w)), None, s'))"

lemma demo_create_tx: "in_tx (demo_create t)"
  unfolding in_tx_def demo_create_def by (auto split: prod.splits sum.splits dest!: pgrepo_writes_tx(1))

definition demo_idem_db :: pg_idem where
  "demo_idem_db = pg_state.extend demo_pg \<lparr>pg_keys = []\<rparr>"

lemma demo_create_run:
  assumes "pg_view s 9 = None" and "cx_tx (rq_Context r)"
  shows "\<exists>s'. demo_create (demo_pg_task 9) r recorder s =
    (Write ''task'' (WriteHeader 201 (set_header ''Content-Type'' ''text/plain'' recorder)), None, s')"
proof -
  have "pg_storable (demo_pg_task 9)" "pg_view s (t_id (demo_pg_task 9)) = None"
    using assms(1) by (simp_all add: pg_storable_def tasks_check_def utf8_length_def demo_pg_task_def)
  from pgrepo_Create_works [OF demo_pg_working this, of std_lib True] assms(2) show ?thesis
    by (auto simp: demo_create_def demo_pg_task_def store_task_def)
qed

definition demo_answer :: writer where
  "demo_answer = Write ''task'' (WriteHeader 201 (set_header ''Content-Type'' ''text/plain'' recorder))"

text \<open>The first request of the examples, up to its commit, whatever becomes of that.\<close>

lemma demo_granted:
  fixes d r
  defines "x \<equiv> (demo_idem_env 5)\<lparr>ie_commit := d\<rparr>" and "r \<equiv> demo_post ''/tasks''"
  obtains u s0 s1 where
    "pg_Reserve x (rq_Context r) ''k1'' (Fingerprint (rq_Method r) (rq_Path r) ''{}'') (id_ttl demo_idem_cfg) demo_idem_db = (Inr (Inl u), s0)"
    "\<not> pu_done u" "pu_key u = ''k1''" "pu_ctx u = WithTx (rq_Context r)"
    "demo_create (demo_pg_task 9) (identityRequest (WithTx (rq_Context r)) r) recorder s0 = (demo_answer, None, s1)"
proof -
  obtain u s0 where res: "pg_Reserve x (rq_Context r) ''k1'' (Fingerprint (rq_Method r) (rq_Path r) ''{}'')
      (id_ttl demo_idem_cfg) demo_idem_db = (Inr (Inl u), s0)"
    and u: "\<not> pu_done u" "pu_key u = ''k1''" "pu_ctx u = WithTx (rq_Context r)" and s0: "pg_tasks s0 = pg_tasks demo_pg"
    by (simp add: x_def pg_Reserve_def demo_idem_env_def demo_idem_db_def sql_find_def pg_state.defs)
  have "pg_view s0 9 = None" using s0 by (simp add: pg_view_def sql_find_def demo_pg_def demo_pg_task_def)
  with demo_create_run [of s0 "identityRequest (WithTx (rq_Context r)) r"] res u show ?thesis
    by (auto intro: that simp: identityRequest_def WithTx_def demo_answer_def)
qed

lemma demo_answer_sent: "w_status demo_answer = 201" "w_body demo_answer = ''task''"
    "w_status (flush demo_answer conn_writer) = 201" "w_body (flush demo_answer conn_writer) = ''task''"
  by (simp_all add: demo_answer_def flush_def writer_defs)

lemma demo_env_exact: "pg_exact ((demo_idem_env t)\<lparr>ie_commit := d\<rparr>)"
  by (simp add: pg_exact_def demo_idem_env_def)

theorem idempotent_write_atomic_witness:
  "\<exists>s1 w' s'.
    idempotency_Middleware PostgresStore demo_idem_cfg ((demo_idem_env 5)\<lparr>ie_commit := DbOk\<rparr>) (demo_create (demo_pg_task 9))
      (demo_post ''/tasks'') conn_writer demo_idem_db = (w', None, s') \<and>
    w_status w' = 201 \<and> w_body w' = ''task'' \<and>
    all_in ''k1'' (Fingerprint ''POST'' ''/tasks'' ''{}'') demo_answer demo_idem_db s1 s'"
proof -
  let ?x = "(demo_idem_env 5)\<lparr>ie_commit := DbOk\<rparr>" and ?h = "demo_create (demo_pg_task 9)" and ?r = "demo_post ''/tasks''"
  obtain u s0 s1 where res: "pg_Reserve ?x (rq_Context ?r) ''k1'' (Fingerprint (rq_Method ?r) (rq_Path ?r) ''{}'')
      (id_ttl demo_idem_cfg) demo_idem_db = (Inr (Inl u), s0)" and u: "\<not> pu_done u" "pu_ctx u = WithTx (rq_Context ?r)"
    and run: "?h (identityRequest (WithTx (rq_Context ?r)) ?r) recorder s0 = (demo_answer, None, s1)"
    by (rule demo_granted)
  have "\<exists>s'. execute PostgresStore ?x ?h u ?r conn_writer s0 = (flush demo_answer conn_writer, None, s')"
    using run u by (simp add: execute_def pg_store_defs complete_key_def demo_idem_env_def stored_def demo_answer_sent)
  then obtain s' where mw: "idempotency_Middleware PostgresStore demo_idem_cfg ?x ?h ?r conn_writer demo_idem_db =
      (flush demo_answer conn_writer, None, s')"
    using keyed_write_granted [OF demo_keyed, of PostgresStore ?x "''/tasks''" demo_idem_db u s0] res by (auto simp: PostgresStore_def)
  from idempotent_write_atomic [OF demo_keyed demo_create_tx demo_env_exact res run mw] mw
  show ?thesis by (auto simp: demo_post_def stored_def demo_answer_sent)
qed

subsection \<open>Retries, also after a commit whose answer was lost\<close>

lemma pg_Reserve_works:
  "ie_begin y = None \<Longrightarrow> ie_reserve y = None \<Longrightarrow> fst (st_Reserve PostgresStore y c k fp ttl s) \<noteq> Inl e"
  by (auto simp: pg_store_defs split: option.split)

text \<open>
  C4: A committed keyed write is never run again. Suppose a keyed write's commit took effect, whether or not its answer reached the service, so that the client saw either the success or a 503. As long as the key's row is in the table, a retry with the same key, method, path and body is answered with the status, content type and body the handler produced the first time, marked as replayed, whatever handler is behind the middleware and without changing the database.\<close>
theorem postgres_retry_replays:
  assumes "keyed_write cfg r = Some (k, b, r1)" and "keyed_write cfg r' = Some (k, b, r2)"
    and "rq_Method r' = rq_Method r" and "canonicalPath (rq_Path r') = canonicalPath (rq_Path r)"
    and "in_tx h" and "pg_exact x"
    and "pg_Reserve x (rq_Context r1) k (Fingerprint (rq_Method r1) (rq_Path r1) b) (id_ttl cfg) s = (Inr (Inl u), s0)"
    and "h (identityRequest (WithTx (rq_Context r1)) r1) recorder s0 = (rec, None, s1)" and "stored (w_status rec)"
    and "pg_Complete x (w_status rec) (header_Get (w_header rec) ''Content-Type'') (w_body rec) u s1 = (oe, u1, s2)"
    and "oe = None \<or> ie_complete x = None \<and> ie_bytea x (w_body rec) \<noteq> None \<and> ie_commit x = DbLost e"
    and "sql_find kr_key k (pg_keys s3) = sql_find kr_key k (pg_keys s2)"
    and "ie_begin y = None" and "ie_reserve y = None"
  shows "\<exists>w2. idempotency_Middleware PostgresStore cfg y h' r' conn_writer s3 = (w2, None, s3) \<and>
    same_answer w2 (flush rec conn_writer) \<and> header_Get (w_sent w2) HeaderReplayed = ''true''"
proof -
  let ?fp = "Fingerprint (rq_Method r1) (rq_Path r1) b" and ?ct = "header_Get (w_header rec) ''Content-Type''"
  from pg_Reserve_granted [OF assms(7)] have u: "pg_live u k ?fp s0" by simp
  have "pg_keys s1 = pg_keys s0"
    using in_tx_keeps [OF assms(5) _ assms(8)] by (simp add: identityRequest_def WithTx_def)
  with u have live: "pg_live u k ?fp s1" by (simp add: pg_live_def)
  then obtain row where row: "sql_find kr_key k (pg_keys s1) = Some row" "kr_fingerprint row = ?fp"
      "pu_key u = k" "\<not> pu_done u"
    by (auto simp: pg_live_def split: option.splits)
  obtain s2' where ck: "complete_key k (w_status rec) ?ct (ie_bytea x (w_body rec)) s1 = Inr s2'" "pg_keys s2 = pg_keys s2'"
    using assms(10,11) row
    by (auto simp: pg_Complete_def complete_key_def Let_def split: option.splits sum.splits if_splits db_outcome.splits)
  then have "pg_sees y s3 k = Some (completed ?fp (w_status rec) ?ct (w_body rec))"
    using complete_key_sees [OF ck(1) row(1), of y] row(2) assms(6,12) by (auto simp: pg_exact_def pg_sees_def)
  moreover have "rq_Method r' = rq_Method r1" and "canonicalPath (rq_Path r') = canonicalPath (rq_Path r1)"
    using assms(3,4) keyed_write_handle(3,4) [OF assms(1)] by simp_all
  ultimately show ?thesis
    using pg_idem.held_then_replayed [OF assms(2) _ _ _ pg_Reserve_works [OF assms(13,14)]] replay_same_answer [OF refl]
    by blast
qed

theorem postgres_retry_replays_witness:
  "\<exists>w1 s2 w2.
    idempotency_Middleware PostgresStore demo_idem_cfg ((demo_idem_env 5)\<lparr>ie_commit := DbLost ContextCanceled\<rparr>)
      (demo_create (demo_pg_task 9)) (demo_post ''/tasks'') conn_writer demo_idem_db = (w1, None, s2) \<and> w_status w1 = 503 \<and>
    idempotency_Middleware PostgresStore demo_idem_cfg (demo_idem_env 6)
      (demo_create (demo_pg_task 9)) (demo_post ''/api/v1/tasks'') conn_writer s2 = (w2, None, s2) \<and>
    w_status w2 = 201 \<and> w_body w2 = ''task''"
proof -
  let ?x = "(demo_idem_env 5)\<lparr>ie_commit := DbLost ContextCanceled\<rparr>" and ?h = "demo_create (demo_pg_task 9)"
  let ?r = "demo_post ''/tasks''" and ?r' = "demo_post ''/api/v1/tasks''"
  obtain u s0 s1 where res: "pg_Reserve ?x (rq_Context ?r) ''k1'' (Fingerprint (rq_Method ?r) (rq_Path ?r) ''{}'')
      (id_ttl demo_idem_cfg) demo_idem_db = (Inr (Inl u), s0)" and u: "\<not> pu_done u" "pu_ctx u = WithTx (rq_Context ?r)"
    and run: "?h (identityRequest (WithTx (rq_Context ?r)) ?r) recorder s0 = (demo_answer, None, s1)"
    by (rule demo_granted)
  obtain oe u1 s2 where com: "pg_Complete ?x (w_status demo_answer) (header_Get (w_header demo_answer) ''Content-Type'')
      (w_body demo_answer) u s1 = (oe, u1, s2)" and lost: "oe \<noteq> None" "pu_done u1"
    using u by (simp add: pg_store_defs complete_key_def demo_idem_env_def demo_answer_sent)
  have "\<exists>w1. execute PostgresStore ?x ?h u ?r conn_writer s0 = (w1, None, s2) \<and> w_status w1 = 503"
    using run u com lost by (cases oe) (auto simp: execute_def PostgresStore_def pg_Abandon_def stored_def demo_answer_sent)
  then have first: "\<exists>w1. idempotency_Middleware PostgresStore demo_idem_cfg ?x ?h ?r conn_writer demo_idem_db = (w1, None, s2) \<and>
      w_status w1 = 503"
    using keyed_write_granted [OF demo_keyed, of PostgresStore ?x "''/tasks''" demo_idem_db u s0] res by (auto simp: PostgresStore_def)
  have "rq_Method ?r' = rq_Method ?r" "canonicalPath (rq_Path ?r') = canonicalPath (rq_Path ?r)"
    by (simp_all add: demo_post_def canonicalPath_def cut_prefix_def starts_with_def)
  from postgres_retry_replays [OF demo_keyed demo_keyed this demo_create_tx demo_env_exact res run _ com,
      of ContextCanceled s2 "demo_idem_env 6" ?h]
  have "\<exists>w2. idempotency_Middleware PostgresStore demo_idem_cfg (demo_idem_env 6) ?h ?r' conn_writer s2 = (w2, None, s2) \<and>
      same_answer w2 (flush demo_answer conn_writer)"
    by (auto simp: stored_def demo_answer_sent demo_idem_env_def)
  with first show ?thesis by (auto simp: same_answer_def demo_answer_sent)
qed

subsection \<open>A committed key always has its response\<close>

definition settled :: "key_row \<Rightarrow> bool" where
  "settled r \<longleftrightarrow> kr_state r = StateCompleted \<and> kr_status r \<noteq> None \<and> kr_body r \<noteq> None"

definition idem_keys_ok :: "key_row list \<Rightarrow> bool" where
  "idem_keys_ok rows \<longleftrightarrow> distinct (map kr_key rows) \<and> list_all settled rows"

lemma complete_key_settles:
  assumes "complete_key k st ct body s = Inr s'" and "pg_keys s = rows @ [r]" and "kr_key r = k"
    and "idem_keys_ok rows" and "sql_find kr_key k rows = None"
  shows "idem_keys_ok (pg_keys s')"
proof -
  have fresh: "k \<notin> kr_key ` set rows" using assms(5) by (auto simp: sql_find_def find_None_iff)
  have "body \<noteq> None" using assms(1-3,5) by (auto simp: complete_key_def sql_find_snoc split: if_splits)
  moreover have "sql_update (\<lambda>r. kr_key r = k) f rows = rows" for f
    using fresh by (intro sql_update_none) auto
  ultimately show ?thesis using assms fresh
    by (auto simp: complete_key_def sql_update_def idem_keys_ok_def settled_def split: if_splits)
qed

lemma pg_Complete_settles:
  assumes "pg_Complete x st ct b u s1 = (oe, u', s')" and "\<not> pu_done u" and "pu_key u = kr_key r"
    and "pg_keys s1 = pg_keys (pu_start u) @ [r]" and "idem_keys_ok (pg_keys (pu_start u))"
    and "sql_find kr_key (kr_key r) (pg_keys (pu_start u)) = None"
  shows "idem_keys_ok (pg_keys s')"
  using assms(1-3,5) complete_key_settles [OF _ assms(4) refl assms(5,6)]
  by (auto simp: pg_Complete_def Let_def split: option.splits sum.splits db_outcome.splits)



end
