(* ===== verification/Purger.thy ===== *)
theory Purger
  imports Idempotency_Pg
begin

text \<open>
  The purge of expired idempotency keys, \<open>internal/idempotency/purge.go\<close>: one purge and the loop that
  runs one at every tick until the process stops. What the loop relies on of a store is the locale
  \<open>purge_store\<close>; both stores of the program are interpretations of it.
\<close>

datatype purge_line = PurgeFailed go_error | PurgeDone nat

text \<open>\<open>stopping\<close> is whether the context has ended, in which case a failure is not worth a line.\<close>

definition purge_tick ::
  "(idem_env \<Rightarrow> 's \<Rightarrow> nat result \<times> 's) \<Rightarrow> bool \<Rightarrow> idem_env \<Rightarrow> 's \<Rightarrow> purge_line list \<times> 's" where
  "purge_tick purge stopping x s =
     (case purge x s of
        (Inl e, s') \<Rightarrow> (if \<not> stopping then [PurgeFailed e] else [], s')
      | (Inr n, s') \<Rightarrow> (if n > 0 then [PurgeDone n] else [], s'))"

fun purger_Run ::
  "(idem_env \<Rightarrow> 's \<Rightarrow> nat result \<times> 's) \<Rightarrow> (bool \<times> idem_env) list \<Rightarrow> 's \<Rightarrow> purge_line list \<times> 's" where
  "purger_Run purge [] s = ([], s)"
| "purger_Run purge ((stopping, x) # ticks) s =
     (case purge_tick purge stopping x s of
        (lines, s1) \<Rightarrow> (case purger_Run purge ticks s1 of (lines', s2) \<Rightarrow> (lines @ lines', s2)))"

subsection \<open>What the loop relies on\<close>

locale purge_store =
  fixes purge :: "idem_env \<Rightarrow> 's \<Rightarrow> nat result \<times> 's"
    and expiries :: "'s \<Rightarrow> (string \<times> time) set"
    and over :: "time \<Rightarrow> time \<Rightarrow> bool"
    and healthy :: "idem_env \<Rightarrow> bool"
  assumes purge_keeps: "purge x s = (res, s') \<Longrightarrow> (k, e) \<in> expiries s \<Longrightarrow> \<not> over (ie_now x) e \<Longrightarrow> (k, e) \<in> expiries s'"
    and purge_shrinks: "purge x s = (res, s') \<Longrightarrow> expiries s' \<subseteq> expiries s"
    and purge_removes: "purge x s = (res, s') \<Longrightarrow> healthy x \<Longrightarrow> (k, e) \<in> expiries s' \<Longrightarrow> \<not> over (ie_now x) e"
begin

lemma tick_state: "purge_tick purge stopping x s = (lines, s') \<Longrightarrow> \<exists>res. purge x s = (res, s')"
  by (auto simp: purge_tick_def split: prod.splits sum.splits)

lemma run_shrinks: "purger_Run purge ticks s = (lines, s') \<Longrightarrow> expiries s' \<subseteq> expiries s"
proof (induction ticks arbitrary: s lines)
  case (Cons t ticks)
  obtain stopping x where t: "t = (stopping, x)" by fastforce
  obtain l1 s1 where one: "purge_tick purge stopping x s = (l1, s1)" by fastforce
  obtain l2 where "purger_Run purge ticks s1 = (l2, s')" using Cons.prems one t by (auto split: prod.splits)
  then have "expiries s' \<subseteq> expiries s1" by (rule Cons.IH)
  moreover have "expiries s1 \<subseteq> expiries s" using tick_state [OF one] purge_shrinks by blast
  ultimately show ?case by blast
qed simp

lemma run_keeps:
  assumes "purger_Run purge ticks s = (lines, s')" and "(k, e) \<in> expiries s"
    and "\<forall>(stopping, x) \<in> set ticks. \<not> over (ie_now x) e"
  shows "(k, e) \<in> expiries s'"
  using assms
proof (induction ticks arbitrary: s lines)
  case (Cons t ticks)
  obtain stopping x where t: "t = (stopping, x)" by fastforce
  obtain l1 s1 where one: "purge_tick purge stopping x s = (l1, s1)" by fastforce
  obtain l2 where rest: "purger_Run purge ticks s1 = (l2, s')" using Cons.prems(1) one t by (auto split: prod.splits)
  have "(k, e) \<in> expiries s1" using tick_state [OF one] purge_keeps Cons.prems(2,3) t by fastforce
  then show ?case using Cons.IH [OF rest] Cons.prems(3) by simp
qed simp

lemma run_snoc:
  "purger_Run purge (ticks @ [(stopping, x)]) s = (lines, s') \<Longrightarrow>
   \<exists>lines1 s1 lines2. purger_Run purge ticks s = (lines1, s1) \<and> purge_tick purge stopping x s1 = (lines2, s')"
  by (induction ticks arbitrary: s lines) (fastforce split: prod.splits)+

lemma run_removes:
  assumes "purger_Run purge (ticks @ [(stopping, x)]) s = (lines, s')" and "healthy x" and "(k, e) \<in> expiries s'"
  shows "\<not> over (ie_now x) e"
  using run_snoc [OF assms(1)] tick_state purge_removes assms(2,3) by blast

end

subsection \<open>Both stores\<close>

definition mem_expiries :: "'a \<times> mem_keys \<Rightarrow> (string \<times> time) set" where
  "mem_expiries s = (\<lambda>(k, r). (k, mr_expires r)) ` set (snd s)"

interpretation mem_purge: purge_store mem_Purge mem_expiries "\<lambda>now e. e \<le> now" "\<lambda>_. True"
  by unfold_locales (auto simp: mem_Purge_def mem_expiries_def Let_def image_iff)

definition pg_expiries :: "pg_idem \<Rightarrow> (string \<times> time) set" where
  "pg_expiries s = (\<lambda>r. (kr_key r, kr_expires r)) ` set (pg_keys s)"

definition purge_leads :: "idem_env \<Rightarrow> bool" where
  "purge_leads x \<longleftrightarrow> ie_begin x = None \<and> ie_lead x = Inr True \<and> ie_reserve x = None \<and> ie_commit x = DbOk"

lemma pg_Purge_cases:
  assumes "pg_Purge x s = (res, s')"
  obtains "s' = s" "\<not> purge_leads x" | "pg_keys s' = filter (\<lambda>r. \<not> kr_expires r < ie_now x) (pg_keys s)"
  using assms
  by (auto simp: pg_Purge_def purge_leads_def Let_def split: option.splits sum.splits if_splits db_outcome.splits)

interpretation pg_purge: purge_store pg_Purge pg_expiries "\<lambda>now e. e < now" purge_leads
proof unfold_locales
  fix x s res s' k e
  assume run: "pg_Purge x s = (res, s')"
  show "(k, e) \<in> pg_expiries s'" if "(k, e) \<in> pg_expiries s" "\<not> e < ie_now x"
    using run that by (rule_tac pg_Purge_cases [OF run]) (auto simp: pg_expiries_def image_iff)
  show "pg_expiries s' \<subseteq> pg_expiries s"
    by (rule pg_Purge_cases [OF run]) (auto simp: pg_expiries_def)
  show "\<not> e < ie_now x" if "purge_leads x" "(k, e) \<in> pg_expiries s'"
    by (rule pg_Purge_cases [OF run]) (use that in \<open>auto simp: pg_expiries_def\<close>)
qed

text \<open>
  The purge loop keeps the promise of the TTL and makes it affordable, on both stores. However its ticks fail, no
  key is dropped before its time has passed at some tick and none is added; after a tick that got through
  (in Postgres one that held the fleet's lock and committed) no key is left whose time had passed by then.
\<close>
theorem purge_loop:
  assumes "purger_Run mem_Purge (mticks @ [(mstop, x)]) m = (mlines, m')"
    and "purger_Run pg_Purge (pticks @ [(pstop, y)]) s = (plines, s')" and "purge_leads y"
  shows "(\<forall>(k, e) \<in> mem_expiries m'. (k, e) \<in> mem_expiries m \<and> ie_now x < e) \<and>
    (\<forall>(k, e) \<in> pg_expiries s'. (k, e) \<in> pg_expiries s \<and> ie_now y \<le> e) \<and>
    (\<forall>(k, e) \<in> mem_expiries m. (\<forall>(st, z) \<in> set (mticks @ [(mstop, x)]). ie_now z < e) \<longrightarrow> (k, e) \<in> mem_expiries m') \<and>
    (\<forall>(k, e) \<in> pg_expiries s. (\<forall>(st, z) \<in> set (pticks @ [(pstop, y)]). ie_now z \<le> e) \<longrightarrow> (k, e) \<in> pg_expiries s')"
proof -
  have "(k, e) \<in> mem_expiries m \<and> ie_now x < e" if "(k, e) \<in> mem_expiries m'" for k e
    using mem_purge.run_shrinks [OF assms(1)] mem_purge.run_removes [OF assms(1) TrueI that] that by force
  moreover have "(k, e) \<in> pg_expiries s \<and> ie_now y \<le> e" if "(k, e) \<in> pg_expiries s'" for k e
    using pg_purge.run_shrinks [OF assms(2)] pg_purge.run_removes [OF assms(2,3) that] that by force
  moreover have "(k, e) \<in> mem_expiries m'"
    if "(k, e) \<in> mem_expiries m" "\<forall>(st, z) \<in> set (mticks @ [(mstop, x)]). ie_now z < e" for k e
    using mem_purge.run_keeps [OF assms(1) that(1)] that(2) by (simp add: case_prod_beta not_le)
  moreover have "(k, e) \<in> pg_expiries s'"
    if "(k, e) \<in> pg_expiries s" "\<forall>(st, z) \<in> set (pticks @ [(pstop, y)]). ie_now z \<le> e" for k e
    using pg_purge.run_keeps [OF assms(2) that(1)] that(2) by (simp add: case_prod_beta not_less)
  ultimately show ?thesis by blast
qed

end
