(* ===== verification/Logging.thy ===== *)
theory Logging
  imports Apperr "HOL-Library.AList"
begin

text \<open>
  The log pipeline of \<open>internal/logging\<close>: levels and formats (\<open>logging.go\<close>), the redaction of
  secrets (\<open>redact.go\<close>) and the collapse of repeated warnings (\<open>throttle.go\<close>). The three regular
  expressions of \<open>redact.go\<close> are written with matchers that return every way to match in Go's
  order of preference (leftmost first, greedy repetition), on the bytes of the text. An attribute
  value is what \<open>slog.Value.Resolve\<close> gives for it. The formatting of records by the back ends and
  the trace stamp of \<open>trace.go\<close> are left out.
\<close>

subsection \<open>Levels and formats (logging.go)\<close>

type_synonym level = int

definition LevelTrace :: level where "LevelTrace = -8"
definition LevelDebug :: level where "LevelDebug = -4"
definition LevelInfo :: level where "LevelInfo = 0"
definition LevelWarn :: level where "LevelWarn = 4"
definition LevelError :: level where "LevelError = 8"

lemmas level_defs = LevelTrace_def LevelDebug_def LevelInfo_def LevelWarn_def LevelError_def

definition ParseLevel :: "string \<Rightarrow> level \<times> go_error option" where
  "ParseLevel s =
     (let n = lower (trim_space s) in
      if n = ''trace'' then (LevelTrace, None)
      else if n = ''debug'' then (LevelDebug, None)
      else if n = ''info'' \<or> n = [] then (LevelInfo, None)
      else if n = ''warn'' \<or> n = ''warning'' then (LevelWarn, None)
      else if n = ''error'' \<or> n = ''err'' then (LevelError, None)
      else (LevelInfo, Some (PlainError (''unknown log level '' @ go_quote s @
              '' (want one of: error, warn, info, debug, trace)''))))"

text \<open>\<open>slog.Level.String\<close>: the name of the tier below and the distance to it.\<close>

definition level_offset :: "string \<Rightarrow> int \<Rightarrow> string" where
  "level_offset base d = (if d = 0 then base else if d > 0 then base @ ''+'' @ itoa d else base @ itoa d)"

definition level_string :: "level \<Rightarrow> string" where
  "level_string l =
     (if l < LevelInfo then level_offset ''DEBUG'' (l - LevelDebug)
      else if l < LevelWarn then level_offset ''INFO'' (l - LevelInfo)
      else if l < LevelError then level_offset ''WARN'' (l - LevelWarn)
      else level_offset ''ERROR'' (l - LevelError))"

definition LevelName :: "level \<Rightarrow> string" where
  "LevelName l = (if l = LevelTrace then ''TRACE'' else level_string l)"

definition resolveLevel :: "string \<Rightarrow> level \<times> go_error option" where
  "resolveLevel name =
     (if name = [] then (LevelInfo, None)
      else (case ParseLevel name of
              (l, Some e) \<Rightarrow> (LevelInfo, Some e)
            | (l, None) \<Rightarrow> (l, None)))"

text \<open>\<open>Handle.SetLevel\<close> on the shared level variable.\<close>

definition SetLevel :: "string \<Rightarrow> level \<Rightarrow> go_error option \<times> level" where
  "SetLevel name lvl =
     (case ParseLevel name of (l, Some e) \<Rightarrow> (Some e, lvl) | (l, None) \<Rightarrow> (None, l))"

definition resolveFormat :: "string \<Rightarrow> bool \<Rightarrow> string result" where
  "resolveFormat format terminal =
     (let f = lower (trim_space format) in
      if f = ''json'' then Inr ''json''
      else if f = ''text'' \<or> f = ''console'' then Inr ''text''
      else if f = ''auto'' \<or> f = [] then (if terminal then Inr ''text'' else Inr ''json'')
      else Inl (PlainError (''unknown log format '' @ go_quote format @
             '' (want one of: auto, text, json)'')))"

subsection \<open>Matching\<close>

text \<open>
  A matcher takes the text already read, reversed, and the text ahead, and returns every way to
  go on, the preferred one first.
\<close>

type_synonym matcher = "string \<Rightarrow> string \<Rightarrow> (string \<times> string) list"

definition re_one :: "(char \<Rightarrow> bool) \<Rightarrow> matcher" where
  "re_one P h s = (case s of [] \<Rightarrow> [] | c # s' \<Rightarrow> if P c then [(c # h, s')] else [])"

definition re_seq :: "matcher \<Rightarrow> (string \<Rightarrow> string \<Rightarrow> 'a list) \<Rightarrow> string \<Rightarrow> string \<Rightarrow> 'a list" where
  "re_seq m1 m2 h s = concat (map (\<lambda>(h', s'). m2 h' s') (m1 h s))"

definition re_alt :: "matcher \<Rightarrow> matcher \<Rightarrow> matcher" where
  "re_alt m1 m2 h s = m1 h s @ m2 h s"

fun re_star :: "(char \<Rightarrow> bool) \<Rightarrow> matcher" where
  "re_star P h [] = [(h, [])]"
| "re_star P h (c # s) = (if P c then re_star P (c # h) s else []) @ [(h, c # s)]"

definition re_plus :: "(char \<Rightarrow> bool) \<Rightarrow> matcher" where
  "re_plus P = re_seq (re_one P) (re_star P)"

primrec re_word :: "matcher list \<Rightarrow> matcher" where
  "re_word [] = (\<lambda>h s. [(h, s)])"
| "re_word (m # ms) = re_seq m (re_word ms)"

definition is_lower :: "char \<Rightarrow> bool" where
  "is_lower c \<longleftrightarrow> CHR ''a'' \<le> c \<and> c \<le> CHR ''z''"

definition is_letter :: "char \<Rightarrow> bool" where
  "is_letter c \<longleftrightarrow> is_lower (lower_char c)"

definition is_num :: "char \<Rightarrow> bool" where
  "is_num c \<longleftrightarrow> CHR ''0'' \<le> c \<and> c \<le> CHR ''9''"

definition re_space :: "char \<Rightarrow> bool" where
  "re_space c \<longleftrightarrow> c \<in> {CHR 0x09, CHR 0x0A, CHR 0x0C, CHR 0x0D, CHR '' ''}"

definition word_at :: "string \<Rightarrow> bool" where
  "word_at s \<longleftrightarrow> s \<noteq> [] \<and> (is_letter (hd s) \<or> is_num (hd s) \<or> hd s = CHR ''_'')"

definition boundary :: matcher where
  "boundary h s = (if word_at h \<noteq> word_at s then [(h, s)] else [])"

text \<open>
  Case-insensitive letters. Go folds by Unicode, where \<open>s\<close> also stands for the long s and \<open>k\<close> for
  the Kelvin sign, which are two and three bytes of UTF-8.
\<close>

definition fold_bytes :: "char \<Rightarrow> string" where
  "fold_bytes c =
     (if c = CHR ''s'' then [CHR 0xC5, CHR 0xBF]
      else if c = CHR ''k'' then [CHR 0xE2, CHR 0x84, CHR 0xAA]
      else [])"

definition re_letter :: "char \<Rightarrow> matcher" where
  "re_letter c =
     re_alt (re_one (\<lambda>d. lower_char d = c))
       (if fold_bytes c = [] then (\<lambda>h s. [])
        else re_word (map (\<lambda>b. re_one (\<lambda>d. d = b)) (fold_bytes c)))"

definition re_text :: "string \<Rightarrow> matcher" where
  "re_text w = re_word (map re_letter w)"

text \<open>A greedy run of token characters, each of one byte or a folded letter.\<close>

definition token_unit :: "string \<Rightarrow> nat" where
  "token_unit s =
     (case s of
        [] \<Rightarrow> 0
      | c # _ \<Rightarrow>
          if is_letter c \<or> is_num c \<or> c \<in> set ''._~+/=-'' then 1
          else if starts_with (fold_bytes (CHR ''s'')) s then 2
          else if starts_with (fold_bytes (CHR ''k'')) s then 3
          else 0)"

fun re_run :: "(string \<Rightarrow> nat) \<Rightarrow> nat \<Rightarrow> matcher" where
  "re_run u k h [] = (if k = 0 then [(h, [])] else [])"
| "re_run u (Suc k) h (c # s) = re_run u k (c # h) s"
| "re_run u 0 h (c # s) =
     (case u (c # s) of 0 \<Rightarrow> [] | Suc n \<Rightarrow> re_run u n (c # h) s) @ [(h, c # s)]"

definition re_tokens :: matcher where
  "re_tokens h s = filter (\<lambda>(h', s'). length s' < length s) (re_run token_unit 0 h s)"

text \<open>
  A pattern is its first group and what follows it; every pattern here has \<open>$1\<close> at its start. The
  first match gives the group and the number of bytes matched.
\<close>

definition re_find :: "matcher \<Rightarrow> matcher \<Rightarrow> string \<Rightarrow> string \<Rightarrow> (string \<times> nat) option" where
  "re_find g m h s =
     (case re_seq g (\<lambda>h1 s1. map (\<lambda>(h2, s2). (take (length s - length s1) s, length s - length s2)) (m h1 s1)) h s of
        [] \<Rightarrow> None
      | r # _ \<Rightarrow> Some r)"

text \<open>\<open>Regexp.ReplaceAllString\<close>, \<open>skip\<close> counting the bytes of a match still to be passed over.\<close>

fun ReplaceAll :: "matcher \<Rightarrow> matcher \<Rightarrow> (string \<Rightarrow> string) \<Rightarrow> nat \<Rightarrow> string \<Rightarrow> string \<Rightarrow> string" where
  "ReplaceAll g m t skip h [] = []"
| "ReplaceAll g m t (Suc k) h (c # s) = ReplaceAll g m t k (c # h) s"
| "ReplaceAll g m t 0 h (c # s) =
     (case re_find g m h (c # s) of
        None \<Rightarrow> c # ReplaceAll g m t 0 (c # h) s
      | Some (cap, n) \<Rightarrow> t cap @ ReplaceAll g m t (n - 1) (c # h) s)"

subsection \<open>Redaction (redact.go)\<close>

definition redacted :: string where
  "redacted = [CHR 0xC2, CHR 0xAB] @ ''redacted'' @ [CHR 0xC2, CHR 0xBB]"

definition denied :: "string list" where
  "denied = [''access_token'', ''api_key'', ''apikey'', ''auth_token'', ''authorization'', ''bearer'',
     ''bearer_token'', ''body'', ''client_secret'', ''cookie'', ''credential'', ''credentials'',
     ''database_url'', ''dsn'', ''idempotency_key'', ''passwd'', ''password'', ''private_key'',
     ''refresh_token'', ''request_body'', ''response_body'', ''secret'', ''set-cookie'', ''token'']"

definition scheme_char :: "char \<Rightarrow> bool" where
  "scheme_char c \<longleftrightarrow> is_letter c \<or> is_num c \<or> c \<in> set ''+.-''"

definition user_char :: "char \<Rightarrow> bool" where
  "user_char c \<longleftrightarrow> c \<notin> set '':/@'' \<and> \<not> re_space c"

definition pass_char :: "char \<Rightarrow> bool" where
  "pass_char c \<longleftrightarrow> c \<noteq> CHR ''@'' \<and> \<not> re_space c"

definition urlUserinfo_group :: matcher where
  "urlUserinfo_group =
     re_seq (re_one is_letter) (re_seq (re_star scheme_char)
       (re_seq (re_one (\<lambda>d. d = CHR '':'')) (re_seq (re_one (\<lambda>d. d = CHR ''/''))
         (re_seq (re_one (\<lambda>d. d = CHR ''/'')) (re_plus user_char)))))"

definition urlUserinfo_rest :: matcher where
  "urlUserinfo_rest =
     re_seq (re_one (\<lambda>d. d = CHR '':'')) (re_seq (re_star pass_char) (re_one (\<lambda>d. d = CHR ''@'')))"

definition scrub_userinfo :: "string \<Rightarrow> string" where
  "scrub_userinfo s = ReplaceAll urlUserinfo_group urlUserinfo_rest (\<lambda>g. g @ '':'' @ redacted @ ''@'') 0 [] s"

definition kvPassword_group :: matcher where
  "kvPassword_group =
     re_seq boundary (re_alt (re_text ''password'') (re_alt (re_text ''passwd'')
       (re_alt (re_text ''secret'') (re_text ''token''))))"

definition quoted :: "char \<Rightarrow> matcher" where
  "quoted q = re_seq (re_one (\<lambda>d. d = q)) (re_seq (re_star (\<lambda>d. d \<noteq> q)) (re_one (\<lambda>d. d = q)))"

definition kvPassword_rest :: matcher where
  "kvPassword_rest =
     re_seq (re_star re_space) (re_seq (re_one (\<lambda>d. d = CHR ''='')) (re_seq (re_star re_space)
       (re_alt (quoted (CHR 0x22)) (re_alt (quoted (CHR 0x27)) (re_plus (\<lambda>d. \<not> re_space d))))))"

definition scrub_keyvalue :: "string \<Rightarrow> string" where
  "scrub_keyvalue s = ReplaceAll kvPassword_group kvPassword_rest (\<lambda>g. g @ ''='' @ redacted) 0 [] s"

definition bearer_group :: matcher where
  "bearer_group = re_seq boundary (re_alt (re_text ''bearer'') (re_text ''basic''))"

definition bearer_rest :: matcher where
  "bearer_rest = re_seq (re_plus re_space) re_tokens"

definition scrub_bearer :: "string \<Rightarrow> string" where
  "scrub_bearer s = ReplaceAll bearer_group bearer_rest (\<lambda>g. g @ '' '' @ redacted) 0 [] s"

definition ScrubValue :: "string \<Rightarrow> string" where
  "ScrubValue s =
     (if s = [] then s
      else
        (let s1 = (if CHR ''@'' \<in> set s then scrub_userinfo s else s);
             s2 = (if CHR ''='' \<in> set s1 then scrub_keyvalue s1 else s1) in
         scrub_bearer s2))"

text \<open>
  Attribute values by kind: strings, errors (by their text), groups, and everything else, which
  passes through untouched.
\<close>

datatype slog_value =
  KindString string
| KindError string
| KindGroup "(string \<times> slog_value) list"
| KindOther string

type_synonym attr = "string \<times> slog_value"

record log_record =
  lr_level :: level
  lr_msg :: string
  lr_attrs :: "attr list"

definition is_denied :: "string \<Rightarrow> bool" where
  "is_denied key \<longleftrightarrow> lower key \<in> set denied"

fun sanitize_value :: "slog_value \<Rightarrow> slog_value"
  and sanitize :: "attr \<Rightarrow> attr" where
  "sanitize_value (KindGroup as) = KindGroup (map sanitize as)"
| "sanitize_value (KindString s) = KindString (ScrubValue s)"
| "sanitize_value (KindError s) = (if ScrubValue s \<noteq> s then KindString (ScrubValue s) else KindError s)"
| "sanitize_value (KindOther s) = KindOther s"
| "sanitize (key, v) = (if is_denied key then (key, KindString redacted) else (key, sanitize_value v))"

definition redact_Handle :: "log_record \<Rightarrow> log_record" where
  "redact_Handle r =
     \<lparr>lr_level = lr_level r, lr_msg = ScrubValue (lr_msg r), lr_attrs = map sanitize (lr_attrs r)\<rparr>"

definition redact_WithAttrs :: "attr list \<Rightarrow> attr list" where
  "redact_WithAttrs as = map sanitize as"

subsection \<open>Repeats (throttle.go)\<close>

definition maxThrottleKeys :: nat where "maxThrottleKeys = 512"

record throttle_entry =
  te_lastEmit :: time
  te_suppressed :: int

record throttleHandler =
  th_window :: duration
  th_seen :: "(string \<times> throttle_entry) list"

definition NewThrottleHandler :: "duration \<Rightarrow> throttleHandler" where
  "NewThrottleHandler window = \<lparr>th_window = window, th_seen = []\<rparr>"

definition evictLocked :: "time \<Rightarrow> throttleHandler \<Rightarrow> throttleHandler" where
  "evictLocked now h =
     (if length (th_seen h) < maxThrottleKeys then h
      else
        (let cutoff = now - 10 * th_window h;
             kept = filter (\<lambda>(k, e). \<not> te_lastEmit e < cutoff) (th_seen h) in
         h\<lparr>th_seen := (if length kept \<ge> maxThrottleKeys then [] else kept)\<rparr>))"

definition throttle_key :: "log_record \<Rightarrow> string" where
  "throttle_key r = itoa (lr_level r) @ [CHR 0x00] @ lr_msg r"

definition admit :: "time \<Rightarrow> log_record \<Rightarrow> throttleHandler \<Rightarrow> (bool \<times> int) \<times> throttleHandler" where
  "admit now r h =
     (let key = throttle_key r in
      case map_of (th_seen h) key of
        None \<Rightarrow>
          (let h1 = evictLocked now h in
           ((True, 0), h1\<lparr>th_seen := AList.update key \<lparr>te_lastEmit = now, te_suppressed = 0\<rparr> (th_seen h1)\<rparr>))
      | Some e \<Rightarrow>
          if now - te_lastEmit e \<ge> th_window h then
            ((True, te_suppressed e),
             h\<lparr>th_seen := AList.update key \<lparr>te_lastEmit = now, te_suppressed = 0\<rparr> (th_seen h)\<rparr>)
          else
            ((False, 0),
             h\<lparr>th_seen := AList.update key (e\<lparr>te_suppressed := te_suppressed e + 1\<rparr>) (th_seen h)\<rparr>))"

text \<open>The record passed on to the next handler, if any; \<open>throttleShare.Handle\<close> is the same call.\<close>

definition throttle_Handle ::
  "time \<Rightarrow> log_record \<Rightarrow> throttleHandler \<Rightarrow> log_record option \<times> throttleHandler" where
  "throttle_Handle now r h =
     (if lr_level r < LevelWarn then (Some r, h)
      else
        (case admit now r h of
           ((emit, suppressed), h') \<Rightarrow>
             if \<not> emit then (None, h')
             else if suppressed > 0 then
               (Some (r\<lparr>lr_attrs := lr_attrs r @ [(''suppressed'', KindOther (itoa suppressed))]\<rparr>), h')
             else (Some r, h')))"

text \<open>\<open>decorate\<close>: throttling outside, redaction inside.\<close>

definition decorate ::
  "bool \<Rightarrow> time \<Rightarrow> log_record \<Rightarrow> throttleHandler \<Rightarrow> log_record option \<times> throttleHandler" where
  "decorate noThrottle now r h =
     (case (if noThrottle then (Some r, h) else throttle_Handle now r h) of
        (out, h') \<Rightarrow> (map_option redact_Handle out, h'))"

subsection \<open>Levels\<close>

lemma ParseLevel_tiers:
  "list_all (\<lambda>l. ParseLevel (LevelName l) = (l, None)) [LevelTrace, LevelDebug, LevelInfo, LevelWarn, LevelError]"
  by code_simp

lemma ParseLevel_LevelName:
  "l \<in> {LevelTrace, LevelDebug, LevelInfo, LevelWarn, LevelError} \<Longrightarrow> ParseLevel (LevelName l) = (l, None)"
  using ParseLevel_tiers by auto

lemma SetLevel_error: "SetLevel name lvl = (Some e, lvl') \<Longrightarrow> lvl' = lvl"
  by (auto simp: SetLevel_def split: prod.splits option.splits)

lemma resolveLevel_error: "resolveLevel name = (l, Some e) \<Longrightarrow> l = LevelInfo"
  by (auto simp: resolveLevel_def split: prod.splits option.splits if_splits)

subsection \<open>Matchers\<close>

lemma re_one_simps [simp]:
  "re_one P h [] = []" "re_one P h (c # s) = (if P c then [(c # h, s)] else [])"
  by (simp_all add: re_one_def)

lemma re_seq_one [simp]:
  "re_seq (re_one P) m h [] = []"
  "re_seq (re_one P) m h (c # s) = (if P c then m (c # h) s else [])"
  by (simp_all add: re_seq_def)

lemma concat_map_concat: "concat (map f (concat (map g xs))) = concat (map (\<lambda>x. concat (map f (g x))) xs)"
  by (induction xs) auto

lemma re_seq_assoc [simp]: "re_seq (re_seq a b) m = re_seq a (re_seq b m)"
  by (simp add: fun_eq_iff re_seq_def case_prod_unfold concat_map_concat)

text \<open>A run of a class that stops at a byte outside it goes on there if only there the rest matches.\<close>

lemma re_seq_star:
  assumes "list_all P xs" and "\<not> P c" and "\<And>h s. s = [] \<or> hd s \<noteq> c \<Longrightarrow> m h s = []"
  shows "re_seq (re_star P) m h (xs @ c # ys) = m (rev xs @ h) (c # ys)"
  using assms(1)
proof (induction xs arbitrary: h)
  case Nil
  then show ?case using assms(2) by (simp add: re_seq_def)
next
  case (Cons x xs)
  then have "x \<noteq> c" and "P x" and "list_all P xs" using assms(2) by auto
  then show ?case using Cons.IH [of "x # h"] assms(3) [of "x # xs @ c # ys" h] by (simp add: re_seq_def)
qed

lemma re_seq_star_one [simp]:
  assumes "list_all P xs" and "\<not> P c"
  shows "re_seq (re_star P) (re_seq (re_one (\<lambda>d. d = c)) m) h (xs @ c # ys) = m (c # rev xs @ h) ys"
proof -
  have "re_seq (re_one (\<lambda>d. d = c)) m h' s = []" if "s = [] \<or> hd s \<noteq> c" for h' s
    using that by (cases s) auto
  from re_seq_star [OF assms this] show ?thesis by simp
qed

text \<open>No match without the byte a pattern must end in.\<close>

definition shrinks :: "matcher \<Rightarrow> bool" where
  "shrinks m \<longleftrightarrow> (\<forall>h s h' s'. (h', s') \<in> set (m h s) \<longrightarrow> set s' \<subseteq> set s)"

lemma shrinks_one [simp]: "shrinks (re_one P)"
  by (auto simp: shrinks_def re_one_def split: list.splits)

lemma shrinks_star [simp]: "shrinks (re_star P)"
proof -
  have "(h', s') \<in> set (re_star P h s) \<Longrightarrow> set s' \<subseteq> set s" for h s h' s'
  proof (induction s arbitrary: h)
    case (Cons c s)
    then show ?case by (cases "(h', s') = (h, c # s)") (auto split: if_splits)
  qed simp
  then show ?thesis by (simp add: shrinks_def)
qed

lemma shrinks_seq [simp]: "shrinks a \<Longrightarrow> shrinks b \<Longrightarrow> shrinks (re_seq a b)"
  unfolding shrinks_def re_seq_def by fastforce

lemma re_seq_none:
  assumes "shrinks a" and "c \<notin> set s" and "\<And>h s. c \<notin> set s \<Longrightarrow> m h s = []"
  shows "re_seq a m h s = []"
proof -
  have "m h' s' = []" if "(h', s') \<in> set (a h s)" for h' s'
    using that assms(1,2) unfolding shrinks_def by (intro assms(3)) blast
  then show ?thesis by (auto simp: re_seq_def)
qed

lemma re_one_none: "c \<notin> set s \<Longrightarrow> re_one (\<lambda>d. d = c) h s = []"
  by (cases s) auto

lemma ReplaceAll_skip: "ReplaceAll g m t (length xs) h (xs @ ys) = ReplaceAll g m t 0 (rev xs @ h) ys"
proof (induction xs arbitrary: h)
  case Nil
  then show ?case by simp
qed simp

lemma ReplaceAll_none:
  assumes "\<And>h s. c \<notin> set s \<Longrightarrow> re_find g m h s = None" and "c \<notin> set s"
  shows "ReplaceAll g m t 0 h s = s"
  using assms(2) by (induction s arbitrary: h) (simp_all add: assms(1))

subsection \<open>Credentials in URLs\<close>

lemma urlUserinfo_rest_none:
  assumes "CHR ''@'' \<notin> set s"
  shows "urlUserinfo_rest h s = []"
proof -
  have "re_seq (re_star pass_char) (re_one (\<lambda>d. d = CHR ''@'')) h s = []" if "CHR ''@'' \<notin> set s" for h s
    by (rule re_seq_none [OF shrinks_star that re_one_none])
  then show ?thesis unfolding urlUserinfo_rest_def by (rule re_seq_none [OF shrinks_one assms])
qed

lemma userinfo_find_none: "CHR ''@'' \<notin> set s \<Longrightarrow> re_find urlUserinfo_group urlUserinfo_rest h s = None"
proof -
  assume at: "CHR ''@'' \<notin> set s"
  have "shrinks urlUserinfo_group" by (simp add: urlUserinfo_group_def re_plus_def)
  then show ?thesis unfolding re_find_def by (subst re_seq_none [OF _ at]) (simp_all add: urlUserinfo_rest_none)
qed

lemma class_stops [simp]: "\<not> scheme_char (CHR '':'')" "\<not> user_char (CHR '':'')" "\<not> pass_char (CHR ''@'')"
  by (simp_all add: scheme_char_def is_letter_def is_lower_def lower_char_def is_num_def user_char_def pass_char_def)

lemma userinfo_group:
  assumes "is_letter c" and "list_all scheme_char cs" and "user_char u" and "list_all user_char us"
    and "\<And>h s. s = [] \<or> hd s \<noteq> CHR '':'' \<Longrightarrow> m h s = []"
  shows "re_seq urlUserinfo_group m h (c # cs @ CHR '':'' # CHR ''/'' # CHR ''/'' # u # us @ CHR '':'' # ys) =
    m (rev us @ u # CHR ''/'' # CHR ''/'' # CHR '':'' # rev cs @ c # h) (CHR '':'' # ys)"
  using assms(1-3) by (simp add: urlUserinfo_group_def re_plus_def re_seq_star [OF assms(4) _ assms(5)])

lemma userinfo_find:
  assumes "is_letter c" and "list_all scheme_char cs" and "user \<noteq> []" and "list_all user_char user"
    and "list_all pass_char pw"
  shows "re_find urlUserinfo_group urlUserinfo_rest h (c # cs @ ''://'' @ user @ '':'' @ pw @ ''@'' @ rest) =
    Some (c # cs @ ''://'' @ user, length (c # cs @ ''://'' @ user @ '':'' @ pw @ ''@''))"
proof -
  obtain u us where u: "user = u # us" "user_char u" "list_all user_char us" using assms(3,4) by (cases user) auto
  let ?s = "c # cs @ ''://'' @ user @ '':'' @ pw @ ''@'' @ rest"
  let ?F = "\<lambda>h1 s1. map (\<lambda>(h2, s2). (take (length ?s - length s1) ?s, length ?s - length s2)) (urlUserinfo_rest h1 s1)"
  have rest: "urlUserinfo_rest h' (CHR '':'' # pw @ CHR ''@'' # rest) = [(CHR ''@'' # rev pw @ CHR '':'' # h', rest)]" for h'
    unfolding urlUserinfo_rest_def
    by (simp, subst re_seq_star [OF assms(5)]) (auto simp: re_one_def split: list.splits)
  have nouser: "?F h' s' = []" if "s' = [] \<or> hd s' \<noteq> CHR '':''" for h' s'
    using that by (cases s') (simp_all add: urlUserinfo_rest_def)
  have "re_seq urlUserinfo_group ?F h ?s = ?F (rev us @ u # CHR ''/'' # CHR ''/'' # CHR '':'' # rev cs @ c # h)
      (CHR '':'' # pw @ CHR ''@'' # rest)"
    using userinfo_group [OF assms(1,2) u(2,3), of ?F, OF nouser] by (simp add: u(1) del: list.map)
  then show ?thesis using u by (simp add: re_find_def rest eval_nat_numeral)
qed

lemma scrub_userinfo_url:
  assumes "is_letter c" and "list_all scheme_char cs" and "user \<noteq> []" and "list_all user_char user"
    and "list_all pass_char pw" and "CHR ''@'' \<notin> set rest"
  shows "scrub_userinfo (c # cs @ ''://'' @ user @ '':'' @ pw @ ''@'' @ rest) =
    c # cs @ ''://'' @ user @ '':'' @ redacted @ ''@'' @ rest"
proof -
  let ?hit = "cs @ ''://'' @ user @ '':'' @ pw @ ''@''"
  have "ReplaceAll urlUserinfo_group urlUserinfo_rest t (length ?hit) [c] (?hit @ rest) = rest" for t
    unfolding ReplaceAll_skip by (rule ReplaceAll_none [OF userinfo_find_none assms(6)])
  then show ?thesis using userinfo_find [OF assms(1-5), of "[]" rest] by (simp add: scrub_userinfo_def)
qed

text \<open>A URL whose user name is empty does not match, and its password is logged.\<close>

lemma empty_user_kept: "ScrubValue ''redis://:hunter2@cache'' = ''redis://:hunter2@cache''"
  by code_simp

subsection \<open>Attributes\<close>

text \<open>
  What may reach a back end: a denied key carries the redaction mark, at any depth of groups, and
  every other text has been through the scrubbers.
\<close>

fun clean_value :: "slog_value \<Rightarrow> bool"
  and clean :: "attr \<Rightarrow> bool" where
  "clean_value (KindGroup as) = list_all clean as"
| "clean_value (KindString s) = (s \<in> range ScrubValue)"
| "clean_value (KindError s) = (ScrubValue s = s)"
| "clean_value (KindOther s) = True"
| "clean (key, v) = (if is_denied key then v = KindString redacted else clean_value v)"

lemma clean_sanitize: "clean_value (sanitize_value v)" "clean (sanitize a)"
proof (induction v and a rule: sanitize_value_sanitize.induct)
  case (1 as)
  then show ?case by (simp add: list_all_iff)
qed auto

subsection \<open>Throttling\<close>

text \<open>The suppression map stays within its cap, has one entry a key and counts up from zero.\<close>

definition throttle_ok :: "throttleHandler \<Rightarrow> bool" where
  "throttle_ok h \<longleftrightarrow> length (th_seen h) \<le> maxThrottleKeys \<and> distinct (map fst (th_seen h)) \<and>
     (\<forall>(k, e) \<in> set (th_seen h). 0 \<le> te_suppressed e)"

lemma evict_room:
  assumes "throttle_ok h"
  shows "throttle_ok (evictLocked now h)" and "length (th_seen (evictLocked now h)) < maxThrottleKeys"
    and "set (th_seen (evictLocked now h)) \<subseteq> set (th_seen h)"
  using assms by (auto simp: evictLocked_def throttle_ok_def Let_def maxThrottleKeys_def distinct_map_filter)

lemma length_update_le: "length (AList.update k v xs) \<le> Suc (length xs)"
  by (induction xs) auto

lemma length_update_present: "map_of xs k \<noteq> None \<Longrightarrow> length (AList.update k v xs) = length xs"
  by (induction xs) (auto split: if_splits)

lemma set_update_subset: "set (AList.update k v xs) \<subseteq> insert (k, v) (set xs)"
  by (induction xs) auto

lemma throttle_ok_update:
  assumes "throttle_ok h" and "0 \<le> te_suppressed e"
    and "length (th_seen h) < maxThrottleKeys \<or> map_of (th_seen h) k \<noteq> None"
  shows "throttle_ok (h\<lparr>th_seen := AList.update k e (th_seen h)\<rparr>)"
proof -
  have "length (AList.update k e (th_seen h)) \<le> maxThrottleKeys"
    using assms(3)
  proof
    assume "length (th_seen h) < maxThrottleKeys"
    then show ?thesis using length_update_le [of k e "th_seen h"] by simp
  next
    assume "map_of (th_seen h) k \<noteq> None"
    then show ?thesis using length_update_present [of "th_seen h" k e] assms(1) by (simp add: throttle_ok_def)
  qed
  moreover have "\<forall>(k', e') \<in> set (AList.update k e (th_seen h)). 0 \<le> te_suppressed e'"
    using assms(1,2) set_update_subset [of k e "th_seen h"] unfolding throttle_ok_def by blast
  ultimately show ?thesis using assms(1) by (simp add: throttle_ok_def distinct_update)
qed

lemma admit_ok:
  assumes "throttle_ok h" and "admit now r h = ((emit, n), h')"
  shows "throttle_ok h' \<and> 0 \<le> n \<and> th_window h' = th_window h"
proof (cases "map_of (th_seen h) (throttle_key r)")
  case None
  have "th_window (evictLocked now h) = th_window h" by (simp add: evictLocked_def Let_def)
  then show ?thesis
    using assms None throttle_ok_update [OF evict_room(1) [OF assms(1)], of "\<lparr>te_lastEmit = now, te_suppressed = 0\<rparr>" now]
      evict_room(2) [OF assms(1)] by (auto simp: admit_def Let_def)
next
  case (Some e)
  then have "0 \<le> te_suppressed e" using assms(1) map_of_SomeD [OF Some] by (auto simp: throttle_ok_def)
  then show ?thesis
    using assms Some throttle_ok_update [OF assms(1), of _ "throttle_key r"]
    by (auto simp: admit_def Let_def split: if_splits)
qed

text \<open>A run of the handler over timed records, with what it passed on.\<close>

fun throttle_run ::
  "(time \<times> log_record) list \<Rightarrow> throttleHandler \<Rightarrow> log_record option list \<times> throttleHandler" where
  "throttle_run [] h = ([], h)"
| "throttle_run ((now, r) # rs) h =
     (case throttle_Handle now r h of
        (out, h1) \<Rightarrow> (case throttle_run rs h1 of (outs, h2) \<Rightarrow> (out # outs, h2)))"

lemma throttle_Handle_ok: "throttle_Handle now r h = (out, h') \<Longrightarrow> throttle_ok h \<Longrightarrow> throttle_ok h'"
  using admit_ok by (fastforce simp: throttle_Handle_def split: prod.splits if_splits)

lemma throttle_bounded:
  "length (th_seen (snd (throttle_run rs (NewThrottleHandler w)))) \<le> maxThrottleKeys"
proof -
  have "throttle_ok h \<Longrightarrow> throttle_ok (snd (throttle_run rs h))" for h
  proof (induction rs h rule: throttle_run.induct)
    case (2 now r rs h)
    then show ?case using throttle_Handle_ok [of now r h] by (auto split: prod.splits)
  qed simp
  from this [of "NewThrottleHandler w"] show ?thesis by (simp add: throttle_ok_def NewThrottleHandler_def)
qed

text \<open>
  No record is lost: while the map does not overflow, every record of a key was passed on, was
  reported in the count of a later one, or is pending in the map.
\<close>

definition pending :: "throttleHandler \<Rightarrow> string \<Rightarrow> int" where
  "pending h k = (case map_of (th_seen h) k of None \<Rightarrow> 0 | Some e \<Rightarrow> te_suppressed e)"

fun admits :: "(time \<times> log_record) list \<Rightarrow> throttleHandler \<Rightarrow> (string \<times> bool \<times> int) list \<times> throttleHandler" where
  "admits [] h = ([], h)"
| "admits ((now, r) # rs) h =
     (case admit now r h of
        (d, h1) \<Rightarrow> (case admits rs h1 of (ds, h2) \<Rightarrow> ((throttle_key r, d) # ds, h2)))"

definition accounted :: "string \<Rightarrow> (string \<times> bool \<times> int) list \<Rightarrow> int" where
  "accounted k ds = sum_list (map (\<lambda>(k', emit, n). if k' = k \<and> emit then 1 + n else 0) ds)"

lemma accounted_simps [simp]:
  "accounted k [] = 0"
  "accounted k ((k', emit, n) # ds) = (if k' = k \<and> emit then 1 + n else 0) + accounted k ds"
  by (simp_all add: accounted_def)

definition keys_of :: "throttleHandler \<Rightarrow> string set" where
  "keys_of h = dom (map_of (th_seen h))"

lemma admit_accounts:
  assumes "admit now r h = ((emit, n), h')"
    and "throttle_key r \<in> keys_of h \<or> length (th_seen h) < maxThrottleKeys"
  shows "pending h' k + (if throttle_key r = k \<and> emit then 1 + n else 0) =
      pending h k + (if throttle_key r = k then 1 else 0)"
    and "keys_of h' = insert (throttle_key r) (keys_of h)"
proof -
  obtain e where e: "map_of (th_seen h') = (map_of (th_seen h))(throttle_key r \<mapsto> e)"
    and n: "te_suppressed e + (if emit then 1 + n else 0) = pending h (throttle_key r) + 1"
    using assms by (cases "map_of (th_seen h) (throttle_key r)")
      (auto simp: admit_def Let_def pending_def keys_of_def evictLocked_def update_conv' split: if_splits)
  then show "pending h' k + (if throttle_key r = k \<and> emit then 1 + n else 0) =
      pending h k + (if throttle_key r = k then 1 else 0)"
    and "keys_of h' = insert (throttle_key r) (keys_of h)"
    by (auto simp: pending_def keys_of_def)
qed

lemma throttle_accounts:
  assumes "throttle_ok h" and "card (keys_of h \<union> throttle_key ` snd ` set rs) \<le> maxThrottleKeys"
    and "admits rs h = (ds, h')"
  shows "accounted k ds + pending h' k = pending h k + int (length (filter (\<lambda>(t, r). throttle_key r = k) rs))"
  using assms
proof (induction rs arbitrary: h ds)
  case (Cons x rs)
  obtain now r where x: "x = (now, r)" by (cases x)
  obtain emit n h1 where a: "admit now r h = ((emit, n), h1)" by (metis prod.exhaust)
  obtain ds1 where ds: "admits rs h1 = (ds1, h')" "ds = (throttle_key r, emit, n) # ds1"
    using Cons.prems(3) a x by (auto split: prod.splits)
  have fin: "finite (keys_of h)" and len: "length (th_seen h) = card (keys_of h)"
    using Cons.prems(1) distinct_card [of "map fst (th_seen h)"]
    by (simp_all add: keys_of_def throttle_ok_def dom_map_of_conv_image_fst finite_dom_map_of)
  have "card (insert (throttle_key r) (keys_of h)) \<le> maxThrottleKeys"
    by (rule order_trans [OF card_mono Cons.prems(2)]) (auto simp: x fin)
  then have room: "throttle_key r \<in> keys_of h \<or> length (th_seen h) < maxThrottleKeys"
    using fin len by (auto simp: card_insert_if split: if_splits)
  have "card (keys_of h1 \<union> throttle_key ` snd ` set rs) \<le> maxThrottleKeys"
    using Cons.prems(2) by (simp add: admit_accounts(2) [OF a room] x)
  then have "accounted k ds1 + pending h' k = pending h1 k + int (length (filter (\<lambda>(t, r). throttle_key r = k) rs))"
    using Cons.IH ds(1) admit_ok [OF Cons.prems(1) a] by blast
  then show ?case using admit_accounts(1) [OF a room, of k] by (auto simp: ds(2) x split: if_splits)
qed simp



end
