(* ===== verification/Resilience.thy ===== *)
theory Resilience
  imports Webhook Logging
begin

text \<open>
  The policy chain around an outbound call, \<open>internal/resilience/resilience.go\<close>: which settings its three
  policies are built with, the order they are composed in, and what a change of the circuit's state
  is logged and measured as. The policies themselves are failsafe-go's: a policy is a parameter that
  turns an execution into an execution, and what the library documents of each is a named law. From
  these laws follows the contract \<open>guard_laws\<close> that webhook delivery relies on.
\<close>

subsection \<open>State changes\<close>

datatype breaker_state = ClosedState | OpenState | HalfOpenState

fun stateValue :: "breaker_state \<Rightarrow> int" where
  "stateValue OpenState = 2"
| "stateValue HalfOpenState = 1"
| "stateValue ClosedState = 0"

fun transitionLine :: "breaker_state \<Rightarrow> level \<times> string" where
  "transitionLine OpenState = (LevelWarn, ''circuit breaker opened'')"
| "transitionLine HalfOpenState = (LevelInfo, ''circuit breaker probing'')"
| "transitionLine ClosedState = (LevelInfo, ''circuit breaker closed'')"

text \<open>The callback: the log record, and what the observer gets. The names of the states are the library's.\<close>

definition OnStateChanged ::
  "(breaker_state \<Rightarrow> string) \<Rightarrow> string \<Rightarrow> breaker_state \<Rightarrow> breaker_state \<Rightarrow>
   log_record \<times> (string \<times> string \<times> string \<times> int)"
where
  "OnStateChanged names target old new =
     (case transitionLine new of
        (lvl, msg) \<Rightarrow>
          (\<lparr>lr_level = lvl, lr_msg = msg,
            lr_attrs = [(''from'', KindString (names old)), (''to'', KindString (names new))]\<rparr>,
           (target, names old, names new, stateValue new)))"

subsection \<open>The chain\<close>

type_synonym 'x exec = "'x \<Rightarrow> go_error option \<times> 'x"

type_synonym 'x policy = "'x exec \<Rightarrow> 'x exec"

record breaker_args =
  ba_failure_rate :: float64
  ba_min_throughput :: int
  ba_window :: duration
  ba_delay :: duration
  ba_successes :: int
  ba_calls :: int
  ba_handle :: "go_error option \<Rightarrow> bool"

record retry_args =
  ra_max_attempts :: int
  ra_base :: duration
  ra_max :: duration
  ra_jitter :: rat
  ra_abort :: "go_error option \<Rightarrow> bool"
  ra_budget_rate :: float64
  ra_min_concurrency :: int
  ra_handle :: "go_error option \<Rightarrow> bool"

record 'x policy_lib =
  pl_retry :: "retry_args \<Rightarrow> 'x policy"
  pl_breaker :: "breaker_args \<Rightarrow> 'x policy"
  pl_timeout :: "duration \<Rightarrow> 'x policy"

record res_options =
  ro_Name :: string
  ro_Breaker :: breaker_cfg
  ro_Timeout :: duration
  ro_Retry :: webhook_cfg
  ro_IsFailure :: "(go_error option \<Rightarrow> bool) option"

definition newBreaker :: "res_options \<Rightarrow> (go_error option \<Rightarrow> bool) \<Rightarrow> breaker_args" where
  "newBreaker o' isFailure =
     (let b = ro_Breaker o' in
      \<lparr>ba_failure_rate = br_failure_rate b, ba_min_throughput = br_min_throughput b, ba_window = br_window b,
       ba_delay = br_open_duration b, ba_successes = br_half_open_success b, ba_calls = br_half_open_max_calls b,
       ba_handle = isFailure\<rparr>)"

definition aborts :: "go_error option \<Rightarrow> bool" where
  "aborts err = (case err of None \<Rightarrow> False | Some e \<Rightarrow> errors_is_lib e CircuitOpen)"

definition newRetry :: "res_options \<Rightarrow> (go_error option \<Rightarrow> bool) \<Rightarrow> retry_args" where
  "newRetry o' isFailure =
     (let r = ro_Retry o' in
      \<lparr>ra_max_attempts = wh_max_attempts r, ra_base = wh_base r, ra_max = wh_max r, ra_jitter = 1 / 2,
       ra_abort = aborts, ra_budget_rate = wh_budget r, ra_min_concurrency = 3, ra_handle = isFailure\<rparr>)"

definition failure_rule :: "res_options \<Rightarrow> go_error option \<Rightarrow> bool" where
  "failure_rule o' = (case ro_IsFailure o' of None \<Rightarrow> (\<lambda>err. err \<noteq> None) | Some f \<Rightarrow> f)"

text \<open>\<open>failsafe.With\<close>: the first policy is the outermost.\<close>

definition failsafe_With :: "'x policy list \<Rightarrow> 'x exec \<Rightarrow> 'x exec" where
  "failsafe_With ps fn = foldr (\<lambda>p f. p f) ps fn"

definition resilience_New :: "'x policy_lib \<Rightarrow> res_options \<Rightarrow> 'x exec \<Rightarrow> 'x exec" where
  "resilience_New lib o' =
     failsafe_With [pl_retry lib (newRetry o' (failure_rule o')), pl_breaker lib (newBreaker o' (failure_rule o')),
                    pl_timeout lib (ro_Timeout o')]"

text \<open>
  The state an execution runs on: how many attempts were made, and what the policies keep. The outcome of the
  \<open>n\<close>-th attempt is given; the guard of webhook delivery counts the attempts.
\<close>

definition attempt_exec :: "(nat \<Rightarrow> go_error option) \<Rightarrow> (nat \<times> 'b) exec" where
  "attempt_exec f x = (f (fst x), (Suc (fst x), snd x))"

definition guard_of :: "(nat \<times> 'b) policy_lib \<Rightarrow> res_options \<Rightarrow> 'b \<Rightarrow> duration \<Rightarrow> guard" where
  "guard_of lib o' b delay =
     \<lparr>gd_Name = ro_Name o',
      gd_Run = (\<lambda>f. case resilience_New lib o' (attempt_exec f) (0, b) of (res, x) \<Rightarrow> (fst x, res)),
      gd_RemainingDelay = delay\<rparr>"

subsection \<open>What the library documents\<close>

inductive tries :: "'x exec \<Rightarrow> (go_error option \<Rightarrow> bool) \<Rightarrow> nat \<Rightarrow> 'x \<Rightarrow> go_error option \<Rightarrow> 'x \<Rightarrow> bool"
  for inner again where
  last_try: "inner x = (r, y) \<Longrightarrow> tries inner again 1 x r y"
| next_try: "inner x = (r, y) \<Longrightarrow> again r \<Longrightarrow> tries inner again n y r' z \<Longrightarrow> tries inner again (Suc n) x r' z"

text \<open>
  A retry policy makes attempts until one it does not handle or aborts on, at most its number of them (when that is
  positive); it returns the last result, wrapped into its own error when the last attempt it may make failed too, or the
  budget's error when the budget is exhausted. A breaker makes the call and counts it, or refuses it and counts the
  refusal; \<open>calls\<close> and \<open>refs\<close> read its books. A timeout lets the call run to its end and replaces the result of
  one that took too long by its own error.
\<close>

definition retry_law :: "retry_args \<Rightarrow> (nat \<times> 'b) policy \<Rightarrow> bool" where
  "retry_law ra P \<longleftrightarrow> (\<forall>inner x r y. P inner x = (r, y) \<longrightarrow>
     (\<exists>n r0. tries inner (\<lambda>e. ra_handle ra e \<and> \<not> ra_abort ra e) n x r0 y \<and>
        (ra_max_attempts ra \<ge> 1 \<longrightarrow> int n \<le> ra_max_attempts ra) \<and>
        (r = r0 \<or> ra_max_attempts ra \<le> int n \<and> ra_handle ra r0 \<and> returned_as r0 r \<or>
         (\<exists>t. r = Some (LibError BudgetExceeded t)))))"

definition breaker_law :: "('b \<Rightarrow> nat) \<Rightarrow> ('b \<Rightarrow> nat) \<Rightarrow> (nat \<times> 'b) policy \<Rightarrow> bool" where
  "breaker_law calls refs P \<longleftrightarrow> (\<forall>inner n b r n' b'. P inner (n, b) = (r, (n', b')) \<longrightarrow>
     (\<exists>b1 b2. inner (n, b1) = (r, (n', b2)) \<and> calls b1 = calls b \<and> refs b1 = refs b \<and>
        calls b' = calls b2 + 1 \<and> refs b' = refs b2) \<or>
     n' = n \<and> (\<exists>t. r = Some (LibError CircuitOpen t)) \<and> calls b' = calls b \<and> refs b' = refs b + 1)"

definition timeout_law :: "(nat \<times> 'b) policy \<Rightarrow> bool" where
  "timeout_law P \<longleftrightarrow> (\<forall>inner x. snd (P inner x) = snd (inner x) \<and>
     (fst (P inner x) = fst (inner x) \<or> timed_out (fst (P inner x))))"

definition policy_laws :: "('b \<Rightarrow> nat) \<Rightarrow> ('b \<Rightarrow> nat) \<Rightarrow> (nat \<times> 'b) policy_lib \<Rightarrow> bool" where
  "policy_laws calls refs lib \<longleftrightarrow> (\<forall>ra. retry_law ra (pl_retry lib ra)) \<and>
     (\<forall>ba. breaker_law calls refs (pl_breaker lib ba)) \<and> (\<forall>d. timeout_law (pl_timeout lib d))"

subsection \<open>The chain keeps the contract of webhook delivery\<close>

text \<open>One attempt through the breaker and the timeout.\<close>

definition one_attempt ::
  "('b \<Rightarrow> nat) \<Rightarrow> ('b \<Rightarrow> nat) \<Rightarrow> (nat \<Rightarrow> go_error option) \<Rightarrow> nat \<times> 'b \<Rightarrow> go_error option \<Rightarrow> nat \<times> 'b \<Rightarrow> bool" where
  "one_attempt calls refs f x r y \<longleftrightarrow>
     fst y = Suc (fst x) \<and> (r = f (fst x) \<or> timed_out r) \<and> calls (snd y) = calls (snd x) + 1 \<and> refs (snd y) = refs (snd x) \<or>
     fst y = fst x \<and> (\<exists>t. r = Some (LibError CircuitOpen t)) \<and> calls (snd y) = calls (snd x) \<and> refs (snd y) = refs (snd x) + 1"

lemma one_attempt_runs:
  assumes "breaker_law calls refs B" and "timeout_law T" and "B (T (attempt_exec f)) x = (r, y)"
  shows "one_attempt calls refs f x r y"
proof -
  have T: "T (attempt_exec f) (n, b) = (r0, z) \<Longrightarrow> z = (Suc n, b) \<and> (r0 = f n \<or> timed_out r0)" for n b r0 z
    using assms(2) unfolding timeout_law_def attempt_exec_def by (metis fst_conv snd_conv)
  obtain n b n' b' where xy: "x = (n, b)" "y = (n', b')" by (metis prod.exhaust)
  from assms(1) [unfolded breaker_law_def, rule_format, OF assms(3) [unfolded xy]] show ?thesis
    unfolding xy one_attempt_def using T by fastforce
qed

lemma tries_attempts:
  assumes "tries I (\<lambda>e. handle e \<and> \<not> aborts e) m x r y" and "\<And>x r y. I x = (r, y) \<Longrightarrow> one_attempt calls refs f x r y"
  shows "fst x \<le> fst y \<and> fst y - fst x \<le> m \<and> calls (snd y) = calls (snd x) + (fst y - fst x) \<and>
    refs (snd y) \<le> refs (snd x) + 1 \<and>
    (\<exists>seen. (\<forall>k. fst x \<le> k \<and> k < fst y \<longrightarrow> seen k = f k \<or> timed_out (seen k)) \<and>
       (\<forall>k. fst x \<le> k \<and> Suc k < fst y \<longrightarrow> handle (seen k)) \<and>
       (fst x < fst y \<and> r = seen (fst y - 1) \<or> (\<exists>t. r = Some (LibError CircuitOpen t))))"
  using assms(1)
proof induction
  case (last_try x r y)
  from assms(2) [OF last_try] show ?case by (intro conjI exI [of _ "\<lambda>_. r"]) (auto simp: one_attempt_def less_Suc_eq)
next
  case (next_try x r y n r' z)
  have "\<not> aborts r" "handle r" using next_try.hyps(2) by auto
  then have y: "fst y = Suc (fst x)" "r = f (fst x) \<or> timed_out r" "calls (snd y) = calls (snd x) + 1" "refs (snd y) = refs (snd x)"
    using assms(2) [OF next_try.hyps(1)] by (auto simp: one_attempt_def aborts_def errors_is_lib_def)
  from next_try.IH obtain seen where seen: "\<And>k. fst y \<le> k \<Longrightarrow> k < fst z \<Longrightarrow> seen k = f k \<or> timed_out (seen k)"
    "\<And>k. fst y \<le> k \<Longrightarrow> Suc k < fst z \<Longrightarrow> handle (seen k)"
    "fst y < fst z \<and> r' = seen (fst z - 1) \<or> (\<exists>t. r' = Some (LibError CircuitOpen t))" by blast
  have "seen' k = f k \<or> timed_out (seen' k)" if "seen' = seen(fst x := r)" "fst x \<le> k" "k < fst z" for k seen'
    using that seen(1) [of k] y(1,2) by (cases "k = fst x") auto
  moreover have "(seen(fst x := r)) k = seen k \<or> k = fst x" for k by auto
  moreover have "handle ((seen(fst x := r)) k)" if "fst x \<le> k" "Suc k < fst z" for k
    using that seen(2) [of k] y(1) \<open>handle r\<close> by (cases "k = fst x") auto
  moreover have "fst x < fst z \<and> r' = (seen(fst x := r)) (fst z - 1) \<or> (\<exists>t. r' = Some (LibError CircuitOpen t))"
    using seen(3) y(1) by auto
  ultimately show ?case using next_try.IH y(1,3,4) by (intro conjI exI [of _ "seen(fst x := r)"]) auto
qed

lemma chain_run:
  assumes "policy_laws calls refs lib" and "ro_IsFailure o' = Some IsDependencyFailure"
    and "resilience_New lib o' (attempt_exec f) (0, b) = (res, (n, b'))"
  shows "calls b' = calls b + n" and "refs b' \<le> refs b + 1"
    and "wh_max_attempts (ro_Retry o') \<ge> 1 \<longrightarrow> int n \<le> wh_max_attempts (ro_Retry o')"
    and "\<exists>seen. (\<forall>k < n. seen k = f k \<or> timed_out (seen k)) \<and> (\<forall>k. Suc k < n \<longrightarrow> IsDependencyFailure (seen k)) \<and>
      (n > 0 \<and> returned_as (seen (n - 1)) res \<or> refusal res)"
proof -
  let ?ra = "newRetry o' (failure_rule o')" and ?B = "pl_breaker lib (newBreaker o' (failure_rule o'))"
  let ?T = "pl_timeout lib (ro_Timeout o')"
  have ra: "ra_handle ?ra = IsDependencyFailure" "ra_abort ?ra = aborts" "ra_max_attempts ?ra = wh_max_attempts (ro_Retry o')"
    using assms(2) by (simp_all add: newRetry_def failure_rule_def Let_def)
  have run: "pl_retry lib ?ra (?B (?T (attempt_exec f))) (0, b) = (res, (n, b'))"
    using assms(3) by (simp add: resilience_New_def failsafe_With_def)
  have laws: "retry_law ?ra (pl_retry lib ?ra)" "breaker_law calls refs ?B" "timeout_law ?T"
    using assms(1) by (simp_all add: policy_laws_def)
  obtain m r0 where t: "tries (?B (?T (attempt_exec f))) (\<lambda>e. IsDependencyFailure e \<and> \<not> aborts e) m (0, b) r0 (n, b')"
    and m: "wh_max_attempts (ro_Retry o') \<ge> 1 \<longrightarrow> int m \<le> wh_max_attempts (ro_Retry o')"
    and res: "returned_as r0 res \<or> (\<exists>t. res = Some (LibError BudgetExceeded t))"
    using laws(1) [unfolded retry_law_def ra, rule_format, OF run] by (auto simp: returned_as_def)
  note tr = tries_attempts [OF t one_attempt_runs [OF laws(2,3), of f], simplified]
  from tr show "calls b' = calls b + n" "refs b' \<le> refs b + 1"
    "wh_max_attempts (ro_Retry o') \<ge> 1 \<longrightarrow> int n \<le> wh_max_attempts (ro_Retry o')" using m by auto
  from tr res show "\<exists>seen. (\<forall>k < n. seen k = f k \<or> timed_out (seen k)) \<and> (\<forall>k. Suc k < n \<longrightarrow> IsDependencyFailure (seen k)) \<and>
      (n > 0 \<and> returned_as (seen (n - 1)) res \<or> refusal res)"
    unfolding refusal_def One_nat_def by (elim conjE exE, intro exI conjI) auto
qed

text \<open>
  C35: The chain as it is assembled keeps the contract webhook delivery relies on. With policies that behave as their
  library documents, a delivery is attempted at most \<open>max_attempts\<close> times and each further time only after an attempt
  that was seen to be the dependency's fault, where an attempt that took too long is seen as such whatever it would have
  answered; every attempt is counted by the breaker, since the breaker is inside the retries; an open circuit ends the
  delivery at its first refusal; and what comes back is what was seen last, possibly wrapped into the error of exhausted
  retries, or the refusal of the breaker or of the budget.
\<close>
theorem resilience_keeps_contract:
  assumes "policy_laws calls refs lib" and "ro_IsFailure o' = Some IsDependencyFailure"
  shows "guard_laws (guard_of lib o' b delay) \<and>
    (\<forall>f res n b'. resilience_New lib o' (attempt_exec f) (0, b) = (res, (n, b')) \<longrightarrow>
       gd_Run (guard_of lib o' b delay) f = (n, res) \<and> calls b' = calls b + n \<and> refs b' \<le> refs b + 1 \<and>
       (wh_max_attempts (ro_Retry o') \<ge> 1 \<longrightarrow> int n \<le> wh_max_attempts (ro_Retry o')))"
proof
  show "guard_laws (guard_of lib o' b delay)"
    unfolding guard_laws_def
  proof (intro allI impI)
    fix f n res assume "gd_Run (guard_of lib o' b delay) f = (n, res)"
    then obtain b' where "resilience_New lib o' (attempt_exec f) (0, b) = (res, (n, b'))"
      by (auto simp: guard_of_def split: prod.splits)
    from chain_run(4) [OF assms this] show "\<exists>seen. (\<forall>k < n. seen k = f k \<or> timed_out (seen k)) \<and>
        (\<forall>k. Suc k < n \<longrightarrow> IsDependencyFailure (seen k)) \<and> (n > 0 \<and> returned_as (seen (n - 1)) res \<or> refusal res)" .
  qed
  show "\<forall>f res n b'. resilience_New lib o' (attempt_exec f) (0, b) = (res, (n, b')) \<longrightarrow>
       gd_Run (guard_of lib o' b delay) f = (n, res) \<and> calls b' = calls b + n \<and> refs b' \<le> refs b + 1 \<and>
       (wh_max_attempts (ro_Retry o') \<ge> 1 \<longrightarrow> int n \<le> wh_max_attempts (ro_Retry o'))"
  proof (intro allI impI)
    fix f res n b' assume run: "resilience_New lib o' (attempt_exec f) (0, b) = (res, (n, b'))"
    then have "gd_Run (guard_of lib o' b delay) f = (n, res)" by (simp add: guard_of_def)
    with chain_run(1-3) [OF assms run] show "gd_Run (guard_of lib o' b delay) f = (n, res) \<and> calls b' = calls b + n \<and>
        refs b' \<le> refs b + 1 \<and> (wh_max_attempts (ro_Retry o') \<ge> 1 \<longrightarrow> int n \<le> wh_max_attempts (ro_Retry o'))" by blast
  qed
qed

text \<open>
  Policies that work: retries without a pause that end with the wrapped error of the last attempt, a breaker that opens
  for good after four calls, and a timeout, where the length of each attempt is given.
\<close>

fun demo_retry :: "retry_args \<Rightarrow> nat \<Rightarrow> 'x policy" where
  "demo_retry ra m inner x =
     (case inner x of
        (r, y) \<Rightarrow>
          if \<not> ra_handle ra r \<or> ra_abort ra r then (r, y)
          else (case m of 0 \<Rightarrow> (map_option (WrapError ''retries exceeded: '') r, y) | Suc m' \<Rightarrow> demo_retry ra m' inner y))"

definition demo_breaker :: "(nat \<times> nat \<times> nat) policy" where
  "demo_breaker inner x =
     (case x of
        (n, calls, refs) \<Rightarrow>
          if calls \<ge> 4 then (Some (LibError CircuitOpen ''circuit breaker open''), (n, calls, Suc refs))
          else (case inner x of (r, (n', calls', refs')) \<Rightarrow> (r, (n', Suc calls', refs'))))"

definition demo_timeout :: "(nat \<Rightarrow> duration) \<Rightarrow> duration \<Rightarrow> (nat \<times> 'b) policy" where
  "demo_timeout took d inner x =
     (if took (fst x) > d then (Some (LibError TimeLimitExceeded ''timeout exceeded''), snd (inner x)) else inner x)"

definition demo_policies :: "(nat \<Rightarrow> duration) \<Rightarrow> (nat \<times> nat \<times> nat) policy_lib" where
  "demo_policies took = \<lparr>pl_retry = (\<lambda>ra. demo_retry ra (nat (ra_max_attempts ra - 1))),
     pl_breaker = (\<lambda>_. demo_breaker), pl_timeout = demo_timeout took\<rparr>"

definition demo_resilience :: res_options where
  "demo_resilience = \<lparr>ro_Name = ''webhook'', ro_Breaker = breaker_defaults, ro_Timeout = 3 * second,
     ro_Retry = webhook_defaults, ro_IsFailure = Some IsDependencyFailure\<rparr>"

lemma demo_retry_tries:
  "demo_retry ra m inner x = (r, y) \<Longrightarrow> \<exists>n r0. n \<le> Suc m \<and> tries inner (\<lambda>e. ra_handle ra e \<and> \<not> ra_abort ra e) n x r0 y \<and>
     (r = r0 \<or> n = Suc m \<and> ra_handle ra r0 \<and> returned_as r0 r)"
proof (induction m arbitrary: x)
  case 0
  obtain r0 y0 where i: "inner x = (r0, y0)" by fastforce
  then have "tries inner (\<lambda>e. ra_handle ra e \<and> \<not> ra_abort ra e) 1 x r0 y0" by (rule tries.last_try)
  with 0 i show ?case by (cases r0) (auto simp: returned_as_def split: if_splits intro!: exI [of _ "1 :: nat"])
next
  case (Suc m)
  obtain r0 y0 where i: "inner x = (r0, y0)" by fastforce
  show ?case
  proof (cases "\<not> ra_handle ra r0 \<or> ra_abort ra r0")
    case True
    then have "r = r0" "y = y0" using Suc.prems i by simp_all
    then show ?thesis using tries.last_try [of inner x r0 y0] i by (intro exI [of _ "1 :: nat"] exI [of _ r0]) simp
  next
    case False
    then have "demo_retry ra m inner y0 = (r, y)" using Suc.prems i by simp
    from Suc.IH [OF this] obtain n r1 where n: "n \<le> Suc m" "tries inner (\<lambda>e. ra_handle ra e \<and> \<not> ra_abort ra e) n y0 r1 y"
      "r = r1 \<or> n = Suc m \<and> ra_handle ra r1 \<and> returned_as r1 r" by blast
    have "tries inner (\<lambda>e. ra_handle ra e \<and> \<not> ra_abort ra e) (Suc n) x r1 y"
      using tries.next_try [OF i _ n(2)] False by blast
    then show ?thesis using n(1,3) by (intro exI [of _ "Suc n"] exI [of _ r1]) auto
  qed
qed

lemma demo_policies_laws: "policy_laws fst snd (demo_policies took)"
proof -
  have "retry_law ra (demo_retry ra (nat (ra_max_attempts ra - 1)) :: (nat \<times> nat \<times> nat) policy)" for ra
    unfolding retry_law_def using demo_retry_tries [of ra "nat (ra_max_attempts ra - 1)"] by fastforce
  moreover have "breaker_law fst snd demo_breaker"
    unfolding breaker_law_def demo_breaker_def by (auto split: prod.splits if_splits)
  moreover have "timeout_law (demo_timeout took d :: (nat \<times> nat \<times> nat) policy)" for d
    by (simp add: timeout_law_def demo_timeout_def timed_out_def)
  ultimately show ?thesis by (simp add: policy_laws_def demo_policies_def)
qed

text \<open>A first attempt that would have succeeded but takes ten seconds, then two failures: three attempts, all counted.\<close>

theorem resilience_keeps_contract_witness:
  "\<exists>lib f e. guard_laws (guard_of lib demo_resilience (0 :: nat, 0 :: nat) 5) \<and> f 0 = None \<and>
     gd_Run (guard_of lib demo_resilience (0, 0) 5) f = (3, Some (WrapError ''retries exceeded: '' e)) \<and> f 2 = Some e"
proof -
  let ?lib = "demo_policies (\<lambda>n. if n = 0 then 10 * second else 0)"
  let ?f = "\<lambda>n. if n = 0 then None else Some (New Unavailable ''webhook returned 503'')"
  have "ro_IsFailure demo_resilience = Some IsDependencyFailure" by (simp add: demo_resilience_def)
  note c = resilience_keeps_contract [OF demo_policies_laws this, of "\<lambda>n. if n = 0 then 10 * second else 0" "(0, 0)" 5]
  have "resilience_New ?lib demo_resilience (attempt_exec ?f) (0, (0, 0)) =
      (Some (WrapError ''retries exceeded: '' (New Unavailable ''webhook returned 503'')), (3, (3, 0)))"
    by (simp add: resilience_New_def failsafe_With_def demo_policies_def demo_breaker_def demo_timeout_def attempt_exec_def
        newRetry_def demo_resilience_def webhook_defaults_def failure_rule_def aborts_def errors_is_lib_def IsDependencyFailure_def
        IsTerminal_def errors_is_def app_is_def as_app_def New_def)
  with c show ?thesis by (intro exI [of _ ?lib] exI [of _ ?f] exI [of _ "New Unavailable ''webhook returned 503''"]) simp
qed

subsection \<open>A recovery is never hidden\<close>

text \<open>
  The log throttle collapses repeats of warnings. The transitions of a breaker say different things for different
  states, and only opening is a warning, so the line of a recovery passes in every state of the throttle and leaves it as it is.
\<close>

theorem recovery_logged:
  assumes "OnStateChanged names target old new = (r, ev)" and "new \<noteq> OpenState"
  shows "throttle_Handle now r h = (Some r, h)"
  using assms by (cases new) (auto simp: OnStateChanged_def throttle_Handle_def level_defs)

lemma transition_messages_distinct: "transitionLine a = transitionLine b \<longleftrightarrow> a = b"
  by (cases a; cases b) simp_all

lemma stateValue_inj: "stateValue a = stateValue b \<longleftrightarrow> a = b"
  by (cases a; cases b) simp_all

end
