(* ===== verification/Maintenance.thy ===== *)
theory Maintenance
  imports Job_Recovery
begin

text \<open>
  The fleet-wide maintenance of \<open>internal/queue/service.go\<close>, the advisory lock it runs under
  (\<open>internal/postgres/leader.go\<close>) and the reconnect loop of the wake-up listener
  (\<open>internal/queue/listener.go\<close>). The statements a sweep runs go through the connection pool and
  not through the transaction that holds the lock, so what they changed stays whatever becomes of
  that transaction; the model keeps that.
\<close>

unbundle bit_operations_syntax

subsection \<open>The leader lock (leader.go)\<close>

text \<open>\<open>fnv.New64a\<close>: the offset basis and the prime of 64-bit FNV-1a.\<close>

definition fnv1a :: "string \<Rightarrow> 64 word" where
  "fnv1a s = foldl (\<lambda>h c. (h XOR of_nat (of_char c)) * 1099511628211) 14695981039346656037 s"

definition lockKey :: "string \<Rightarrow> int64" where
  "lockKey name = fnv1a (''taskapi/'' @ name) AND mask 63"

text \<open>
  The database's answer to \<open>pg_try_advisory_xact_lock\<close> is an argument, as a function of the key.
\<close>

definition WithLeader ::
  "(int64 \<Rightarrow> bool result) \<Rightarrow> string \<Rightarrow> ('s \<Rightarrow> go_error option \<times> 's) \<Rightarrow> 's \<Rightarrow> (bool \<times> go_error option) \<times> 's"
where
  "WithLeader lock name fn s =
     (case lock (lockKey name) of
        Inl e \<Rightarrow> ((False, Some (WrapError (''postgres: leader lock '' @ go_quote name @ '': '') e)), s)
      | Inr got \<Rightarrow>
          if \<not> got then ((False, None), s)
          else (case fn s of (oe, s') \<Rightarrow> ((True, oe), s')))"

subsection \<open>The maintenance loops (service.go)\<close>

record maintenance =
  mt_cfg :: queue_cfg
  mt_backoff :: backoff

definition NewMaintenance :: "queue_cfg \<Rightarrow> maintenance" where
  "NewMaintenance cfg =
     \<lparr>mt_cfg = cfg,
      mt_backoff = NewBackoff (bo_base (qc_backoff cfg)) (bo_max (qc_backoff cfg)) (bo_jitter (qc_backoff cfg))\<rparr>"

text \<open>What one tick meets: the transaction, the lock, the statements, the clock, the jitter.\<close>

record tick_env =
  tk_begin :: "go_error option"
  tk_lock :: "int64 \<Rightarrow> bool result"
  tk_commit :: db_outcome
  tk_now :: time
  tk_later :: time
  tk_draw :: nat
  tk_first :: db_outcome
  tk_second :: db_outcome

text \<open>How a tick ended, as the line it logs; every line but the skip is dropped at shutdown.\<close>

datatype tick_line =
  CouldNotBegin go_error | MaintenanceFailed go_error | AnotherLeads | CouldNotCommit go_error | Led

definition asLeader ::
  "tick_env \<Rightarrow> string \<Rightarrow> (jobs \<Rightarrow> go_error option \<times> jobs) \<Rightarrow> jobs \<Rightarrow> tick_line \<times> jobs" where
  "asLeader x name fn rows =
     (case tk_begin x of
        Some e \<Rightarrow> (CouldNotBegin e, rows)
      | None \<Rightarrow>
          (case WithLeader (tk_lock x) name fn rows of
             ((led, Some e), rows') \<Rightarrow> (MaintenanceFailed e, rows')
           | ((led, None), rows') \<Rightarrow>
               if \<not> led then (AnotherLeads, rows')
               else
                 (case tk_commit x of
                    DbOk \<Rightarrow> (Led, rows')
                  | DbFailed e \<Rightarrow> (CouldNotCommit e, rows')
                  | DbLost e \<Rightarrow> (CouldNotCommit e, rows'))))"

definition sweep_work :: "maintenance \<Rightarrow> tick_env \<Rightarrow> jobs \<Rightarrow> go_error option \<times> jobs" where
  "sweep_work m x rows =
     (case Schedule (tk_first x) (tk_now x) rows of
        (Inl e, rows1) \<Rightarrow> (Some e, rows1)
      | (Inr n, rows1) \<Rightarrow>
          (case Reap (tk_second x) (tk_later x) (backoff_For (mt_backoff m) (tk_draw x) 1)
              (qc_max_attempts (mt_cfg m)) rows1 of
             (Inl e, rows2) \<Rightarrow> (Some e, rows2)
           | (Inr (requeued, discarded), rows2) \<Rightarrow> (None, rows2)))"

definition maintenance_Sweep :: "maintenance \<Rightarrow> tick_env \<Rightarrow> jobs \<Rightarrow> tick_line \<times> jobs" where
  "maintenance_Sweep m x = asLeader x ''queue-sweep'' (sweep_work m x)"

definition purge_work :: "maintenance \<Rightarrow> tick_env \<Rightarrow> jobs \<Rightarrow> go_error option \<times> jobs" where
  "purge_work m x rows =
     (case Purge (tk_first x) (tk_now x) (rt_succeeded (qc_retention (mt_cfg m)))
         (rt_discarded (qc_retention (mt_cfg m))) rows of
        (Inl e, rows1) \<Rightarrow> (Some e, rows1)
      | (Inr n, rows1) \<Rightarrow> (None, rows1))"

definition maintenance_Purge :: "maintenance \<Rightarrow> tick_env \<Rightarrow> jobs \<Rightarrow> tick_line \<times> jobs" where
  "maintenance_Purge m x = asLeader x ''queue-purge'' (purge_work m x)"

text \<open>\<open>Run\<close>: the ticks of the two timers in the order they arrive, until the context ends.\<close>

datatype maintenance_tick = SweepTick tick_env | PurgeTick tick_env

fun maintenance_Run :: "maintenance \<Rightarrow> maintenance_tick list \<Rightarrow> jobs \<Rightarrow> jobs" where
  "maintenance_Run m [] rows = rows"
| "maintenance_Run m (SweepTick x # ts) rows = maintenance_Run m ts (snd (maintenance_Sweep m x rows))"
| "maintenance_Run m (PurgeTick x # ts) rows = maintenance_Run m ts (snd (maintenance_Purge m x rows))"

subsection \<open>The wake-up listener (listener.go)\<close>

text \<open>The wake-up channel holds at most one signal; \<open>wake\<close> never blocks.\<close>

definition wake :: "nat \<Rightarrow> nat" where
  "wake buffered = (if buffered < 1 then buffered + 1 else buffered)"

text \<open>
  One connection's life is how many notifications it delivered before it failed; \<open>stop\<close> says that
  the context had ended by then, \<open>woken\<close> that it ended during the pause after it. The result is the
  pauses taken and the number of signals left in the channel.
\<close>

record connection_life =
  cl_notified :: nat
  cl_stop :: bool
  cl_woken :: bool

definition listen :: "connection_life \<Rightarrow> nat \<Rightarrow> nat" where
  "listen c = (wake ^^ cl_notified c)"

definition maxBackoff :: duration where
  "maxBackoff = 30 * second"

fun listener_Run :: "duration \<Rightarrow> connection_life list \<Rightarrow> nat \<Rightarrow> duration list \<times> nat" where
  "listener_Run backoff [] b = ([], b)"
| "listener_Run backoff (c # cs) b =
     (let b1 = listen c b in
      if cl_stop c then ([], b1)
      else
        (let b2 = wake b1 in
         if cl_woken c then ([backoff], b2)
         else
           (case listener_Run (min (backoff * 2) maxBackoff) cs b2 of
              (pauses, b3) \<Rightarrow> (backoff # pauses, b3))))"

subsection \<open>The lock\<close>

lemma lockKey_nonneg: "0 \<le> sint (lockKey name)"
proof -
  have "\<not> bit (lockKey name) 63" by (simp add: lockKey_def bit_simps)
  then show ?thesis using bit_last_iff [of "lockKey name"] by simp
qed

lemma lock_names_distinct:
  "distinct (map lockKey [''queue-sweep'', ''queue-purge'', ''idempotency-purge''])"
  by code_simp

subsection \<open>A tick refines the queue\<close>

text \<open>What a tick does to the table, whatever the lock and the transaction do.\<close>

lemma asLeader_rows:
  "snd (asLeader x name fn rows) = rows \<or>
   tk_begin x = None \<and> tk_lock x (lockKey name) = Inr True \<and> snd (asLeader x name fn rows) = snd (fn rows)"
  by (auto simp: asLeader_def WithLeader_def split: option.splits sum.splits prod.splits db_outcome.splits)

lemma asLeader_led:
  assumes "asLeader x name fn rows = (Led, rows')"
  shows "fn rows = (None, rows')"
  using assms
  by (auto simp: asLeader_def WithLeader_def split: option.splits sum.splits prod.splits db_outcome.splits if_splits)

definition tick_ok :: "time \<Rightarrow> tick_env \<Rightarrow> bool" where
  "tick_ok t x \<longleftrightarrow> t \<le> tk_now x \<and> tk_now x \<le> tk_later x"

lemma now_rows: "s\<lparr>qs_now := t, qs_rows := rows\<rparr> = s\<lparr>qs_rows := rows, qs_now := t\<rparr>"
  by (cases s) simp

lemma clock_run: "qs_now s \<le> t \<Longrightarrow> queue_run s (s\<lparr>qs_now := t\<rparr>)"
  by (rule r_into_rtranclp) (rule Tick)

lemma sweep_work_run:
  assumes "tick_ok (qs_now s) x"
  shows "queue_run s (s\<lparr>qs_rows := snd (sweep_work m x (qs_rows s)), qs_now := tk_later x\<rparr>)"
proof -
  let ?s0 = "s\<lparr>qs_now := tk_now x\<rparr>"
  obtain r1 rows1 where sch: "Schedule (tk_first x) (tk_now x) (qs_rows s) = (r1, rows1)" by (metis prod.exhaust)
  let ?s1 = "?s0\<lparr>qs_rows := rows1\<rparr>"
  let ?s2 = "?s1\<lparr>qs_now := tk_later x\<rparr>"
  let ?delay = "backoff_For (mt_backoff m) (tk_draw x) 1" and ?cap = "qc_max_attempts (mt_cfg m)"
  have a: "queue_run s ?s0" using assms by (auto simp: tick_ok_def intro: clock_run)
  have b: "queue_step ?s0 ?s1" by (rule StepSchedule) (use sch in simp)
  have c: "queue_run ?s1 ?s2" by (rule clock_run) (use assms in \<open>simp add: tick_ok_def\<close>)
  have d: "queue_step ?s2 (?s2\<lparr>qs_rows := snd (Reap (tk_second x) (tk_later x) ?delay ?cap rows1)\<rparr>)"
    by (rule StepReap) (simp, rule prod.collapse [symmetric])
  have abc: "queue_run s ?s2" using a b c by (meson rtranclp.rtrancl_into_rtrancl rtranclp_trans)
  show ?thesis
  proof (cases r1)
    case (Inl e)
    then show ?thesis using abc by (simp add: sweep_work_def sch)
  next
    case (Inr n)
    have "snd (sweep_work m x (qs_rows s)) = snd (Reap (tk_second x) (tk_later x) ?delay ?cap rows1)"
      by (simp add: sweep_work_def sch Inr split: prod.splits sum.splits)
    then show ?thesis using rtranclp.rtrancl_into_rtrancl [OF abc d] by (simp add: now_rows)
  qed
qed

lemma purge_work_run:
  assumes "tick_ok (qs_now s) x"
  shows "queue_run s (s\<lparr>qs_rows := snd (purge_work m x (qs_rows s)), qs_now := tk_later x\<rparr>)"
proof -
  let ?s0 = "s\<lparr>qs_now := tk_now x\<rparr>" and ?rt = "qc_retention (mt_cfg m)"
  obtain res rows1 where p: "Purge (tk_first x) (tk_now x) (rt_succeeded ?rt) (rt_discarded ?rt) (qs_rows s) = (res, rows1)"
    by (metis prod.exhaust)
  let ?s1 = "?s0\<lparr>qs_rows := rows1\<rparr>"
  have "queue_run s ?s0" using assms by (auto simp: tick_ok_def intro: clock_run)
  moreover have "queue_step ?s0 ?s1" by (rule StepPurge) (use p in simp)
  moreover have "queue_run ?s1 (?s1\<lparr>qs_now := tk_later x\<rparr>)"
    by (rule clock_run) (use assms in \<open>simp add: tick_ok_def\<close>)
  ultimately have "queue_run s (?s1\<lparr>qs_now := tk_later x\<rparr>)"
    by (meson rtranclp.rtrancl_into_rtrancl rtranclp_trans)
  moreover have "snd (purge_work m x (qs_rows s)) = rows1"
    by (simp add: purge_work_def p split: sum.splits)
  ultimately show ?thesis by simp
qed

lemma asLeader_run:
  assumes "tick_ok (qs_now s) x"
    and "queue_run s (s\<lparr>qs_rows := snd (fn (qs_rows s)), qs_now := tk_later x\<rparr>)"
  shows "queue_run s (s\<lparr>qs_rows := snd (asLeader x name fn (qs_rows s)), qs_now := tk_later x\<rparr>)"
  using asLeader_rows [of x name fn "qs_rows s"] assms(2) clock_run [of s "tk_later x"] assms(1)
  by (auto simp: tick_ok_def)

fun tick_at :: "maintenance_tick \<Rightarrow> tick_env" where
  "tick_at (SweepTick x) = x"
| "tick_at (PurgeTick x) = x"

fun ticks_ok :: "time \<Rightarrow> maintenance_tick list \<Rightarrow> bool" where
  "ticks_ok t [] = True"
| "ticks_ok t (k # ks) = (tick_ok t (tick_at k) \<and> ticks_ok (tk_later (tick_at k)) ks)"

lemma maintenance_tick_run:
  assumes "tick_ok (qs_now s) (tick_at k)"
  shows "queue_run s (s\<lparr>qs_rows := maintenance_Run m [k] (qs_rows s), qs_now := tk_later (tick_at k)\<rparr>)"
  using assms asLeader_run [of s "tick_at k"] sweep_work_run purge_work_run
  by (cases k) (auto simp: maintenance_Sweep_def maintenance_Purge_def)

lemma maintenance_Run_Cons: "maintenance_Run m (k # ks) rows = maintenance_Run m ks (maintenance_Run m [k] rows)"
  by (cases k) simp_all

lemma maintenance_refines:
  assumes "ticks_ok (qs_now s) ks"
  shows "\<exists>t. queue_run s (s\<lparr>qs_rows := maintenance_Run m ks (qs_rows s), qs_now := t\<rparr>)"
  using assms
proof (induction ks arbitrary: s)
  case Nil
  then show ?case by (intro exI [of _ "qs_now s"]) simp
next
  case (Cons k ks)
  let ?s1 = "s\<lparr>qs_rows := maintenance_Run m [k] (qs_rows s), qs_now := tk_later (tick_at k)\<rparr>"
  have "queue_run s ?s1" using Cons.prems by (intro maintenance_tick_run) simp
  moreover obtain t where "queue_run ?s1 (?s1\<lparr>qs_rows := maintenance_Run m ks (qs_rows ?s1), qs_now := t\<rparr>)"
    using Cons.IH [of ?s1] Cons.prems by auto
  ultimately show ?case unfolding maintenance_Run_Cons [of m k ks] by (auto intro: rtranclp_trans)
qed

subsection \<open>What a successful sweep leaves behind\<close>

text \<open>The whole sweep as one pass over the table.\<close>

definition swept_row :: "time \<Rightarrow> time \<Rightarrow> duration \<Rightarrow> int \<Rightarrow> job_row \<Rightarrow> job_row" where
  "swept_row now later delay cap r =
     (if due now r then r\<lparr>j_state := StateAvailable\<rparr>
      else if expired later r then reap_row later delay cap r else r)"

lemma db_run_Inr: "db_run db wrap (a, rows') rows = (Inr b, rows1) \<Longrightarrow> db = DbOk \<and> b = a \<and> rows1 = rows'"
  by (cases db) auto

lemma swept_not_expired: "\<not> expired later (swept_row now later delay cap r)"
  by (auto simp: swept_row_def expired_def reap_row_def log_error_def unlock_def)

lemma sweep_work_rows:
  assumes "sweep_work m x rows = (None, rows')"
  shows "rows' = map (swept_row (tk_now x) (tk_later x) (backoff_For (mt_backoff m) (tk_draw x) 1)
    (qc_max_attempts (mt_cfg m))) rows"
proof -
  let ?avail = "\<lambda>r. r\<lparr>j_state := StateAvailable\<rparr>"
  obtain n rows1 where s: "Schedule (tk_first x) (tk_now x) rows = (Inr n, rows1)"
    using assms by (auto simp: sweep_work_def split: prod.splits sum.splits)
  then have rows1: "rows1 = sql_update (due (tk_now x)) ?avail rows"
    by (cases "tk_first x") (auto simp: Schedule_def)
  obtain c where "Reap (tk_second x) (tk_later x) (backoff_For (mt_backoff m) (tk_draw x) 1)
      (qc_max_attempts (mt_cfg m)) rows1 = (Inr c, rows')"
    using assms s by (auto simp: sweep_work_def split: prod.splits sum.splits)
  then have "rows' = sql_update (expired (tk_later x)) (reap_row (tk_later x)
      (backoff_For (mt_backoff m) (tk_draw x) 1) (qc_max_attempts (mt_cfg m))) rows1"
    by (auto simp: Reap_def Let_def split: db_outcome.splits)
  moreover have "(if expired l (if due t r then ?avail r else r) then reap_row l d c (if due t r then ?avail r else r)
      else (if due t r then ?avail r else r)) = swept_row t l d c r" for t l d c r
    by (auto simp: swept_row_def expired_def)
  ultimately show ?thesis by (simp add: rows1 sql_update_def comp_def)
qed

text \<open>
  C19: A sweep the leader completed has done the fleet's whole recovery work in one pass: the table is the old one with every job that was due made available, every job whose lease had lapsed taken from its dead worker (retried after the backoff, or discarded at the ceiling), and every other job untouched; no lapsed lease is left, and the change is a run of ordinary queue steps, so the queue's invariant survives it.\<close>
theorem sweep_recovers:
  assumes "queue_run (queue_init t) s" and "tick_ok (qs_now s) x"
    and "maintenance_Sweep m x (qs_rows s) = (Led, rows')"
  shows "rows' = map (swept_row (tk_now x) (tk_later x) (backoff_For (mt_backoff m) (tk_draw x) 1)
      (qc_max_attempts (mt_cfg m))) (qs_rows s) \<and>
    list_all (\<lambda>r. \<not> expired (tk_later x) r) rows' \<and>
    queue_inv (s\<lparr>qs_rows := rows', qs_now := tk_later x\<rparr>)"
proof -
  have rows: "rows' = map (swept_row (tk_now x) (tk_later x) (backoff_For (mt_backoff m) (tk_draw x) 1)
      (qc_max_attempts (mt_cfg m))) (qs_rows s)"
    using assms(3) unfolding maintenance_Sweep_def by (rule sweep_work_rows [OF asLeader_led])
  have "maintenance_Run m [SweepTick x] (qs_rows s) = rows'" using assms(3) by simp
  then have "queue_run s (s\<lparr>qs_rows := rows', qs_now := tk_later x\<rparr>)"
    using maintenance_tick_run [of s "SweepTick x" m] assms(2) by simp
  then have "queue_inv (s\<lparr>qs_rows := rows', qs_now := tk_later x\<rparr>)"
    using queue_inv_run queue_inv_init assms(1) by blast
  then show ?thesis by (simp add: rows list_all_iff swept_not_expired)
qed

text \<open>An empty table and a tick in which everything works.\<close>

definition calm_tick :: "time \<Rightarrow> tick_env" where
  "calm_tick t = \<lparr>tk_begin = None, tk_lock = (\<lambda>_. Inr True), tk_commit = DbOk, tk_now = t, tk_later = t,
     tk_draw = 0, tk_first = DbOk, tk_second = DbOk\<rparr>"

theorem sweep_recovers_witness:
  "\<exists>rows'. maintenance_Sweep (NewMaintenance queue_defaults) (calm_tick 500) (qs_rows demo_claimed) = (Led, rows') \<and>
     list_all (\<lambda>r. \<not> expired 500 r) rows' \<and> map j_state (qs_rows demo_claimed) = [StateRunning] \<and> map j_state rows' = [StateRetryable]"
proof -
  let ?m = "NewMaintenance queue_defaults" and ?x = "calm_tick 500"
  obtain rows' where r: "maintenance_Sweep ?m ?x (qs_rows demo_claimed) = (Led, rows')"
      "map j_state rows' = [StateRetryable]"
    by (simp add: maintenance_Sweep_def asLeader_def WithLeader_def sweep_work_def calm_tick_def Schedule_def
        Reap_def Let_def demo_claimed_def demo_row_def claim_row_def new_row_def sql_update_def due_def expired_def
        reap_row_def log_error_def unlock_def NewMaintenance_def queue_defaults_def sql_count_def)
  have "tick_ok (qs_now demo_claimed) ?x" by (simp add: tick_ok_def calm_tick_def demo_claimed_def)
  from sweep_recovers [OF demo_run this r(1)] have "list_all (\<lambda>r. \<not> expired 500 r) rows'"
    unfolding calm_tick_def tick_env.simps by blast
  moreover have "map j_state (qs_rows demo_claimed) = [StateRunning]" by (simp add: demo_claimed_def claim_row_def)
  ultimately show ?thesis using r by (intro exI [of _ rows'] conjI)
qed

subsection \<open>The listener\<close>

lemma wake_bound: "b \<le> 1 \<Longrightarrow> wake b = 1"
  by (simp add: wake_def)

lemma listen_bound: "b \<le> 1 \<Longrightarrow> listen c b \<le> 1"
proof -
  have "b \<le> 1 \<Longrightarrow> (wake ^^ n) b \<le> 1" for n by (induction n) (auto simp: wake_bound)
  then show "b \<le> 1 \<Longrightarrow> listen c b \<le> 1" by (simp add: listen_def)
qed

lemma listener_pauses:
  assumes "listener_Run d cs b = (pauses, b')" and "i < length pauses" and "d \<le> maxBackoff"
  shows "pauses ! i = min (2 ^ i * d) maxBackoff"
  using assms
proof (induction d cs b arbitrary: pauses b' i rule: listener_Run.induct)
  case (2 d c cs b)
  show ?case
  proof (cases i)
    case 0
    then show ?thesis using 2 by (auto simp: Let_def split: if_splits prod.splits)
  next
    case (Suc k)
    then obtain ps b3 where rec: "listener_Run (min (d * 2) maxBackoff) cs (wake (listen c b)) = (ps, b3)"
      and ps: "pauses = d # ps" and go: "\<not> cl_stop c" "\<not> cl_woken c"
      using 2(2,3) by (auto simp: Let_def split: if_splits prod.splits)
    then have "ps ! k = min (2 ^ k * min (d * 2) maxBackoff) maxBackoff"
      using 2(1) 2(3) Suc by (simp add: Let_def)
    also have "\<dots> = min (2 ^ Suc k * d) maxBackoff"
    proof (cases "d * 2 \<le> maxBackoff")
      case False
      have k: "maxBackoff \<le> 2 ^ k * maxBackoff" by (simp add: maxBackoff_def)
      moreover have "2 ^ k * maxBackoff \<le> 2 ^ k * (d * 2)" using False by (intro mult_left_mono) auto
      ultimately have "maxBackoff \<le> 2 ^ k * (d * 2)" by (rule order_trans)
      then have "maxBackoff \<le> 2 ^ Suc k * d" by (simp add: ac_simps)
      note this k
      then show ?thesis using False by (simp add: min_absorb2)
    qed (simp add: ac_simps)
    finally show ?thesis using ps Suc by simp
  qed
qed simp

end
