(* ===== verification/Config_Load.thy ===== *)
theory Config_Load
  imports Config "HOL-Library.List_Lexorder"
begin

text \<open>
  Loading the configuration (\<open>internal/config/load.go\<close>, \<open>flags.go\<close>): defaults, file, environment
  and flags merged in that order, unknown keys refused or reported, the convenience flags
  translated. koanf and its providers are the parameter \<open>koanf_lib\<close>: an instance maps paths to
  values, \<open>Load\<close> lays a map over it, the environment and flag providers call the transform the
  source gives them. \<open>koanf_laws\<close> states what their documentation promises. The paths themselves
  are the \<open>koanf\<close> tags of the configuration structs.
\<close>

subsection \<open>Paths\<close>

definition under :: "string \<Rightarrow> string list \<Rightarrow> string list" where
  "under prefix names = map (\<lambda>f. prefix @ ''.'' @ f) names"

definition config_paths :: "string list" where
  "config_paths =
     under ''service'' [''name'', ''instance''] @
     under ''logging'' [''level'', ''format''] @
     under ''http'' [''addr'', ''read_header_timeout'', ''read_timeout'', ''write_timeout'', ''idle_timeout'',
       ''shutdown_grace'', ''max_body_bytes'', ''trusted_proxy_hops''] @
     under ''admin'' [''addr'', ''pprof''] @
     under ''storage'' (''backend'' # under ''postgres'' [''dsn'', ''max_conns'', ''min_conns'',
       ''max_conn_lifetime'', ''max_conn_idle_time'', ''health_check_period'', ''connect_timeout'',
       ''statement_timeout'', ''idle_in_transaction_session_timeout'', ''lock_timeout'']) @
     under ''queue'' ([''workers'', ''claim_batch'', ''lease'', ''heartbeat_interval'', ''poll_interval'',
       ''reaper_interval'', ''fetch_cooldown'', ''job_timeout'', ''max_attempts''] @
       under ''backoff'' [''base'', ''max'', ''jitter''] @
       under ''retention'' [''succeeded'', ''discarded'', ''purge_interval'']) @
     under ''idempotency'' [''enabled'', ''required'', ''ttl'', ''purge_interval'', ''max_key_bytes''] @
     under ''auth'' [''mode'', ''realm'', ''clients''] @
     under ''ratelimit'' ([''enabled'', ''global_inflight'', ''key_ttl'', ''sweep_interval''] @
       under ''tiers'' (concat (map (\<lambda>t. under t [''rate'', ''burst'']) [''anonymous'', ''standard'', ''internal'']))) @
     under ''breaker'' (under ''webhook'' [''failure_rate_threshold'', ''min_throughput'', ''window'',
       ''open_duration'', ''half_open_max_calls'', ''half_open_success_threshold'']) @
     under ''webhook'' ([''url'', ''timeout''] @ under ''retry'' [''max_attempts'', ''base'', ''max'', ''budget_max_rate'']) @
     under ''observability'' (under ''metrics'' [''enabled'', ''native_histograms''] @
       under ''tracing'' [''enabled'', ''otlp_endpoint'', ''sample_ratio''])"

subsection \<open>The key index and the environment (load.go)\<close>

definition EnvPrefix :: string where "EnvPrefix = ''TASKAPI_''"

record keyIndex =
  ki_paths :: "string set"
  ki_byEnv :: "string \<rightharpoonup> string"

definition env_key :: "string \<Rightarrow> string" where
  "env_key path = map (\<lambda>c. if c = CHR ''.'' then CHR ''_'' else c) path"

definition keySet :: "string list \<Rightarrow> keyIndex" where
  "keySet keys =
     fold (\<lambda>k idx. idx\<lparr>ki_paths := insert k (ki_paths idx), ki_byEnv := (ki_byEnv idx)(env_key k \<mapsto> k)\<rparr>) keys
       \<lparr>ki_paths = {}, ki_byEnv = Map.empty\<rparr>"

text \<open>\<open>strings.ToUpper\<close> on the ASCII text of a path.\<close>

definition upper_char :: "char \<Rightarrow> char" where
  "upper_char c = (let n = (of_char c :: nat) in if 97 \<le> n \<and> n \<le> 122 then char_of (n - 32) else c)"

definition EnvName :: "string \<Rightarrow> string" where
  "EnvName path = EnvPrefix @ map upper_char (env_key path)"

definition trim_prefix :: "string \<Rightarrow> string \<Rightarrow> string" where
  "trim_prefix p s = (if starts_with p s then drop (length p) s else s)"

definition envTransform :: "keyIndex \<Rightarrow> string \<Rightarrow> string option" where
  "envTransform valid name = ki_byEnv valid (lower (trim_prefix EnvPrefix name))"

definition flagTransform :: "keyIndex \<Rightarrow> string \<Rightarrow> string option" where
  "flagTransform valid key = (if key \<in> ki_paths valid then Some key else None)"

fun join_with :: "string \<Rightarrow> string list \<Rightarrow> string" where
  "join_with sep [] = []"
| "join_with sep [x] = x"
| "join_with sep (x # y # xs) = x @ sep @ join_with sep (y # xs)"

definition checkUnknownKeys :: "string \<Rightarrow> string list \<Rightarrow> keyIndex \<Rightarrow> go_error option" where
  "checkUnknownKeys path keys valid =
     (let bad = filter (\<lambda>k. k \<notin> ki_paths valid) keys in
      if bad = [] then None
      else Some (PlainError (path @ '': unknown configuration key(s): '' @
             join_with '', '' (sort_by (<) bad))))"

subsection \<open>Flags (flags.go)\<close>

record flag =
  fl_name :: string
  fl_changed :: bool
  fl_value :: string

record flag_set =
  fs_flags :: "flag list"
  fs_set :: "string list"

definition fs_Lookup :: "flag_set \<Rightarrow> string \<Rightarrow> flag option" where
  "fs_Lookup fs name = find (\<lambda>f. fl_name f = name) (fs_flags fs)"

definition changed :: "flag_set \<Rightarrow> string \<Rightarrow> bool" where
  "changed fs name = (case fs_Lookup fs name of None \<Rightarrow> False | Some f \<Rightarrow> fl_changed f)"

definition stringArray :: "flag_set \<Rightarrow> string \<Rightarrow> string list" where
  "stringArray fs name = (case fs_Lookup fs name of None \<Rightarrow> [] | Some f \<Rightarrow> fs_set fs)"

fun setOverrides :: "string list \<Rightarrow> keyIndex \<Rightarrow> (string \<rightharpoonup> string) \<Rightarrow> (string \<rightharpoonup> string) result" where
  "setOverrides [] valid out = Inr out"
| "setOverrides (kv # kvs) valid out =
     (case cut (CHR ''='') kv of
        (key, v, ok) \<Rightarrow>
          if \<not> ok then Inl (PlainError (''--set '' @ go_quote kv @ '': expected key=value''))
          else if trim_space key \<notin> ki_paths valid then
            Inl (PlainError (''--set '' @ trim_space key @ '': unknown configuration key''))
          else setOverrides kvs valid (out(trim_space key \<mapsto> v)))"

definition levelOverride :: "flag_set \<Rightarrow> string \<rightharpoonup> string" where
  "levelOverride fs =
     (if changed fs ''logging.level'' then Map.empty
      else if changed fs ''trace'' then [''logging.level'' \<mapsto> ''trace'']
      else if changed fs ''debug'' then [''logging.level'' \<mapsto> ''debug'']
      else Map.empty)"

definition flagOverrides :: "flag_set \<Rightarrow> keyIndex \<Rightarrow> (string \<rightharpoonup> string) result" where
  "flagOverrides fs valid = setOverrides (stringArray fs ''set'') valid (levelOverride fs)"

subsection \<open>The merge (load.go)\<close>

record ('k, 'v) koanf_lib =
  kl_new :: 'k
  kl_Load :: "'k \<Rightarrow> (string \<rightharpoonup> 'v) \<Rightarrow> 'k result"
  kl_Get :: "'k \<Rightarrow> string \<rightharpoonup> 'v"
  kl_Keys :: "'k \<Rightarrow> string list"
  kl_structs :: "config \<Rightarrow> string \<rightharpoonup> 'v"
  kl_env :: "(string \<times> string) list \<Rightarrow> string \<Rightarrow> (string \<Rightarrow> string option) \<Rightarrow> string \<rightharpoonup> 'v"
  kl_posflag :: "flag list \<Rightarrow> (string \<Rightarrow> bool) \<Rightarrow> (string \<Rightarrow> string option) \<Rightarrow> string \<rightharpoonup> 'v"
  kl_string :: "string \<Rightarrow> 'v"
  kl_Unmarshal :: "'k \<Rightarrow> config \<Rightarrow> config result"

text \<open>What a load reads: the files that exist, what the YAML parser makes of them, the environment.\<close>

record 'v load_options =
  lo_File :: string
  lo_Flags :: "flag_set option"
  lo_Environ :: "(string \<times> string) list"
  lo_Overrides :: "string \<rightharpoonup> 'v"
  lo_hostname :: "string option"
  lo_stat :: "string \<Rightarrow> go_error option"
  lo_yaml :: "string \<Rightarrow> (string \<rightharpoonup> 'v) result"

record load_result =
  ld_Config :: config
  ld_File :: string
  ld_Warnings :: "string list"

abbreviation on_error :: "'a result \<Rightarrow> string \<Rightarrow> 'a result" where
  "on_error r prefix \<equiv> (case r of Inl e \<Rightarrow> Inl (WrapError prefix e) | Inr a \<Rightarrow> Inr a)"

definition loadDefaults :: "('k, 'v) koanf_lib \<Rightarrow> string option \<Rightarrow> 'k \<Rightarrow> 'k result" where
  "loadDefaults L hn k = on_error (kl_Load L k (kl_structs L (Defaults hn))) ''load defaults: ''"

definition resolveFile :: "(string \<Rightarrow> go_error option) \<Rightarrow> string \<Rightarrow> string result" where
  "resolveFile stat explicit =
     (if explicit \<noteq> [] then
        (case stat explicit of
           Some e \<Rightarrow> Inl (WrapError (''config file '' @ explicit @ '': '') e)
         | None \<Rightarrow> Inr explicit)
      else if stat ''config.yaml'' = None then Inr ''config.yaml''
      else Inr [])"

definition loadFile ::
  "('k, 'v) koanf_lib \<Rightarrow> 'v load_options \<Rightarrow> keyIndex \<Rightarrow> 'k \<Rightarrow> (string \<times> 'k) result" where
  "loadFile L o' valid k =
     (case resolveFile (lo_stat o') (lo_File o') of
        Inl e \<Rightarrow> Inl e
      | Inr path \<Rightarrow>
          if path = [] then Inr ([], k)
          else
            (case (case lo_yaml o' path of Inl e \<Rightarrow> Inl e | Inr m \<Rightarrow> kl_Load L (kl_new L) m) of
               Inl e \<Rightarrow> Inl (WrapError (''read config '' @ path @ '': '') e)
             | Inr fileK \<Rightarrow>
                 (case checkUnknownKeys path (kl_Keys L fileK) valid of
                    Some e \<Rightarrow> Inl e
                  | None \<Rightarrow>
                      (case kl_Load L k (kl_Get L fileK) of
                         Inl e \<Rightarrow> Inl (WrapError (''merge config '' @ path @ '': '') e)
                       | Inr k' \<Rightarrow> Inr (path, k')))))"

definition unknownEnv :: "keyIndex \<Rightarrow> (string \<times> string) list \<Rightarrow> string list" where
  "unknownEnv valid environ =
     remdups (map fst (filter (\<lambda>(n, v). starts_with EnvPrefix n \<and> envTransform valid n = None) environ))"

definition loadEnv ::
  "('k, 'v) koanf_lib \<Rightarrow> keyIndex \<Rightarrow> (string \<times> string) list \<Rightarrow> 'k \<Rightarrow> (string list \<times> 'k) result" where
  "loadEnv L valid environ k =
     (case kl_Load L k (kl_env L environ EnvPrefix (envTransform valid)) of
        Inl e \<Rightarrow> Inl (WrapError ''load environment: '' e)
      | Inr k' \<Rightarrow>
          Inr (sort_by (<) (map (\<lambda>n. ''environment variable '' @ n @ '' matches no configuration key and was ignored'')
                 (unknownEnv valid environ)), k'))"

definition loadFlags ::
  "('k, 'v) koanf_lib \<Rightarrow> flag_set option \<Rightarrow> keyIndex \<Rightarrow> 'k \<Rightarrow> 'k result" where
  "loadFlags L fso valid k =
     (case fso of
        None \<Rightarrow> Inr k
      | Some fs \<Rightarrow>
          (case kl_Load L k (kl_posflag L (fs_flags fs) (\<lambda>p. kl_Get L k p \<noteq> None) (flagTransform valid)) of
             Inl e \<Rightarrow> Inl (WrapError ''load flags: '' e)
           | Inr k1 \<Rightarrow>
               (case flagOverrides fs valid of
                  Inl e \<Rightarrow> Inl e
                | Inr m \<Rightarrow>
                    if m = Map.empty then Inr k1
                    else on_error (kl_Load L k1 (\<lambda>p. map_option (kl_string L) (m p))) ''apply flag overrides: '')))"

definition loadOverrides :: "('k, 'v) koanf_lib \<Rightarrow> (string \<rightharpoonup> 'v) \<Rightarrow> 'k \<Rightarrow> 'k result" where
  "loadOverrides L m k =
     (if m = Map.empty then Inr k else on_error (kl_Load L k m) ''apply overrides: '')"

definition unmarshal :: "('k, 'v) koanf_lib \<Rightarrow> 'k \<Rightarrow> config \<Rightarrow> config result" where
  "unmarshal L k cfg = on_error (kl_Unmarshal L k cfg) ''decode configuration: ''"

text \<open>The merged instance before it is decoded, and the whole load.\<close>

definition merge_layers ::
  "('k, 'v) koanf_lib \<Rightarrow> 'v load_options \<Rightarrow> (string \<times> string list \<times> 'k) result" where
  "merge_layers L o' =
     (case loadDefaults L (lo_hostname o') (kl_new L) of
        Inl e \<Rightarrow> Inl e
      | Inr k0 \<Rightarrow>
          (let valid = keySet (kl_Keys L k0) in
           case loadFile L o' valid k0 of
             Inl e \<Rightarrow> Inl e
           | Inr (file, k1) \<Rightarrow>
               (case loadEnv L valid (lo_Environ o') k1 of
                  Inl e \<Rightarrow> Inl e
                | Inr (warnings, k2) \<Rightarrow>
                    (case loadFlags L (lo_Flags o') valid k2 of
                       Inl e \<Rightarrow> Inl e
                     | Inr k3 \<Rightarrow>
                         (case loadOverrides L (lo_Overrides o') k3 of
                            Inl e \<Rightarrow> Inl e
                          | Inr k4 \<Rightarrow> Inr (file, warnings, k4))))))"

definition config_Load :: "('k, 'v) koanf_lib \<Rightarrow> 'v load_options \<Rightarrow> load_result result" where
  "config_Load L o' =
     (case merge_layers L o' of
        Inl e \<Rightarrow> Inl e
      | Inr (file, warnings, k) \<Rightarrow>
          (case unmarshal L k (Defaults (lo_hostname o')) of
             Inl e \<Rightarrow> Inl e
           | Inr cfg \<Rightarrow> Inr \<lparr>ld_Config = cfg, ld_File = file, ld_Warnings = warnings\<rparr>))"

subsection \<open>Spelling\<close>

text \<open>The environment spelling of a path is a spelling of no other path.\<close>

lemma env_keys_distinct: "distinct (map env_key config_paths)"
  by code_simp

lemma inj_env_key: "inj_on env_key (set config_paths)"
  using env_keys_distinct by (simp add: distinct_map)

lemma keySet_snoc:
  "keySet (ks @ [k]) = (keySet ks)\<lparr>ki_paths := insert k (ki_paths (keySet ks)),
     ki_byEnv := (ki_byEnv (keySet ks))(env_key k \<mapsto> k)\<rparr>"
  by (simp add: keySet_def)

lemma keySet_Nil: "keySet [] = \<lparr>ki_paths = {}, ki_byEnv = Map.empty\<rparr>"
  by (simp add: keySet_def)

lemma keySet_paths [simp]: "ki_paths (keySet keys) = set keys"
  by (induction keys rule: rev_induct) (simp_all add: keySet_snoc keySet_Nil)

lemma keySet_byEnv:
  assumes "inj_on env_key (set keys)"
  shows "ki_byEnv (keySet keys) e = Some p \<longleftrightarrow> p \<in> set keys \<and> env_key p = e"
  using assms
proof (induction keys rule: rev_induct)
  case Nil
  then show ?case by (simp add: keySet_Nil)
next
  case (snoc k ks)
  then have "inj_on env_key (set ks)" and "\<forall>q \<in> set ks. env_key q = env_key k \<longrightarrow> q = k"
    by (auto simp: inj_on_def)
  with snoc.IH show ?case by (auto simp: keySet_snoc)
qed

lemma keySet_order: "set keys = set config_paths \<Longrightarrow> keySet keys = keySet config_paths"
proof -
  assume s: "set keys = set config_paths"
  have i: "inj_on env_key (set keys)" unfolding s by (rule inj_env_key)
  have "ki_byEnv (keySet keys) e = Some p \<longleftrightarrow> ki_byEnv (keySet config_paths) e = Some p" for e p
    by (simp only: keySet_byEnv [OF i] keySet_byEnv [OF inj_env_key] s)
  then have "ki_byEnv (keySet keys) e = ki_byEnv (keySet config_paths) e" for e
    by (metis (no_types) not_Some_eq)
  then show ?thesis using s by (intro keyIndex.equality ext) simp_all
qed

text \<open>Paths are lower case, so the upper-case name gives the path back.\<close>

definition env_char :: "char \<Rightarrow> char" where
  "env_char c = (if c = CHR ''.'' then CHR ''_'' else c)"

definition folds_back :: "char \<Rightarrow> bool" where
  "folds_back c \<longleftrightarrow> lower_char (upper_char (env_char c)) = env_char c"

lemma letters_fold_back: "list_all folds_back ''abcdefghijklmnopqrstuvwxyz_.''"
  by code_simp

lemmas folds_back_simps = letters_fold_back [simplified]

lemma list_all_under:
  "list_all (list_all folds_back) (under s xs) \<longleftrightarrow> list_all (\<lambda>x. list_all folds_back s \<and> list_all folds_back x) xs"
  using folds_back_simps by (simp add: under_def list_all_iff ball_Un)

lemma paths_fold_back: "list_all (list_all folds_back) config_paths"
  by (simp add: config_paths_def list_all_under folds_back_simps)

lemma lower_paths: "p \<in> set config_paths \<Longrightarrow> lower (map upper_char (env_key p)) = env_key p"
  using paths_fold_back by (auto simp: list_all_iff folds_back_def lower_def env_key_def env_char_def)

lemma envTransform_EnvName:
  assumes "p \<in> set config_paths"
  shows "envTransform (keySet config_paths) (EnvName p) = Some p"
proof -
  show ?thesis using assms lower_paths [OF assms]
    by (simp add: envTransform_def EnvName_def trim_prefix_def starts_with_def keySet_byEnv [OF inj_env_key])
qed

subsection \<open>What koanf promises\<close>

text \<open>
  A later entry of a list of assignments wins, as it does in a Go map.
\<close>

definition last_assoc :: "('a \<times> 'b) list \<Rightarrow> 'a \<rightharpoonup> 'b" where
  "last_assoc xs = map_of (rev xs)"

text \<open>
  \<open>Load\<close> lays the loaded values over the instance's, key by key; a struct's keys are its tagged
  paths; the environment provider takes the variables under the prefix and stores those the
  transform names; the flag provider stores the flags the transform keeps, leaving out those the
  user did not set when the instance already has the path. The overlay is promised for maps of
  leaf paths only: a value loaded over a section would replace the section.
\<close>

definition koanf_laws :: "('k, 'v) koanf_lib \<Rightarrow> bool" where
  "koanf_laws L \<longleftrightarrow>
     (\<forall>m k. kl_Load L (kl_new L) m = Inr k \<longrightarrow> kl_Get L k = m) \<and>
     (\<forall>k m k'. kl_Load L k m = Inr k' \<and> dom (kl_Get L k) \<subseteq> set config_paths \<and> dom m \<subseteq> set config_paths \<longrightarrow>
        kl_Get L k' = kl_Get L k ++ m) \<and>
     (\<forall>k. set (kl_Keys L k) = dom (kl_Get L k)) \<and>
     (\<forall>c. dom (kl_structs L c) = set config_paths) \<and>
     (\<forall>environ prefix T. kl_env L environ prefix T =
        (\<lambda>p. map_option (kl_string L) (last_assoc (List.map_filter
          (\<lambda>(n, v). if starts_with prefix n then map_option (\<lambda>q. (q, v)) (T n) else None) environ) p))) \<and>
     (\<forall>flags ex T. kl_posflag L flags ex T =
        (\<lambda>p. map_option (kl_string L) (last_assoc (List.map_filter
          (\<lambda>f. case T (fl_name f) of None \<Rightarrow> None
               | Some q \<Rightarrow> if \<not> fl_changed f \<and> ex q then None else Some (q, fl_value f)) flags) p)))"

subsection \<open>Precedence\<close>

text \<open>What each layer says of a path, without reference to the library.\<close>

definition texts :: "('k, 'v) koanf_lib \<Rightarrow> (string \<rightharpoonup> string) \<Rightarrow> string \<rightharpoonup> 'v" where
  "texts L m p = map_option (kl_string L) (m p)"

definition file_layer :: "'v load_options \<Rightarrow> string \<rightharpoonup> 'v" where
  "file_layer o' =
     (case resolveFile (lo_stat o') (lo_File o') of
        Inl e \<Rightarrow> Map.empty
      | Inr path \<Rightarrow> if path = [] then Map.empty else (case lo_yaml o' path of Inl e \<Rightarrow> Map.empty | Inr m \<Rightarrow> m))"

definition env_layer :: "(string \<times> string) list \<Rightarrow> string \<rightharpoonup> string" where
  "env_layer environ = last_assoc (List.map_filter
     (\<lambda>(n, v). if starts_with EnvPrefix n then map_option (\<lambda>q. (q, v)) (envTransform (keySet config_paths) n) else None)
     environ)"

definition flag_layer :: "flag_set option \<Rightarrow> string \<rightharpoonup> string" where
  "flag_layer fso =
     (case fso of
        None \<Rightarrow> Map.empty
      | Some fs \<Rightarrow> last_assoc (map (\<lambda>f. (fl_name f, fl_value f))
          (filter (\<lambda>f. fl_changed f \<and> fl_name f \<in> set config_paths) (fs_flags fs))))"

definition shorthand_layer :: "flag_set option \<Rightarrow> string \<rightharpoonup> string" where
  "shorthand_layer fso =
     (case fso of
        None \<Rightarrow> Map.empty
      | Some fs \<Rightarrow> (case flagOverrides fs (keySet config_paths) of Inl e \<Rightarrow> Map.empty | Inr m \<Rightarrow> m))"

lemma last_assoc_dom: "dom (last_assoc xs) = fst ` set xs"
  by (simp add: last_assoc_def dom_map_of_conv_image_fst)

lemma env_layer_dom: "dom (env_layer environ) \<subseteq> set config_paths"
  unfolding env_layer_def last_assoc_dom
  by (auto simp: map_filter_def envTransform_def keySet_byEnv [OF inj_env_key] split: if_splits)

lemma flag_layer_dom: "dom (flag_layer fso) \<subseteq> set config_paths"
  by (cases fso) (auto simp: flag_layer_def last_assoc_dom)

lemma setOverrides_dom:
  "setOverrides kvs valid out = Inr m \<Longrightarrow> dom out \<subseteq> ki_paths valid \<Longrightarrow> dom m \<subseteq> ki_paths valid"
proof (induction kvs arbitrary: out)
  case (Cons kv kvs)
  obtain key v ok where "cut (CHR ''='') kv = (key, v, ok)" by (metis prod.exhaust)
  then have known: "trim_space key \<in> ki_paths valid" and rest: "setOverrides kvs valid (out(trim_space key \<mapsto> v)) = Inr m"
    using Cons.prems(1) by (auto split: if_splits)
  show ?case by (rule Cons.IH [OF rest]) (use known Cons.prems(2) in \<open>auto simp: subset_iff domIff\<close>)
qed simp

lemma level_path: "''logging.level'' \<in> set config_paths"
  by (simp add: config_paths_def under_def)

lemma levelOverride_dom: "dom (levelOverride fs) \<subseteq> set config_paths"
  using level_path by (auto simp: levelOverride_def split: if_splits)

lemma shorthand_dom: "flagOverrides fs (keySet config_paths) = Inr m \<Longrightarrow> dom m \<subseteq> set config_paths"
  using setOverrides_dom [of _ "keySet config_paths"] levelOverride_dom by (auto simp: flagOverrides_def)

lemma dom_texts [simp]: "dom (texts L m) = dom m"
  by (auto simp: texts_def dom_def)

text \<open>Each layer of the source lays its own map over the instance.\<close>

definition holds_paths :: "('k, 'v) koanf_lib \<Rightarrow> 'k \<Rightarrow> bool" where
  "holds_paths L k \<longleftrightarrow> dom (kl_Get L k) = set config_paths"

lemma overlay:
  assumes "koanf_laws L" and "kl_Load L k m = Inr k'" and "holds_paths L k" and "dom m \<subseteq> set config_paths"
  shows "kl_Get L k' = kl_Get L k ++ m \<and> holds_paths L k'"
proof -
  have "kl_Get L k' = kl_Get L k ++ m" using assms unfolding koanf_laws_def holds_paths_def by blast
  then show ?thesis using assms(3,4) by (auto simp: holds_paths_def)
qed

lemma loadDefaults_layer:
  assumes "koanf_laws L" and "loadDefaults L hn (kl_new L) = Inr k"
  shows "kl_Get L k = kl_structs L (Defaults hn) \<and> holds_paths L k \<and> keySet (kl_Keys L k) = keySet config_paths"
proof -
  have "kl_Get L k = kl_structs L (Defaults hn)"
    using assms unfolding koanf_laws_def loadDefaults_def by (auto split: sum.splits)
  moreover have "dom (kl_structs L (Defaults hn)) = set config_paths" and "set (kl_Keys L k) = dom (kl_Get L k)"
    using assms(1) unfolding koanf_laws_def by blast+
  ultimately show ?thesis using keySet_order [of "kl_Keys L k"] by (simp add: holds_paths_def)
qed

lemma loadFile_layer:
  assumes "koanf_laws L" and "loadFile L o' (keySet config_paths) k = Inr (file, k')" and "holds_paths L k"
  shows "kl_Get L k' = kl_Get L k ++ file_layer o' \<and> holds_paths L k'"
proof -
  obtain path where p: "resolveFile (lo_stat o') (lo_File o') = Inr path"
    using assms(2) by (auto simp: loadFile_def split: sum.splits)
  show ?thesis
  proof (cases "path = []")
    case True
    then show ?thesis using assms p by (auto simp: loadFile_def file_layer_def)
  next
    case False
    then obtain m fileK where m: "lo_yaml o' path = Inr m" "kl_Load L (kl_new L) m = Inr fileK"
      and known: "checkUnknownKeys path (kl_Keys L fileK) (keySet config_paths) = None"
      and k': "kl_Load L k (kl_Get L fileK) = Inr k'"
      using assms(2) p by (auto simp: loadFile_def split: sum.splits option.splits)
    have get: "kl_Get L fileK = m" and keys: "set (kl_Keys L fileK) = dom (kl_Get L fileK)"
      using assms(1) m(2) unfolding koanf_laws_def by blast+
    have "dom m \<subseteq> set config_paths"
      using known keys get by (auto simp: checkUnknownKeys_def Let_def filter_empty_conv split: if_splits)
    then show ?thesis using overlay [OF assms(1) k' assms(3)] get p m False by (simp add: file_layer_def)
  qed
qed

lemma loadEnv_layer:
  assumes "koanf_laws L" and "loadEnv L (keySet config_paths) environ k = Inr (ws, k')" and "holds_paths L k"
  shows "kl_Get L k' = kl_Get L k ++ texts L (env_layer environ) \<and> holds_paths L k'"
proof -
  have "kl_env L environ EnvPrefix (envTransform (keySet config_paths)) = texts L (env_layer environ)"
    using assms(1) unfolding koanf_laws_def env_layer_def by (auto simp: texts_def fun_eq_iff)
  then have "kl_Load L k (texts L (env_layer environ)) = Inr k'"
    using assms(2) by (auto simp: loadEnv_def split: sum.splits)
  then show ?thesis using overlay [OF assms(1) _ assms(3)] env_layer_dom by simp
qed

lemma loadFlags_layer:
  assumes "koanf_laws L" and "loadFlags L fso (keySet config_paths) k = Inr k'" and "holds_paths L k"
  shows "kl_Get L k' = kl_Get L k ++ texts L (flag_layer fso) ++ texts L (shorthand_layer fso) \<and> holds_paths L k'"
proof (cases fso)
  case None
  then show ?thesis using assms(2,3) by (simp add: loadFlags_def flag_layer_def shorthand_layer_def texts_def map_add_def)
next
  case (Some fs)
  let ?T = "flagTransform (keySet config_paths)" and ?ex = "\<lambda>p. kl_Get L k p \<noteq> None"
  have ex: "?ex p" if "p \<in> set config_paths" for p
    using assms(3) that by (auto simp: holds_paths_def)
  have kept: "List.map_filter (\<lambda>f. case ?T (fl_name f) of None \<Rightarrow> None
      | Some q \<Rightarrow> if \<not> fl_changed f \<and> ?ex q then None else Some (q, fl_value f)) fl =
      map (\<lambda>f. (fl_name f, fl_value f)) (filter (\<lambda>f. fl_changed f \<and> fl_name f \<in> set config_paths) fl)" for fl
    using ex by (induction fl) (auto simp: flagTransform_def)
  have pos: "kl_posflag L (fs_flags fs) ?ex ?T = texts L (flag_layer fso)"
    unfolding texts_def flag_layer_def Some option.case kept [symmetric]
    using assms(1) unfolding koanf_laws_def by blast
  obtain k1 m where k1: "kl_Load L k (texts L (flag_layer fso)) = Inr k1"
    and m: "flagOverrides fs (keySet config_paths) = Inr m"
    and k': "if m = Map.empty then k' = k1 else kl_Load L k1 (\<lambda>p. map_option (kl_string L) (m p)) = Inr k'"
    using assms(2) Some pos by (auto simp: loadFlags_def split: sum.splits if_splits)
  have g1: "kl_Get L k1 = kl_Get L k ++ texts L (flag_layer fso) \<and> holds_paths L k1"
    using overlay [OF assms(1) k1 assms(3)] flag_layer_dom by simp
  have short: "shorthand_layer fso = m" using Some m by (simp add: shorthand_layer_def)
  show ?thesis
  proof (cases "m = Map.empty")
    case True
    then show ?thesis using g1 k' short by (simp add: texts_def map_add_def)
  next
    case False
    moreover have "texts L m = (\<lambda>p. map_option (kl_string L) (m p))" by (simp add: texts_def fun_eq_iff)
    ultimately have "kl_Load L k1 (texts L m) = Inr k'" using k' by simp
    then show ?thesis using overlay [OF assms(1) _ conjunct2 [OF g1]] shorthand_dom [OF m] g1 short by simp
  qed
qed

text \<open>
  C26: The configuration the program runs with is decided by the documented order. When loading succeeds, what is decoded holds, for every configuration path, the value of the strongest layer that names it: --set and the level shorthands over a flag the user set, that over the environment, that over the file, that over the built-in default; a flag left at its default never overrides anything; and the environment variable of a path, in its documented spelling, is read as that path and no other.\<close>
theorem config_precedence:
  assumes "koanf_laws L" and "config_Load L o' = Inr res" and "lo_Overrides o' = Map.empty"
  shows "(\<exists>k. kl_Unmarshal L k (Defaults (lo_hostname o')) = Inr (ld_Config res) \<and>
      kl_Get L k = kl_structs L (Defaults (lo_hostname o')) ++ file_layer o' ++ texts L (env_layer (lo_Environ o')) ++
        texts L (flag_layer (lo_Flags o')) ++ texts L (shorthand_layer (lo_Flags o'))) \<and>
    (\<forall>p \<in> set config_paths. \<forall>v. env_layer [(EnvName p, v)] = [p \<mapsto> v])"
proof -
  obtain fname ws k where m: "merge_layers L o' = Inr (fname, ws, k)"
    and u: "kl_Unmarshal L k (Defaults (lo_hostname o')) = Inr (ld_Config res)"
    using assms(2) by (auto simp: config_Load_def unmarshal_def split: sum.splits)
  obtain k0 where k0: "loadDefaults L (lo_hostname o') (kl_new L) = Inr k0"
    using m by (auto simp: merge_layers_def split: sum.splits)
  from loadDefaults_layer [OF assms(1) k0]
  have g0: "kl_Get L k0 = kl_structs L (Defaults (lo_hostname o'))" "holds_paths L k0"
    "keySet (kl_Keys L k0) = keySet config_paths" by auto
  obtain k1 k2 where k1: "loadFile L o' (keySet config_paths) k0 = Inr (fname, k1)"
    and k2: "loadEnv L (keySet config_paths) (lo_Environ o') k1 = Inr (ws, k2)"
    and k3: "loadFlags L (lo_Flags o') (keySet config_paths) k2 = Inr k"
    using m k0 g0(3) assms(3) by (auto simp: merge_layers_def Let_def loadOverrides_def split: sum.splits)
  from loadFile_layer [OF assms(1) k1 g0(2)] have g1: "kl_Get L k1 = kl_Get L k0 ++ file_layer o'" "holds_paths L k1"
    by auto
  from loadEnv_layer [OF assms(1) k2 g1(2)] have g2: "kl_Get L k2 = kl_Get L k1 ++ texts L (env_layer (lo_Environ o'))"
    "holds_paths L k2" by auto
  from loadFlags_layer [OF assms(1) k3 g2(2)] g0 g1 g2
  have "kl_Get L k = kl_structs L (Defaults (lo_hostname o')) ++ file_layer o' ++ texts L (env_layer (lo_Environ o')) ++
      texts L (flag_layer (lo_Flags o')) ++ texts L (shorthand_layer (lo_Flags o'))" by simp
  moreover have "env_layer [(EnvName p, v)] = [p \<mapsto> v]" if "p \<in> set config_paths" for p v
    using envTransform_EnvName [OF that]
    by (simp add: env_layer_def EnvName_def starts_with_def last_assoc_def fun_eq_iff)
  ultimately show ?thesis using u by blast
qed

text \<open>A koanf that keeps its laws: an association list over the paths, refusing any other key.\<close>

definition path_list :: "(string \<rightharpoonup> 'v) \<Rightarrow> (string \<times> 'v) list" where
  "path_list m = List.map_filter (\<lambda>p. map_option (\<lambda>v. (p, v)) (m p)) config_paths"

definition list_koanf ::
  "(string \<Rightarrow> 'v) \<Rightarrow> (config \<Rightarrow> string \<rightharpoonup> 'v) \<Rightarrow> ((string \<times> 'v) list \<Rightarrow> config \<Rightarrow> config result) \<Rightarrow>
   ((string \<times> 'v) list, 'v) koanf_lib" where
  "list_koanf str structs decode =
     \<lparr>kl_new = [],
      kl_Load = (\<lambda>k m. if dom m \<subseteq> set config_paths then Inr (path_list m @ k) else Inl (PlainError ''unknown key'')),
      kl_Get = map_of, kl_Keys = map fst, kl_structs = structs,
      kl_env = (\<lambda>environ prefix T p. map_option str (last_assoc (List.map_filter
        (\<lambda>(n, v). if starts_with prefix n then map_option (\<lambda>q. (q, v)) (T n) else None) environ) p)),
      kl_posflag = (\<lambda>flags ex T p. map_option str (last_assoc (List.map_filter
        (\<lambda>f. case T (fl_name f) of None \<Rightarrow> None
             | Some q \<Rightarrow> if \<not> fl_changed f \<and> ex q then None else Some (q, fl_value f)) flags) p)),
      kl_string = str, kl_Unmarshal = decode\<rparr>"

definition demo_koanf :: "((string \<times> string) list, string) koanf_lib" where
  "demo_koanf = list_koanf (\<lambda>s. s) (\<lambda>c p. if p \<in> set config_paths then Some ''default'' else None) (\<lambda>k c. Inr c)"

lemma map_of_path_list:
  assumes "dom m \<subseteq> set config_paths"
  shows "map_of (path_list m) = m"
proof
  fix p
  have "map_of (List.map_filter (\<lambda>p. map_option (\<lambda>v. (p, v)) (m p)) ps) p = (if p \<in> set ps then m p else None)" for ps
    by (induction ps) (auto split: option.splits)
  moreover have "m p = None" if "p \<notin> set config_paths" using that assms by (cases "m p") auto
  ultimately show "map_of (path_list m) p = m p" by (simp add: path_list_def)
qed

lemma list_koanf_laws:
  assumes "\<And>c. dom (structs c) = set config_paths"
  shows "koanf_laws (list_koanf str structs decode)"
  using assms by (auto simp: koanf_laws_def list_koanf_def map_of_path_list dom_map_of_conv_image_fst split: if_splits)

lemma demo_koanf_laws: "koanf_laws demo_koanf"
  unfolding demo_koanf_def by (rule list_koanf_laws) (auto split: if_splits)

definition demo_load :: "string load_options" where
  "demo_load = \<lparr>lo_File = [], lo_Flags = None, lo_Environ = [(EnvName ''http.addr'', '':9'')], lo_Overrides = Map.empty,
     lo_hostname = None, lo_stat = (\<lambda>_. Some (PlainError ''no such file'')), lo_yaml = (\<lambda>_. Inr Map.empty)\<rparr>"

text \<open>Without a file, flags or overrides the merge only adds the environment.\<close>

lemma list_koanf_merge:
  assumes "\<And>c. dom (structs c) = set config_paths" and "L = list_koanf str structs decode"
    and "lo_File o' = []" and "lo_stat o' ''config.yaml'' \<noteq> None" and "lo_Flags o' = None"
    and "lo_Overrides o' = Map.empty"
  shows "\<exists>ws. merge_layers L o' = Inr ([], ws, path_list (texts L (env_layer (lo_Environ o'))) @
    path_list (structs (Defaults (lo_hostname o'))))"
proof -
  let ?k = "path_list (structs (Defaults (lo_hostname o')))"
  have laws: "koanf_laws L" unfolding assms(2) by (rule list_koanf_laws [OF assms(1)])
  have d: "loadDefaults L (lo_hostname o') (kl_new L) = Inr ?k"
    by (simp add: loadDefaults_def assms(2) list_koanf_def assms(1))
  have "keySet (kl_Keys L ?k) = keySet config_paths" using loadDefaults_layer [OF laws d] by blast
  moreover have "kl_env L environ EnvPrefix (envTransform (keySet config_paths)) = texts L (env_layer environ)" for environ
    by (simp add: assms(2) list_koanf_def env_layer_def texts_def fun_eq_iff)
  moreover have "kl_Load L k' (texts L (env_layer environ)) = Inr (path_list (texts L (env_layer environ)) @ k')" for k' environ
  proof -
    have "dom (texts L (env_layer environ)) \<subseteq> set config_paths" by (simp add: env_layer_dom)
    then show ?thesis unfolding assms(2) by (simp add: list_koanf_def)
  qed
  ultimately show ?thesis using d assms(3-6)
    by (auto simp: merge_layers_def Let_def loadFile_def loadEnv_def loadFlags_def loadOverrides_def resolveFile_def)
qed

lemma demo_load_works: "\<exists>res. config_Load demo_koanf demo_load = Inr res"
proof -
  have "dom (\<lambda>p. if p \<in> set config_paths then Some ''default'' else None) = set config_paths" by (auto split: if_splits)
  from list_koanf_merge [OF this demo_koanf_def, of demo_load] obtain ws k where
    "merge_layers demo_koanf demo_load = Inr ([], ws, k)" by (auto simp: demo_load_def)
  then show ?thesis by (simp add: config_Load_def unmarshal_def) (simp add: demo_koanf_def list_koanf_def)
qed

theorem config_precedence_witness:
  "\<exists>res k. config_Load demo_koanf demo_load = Inr res \<and>
     kl_Get demo_koanf k ''http.addr'' = Some '':9'' \<and> kl_Get demo_koanf k ''admin.addr'' = Some ''default''"
proof -
  obtain res where res: "config_Load demo_koanf demo_load = Inr res" using demo_load_works by blast
  have paths: "''http.addr'' \<in> set config_paths" "''admin.addr'' \<in> set config_paths"
    by (simp_all add: config_paths_def under_def)
  have "lo_Overrides demo_load = Map.empty" by (simp add: demo_load_def)
  from config_precedence [OF demo_koanf_laws res this] obtain k where
    k: "kl_Get demo_koanf k = kl_structs demo_koanf (Defaults (lo_hostname demo_load)) ++ file_layer demo_load ++
      texts demo_koanf (env_layer (lo_Environ demo_load)) ++ texts demo_koanf (flag_layer (lo_Flags demo_load)) ++
      texts demo_koanf (shorthand_layer (lo_Flags demo_load))"
    and e: "env_layer [(EnvName ''http.addr'', '':9'')] = [''http.addr'' \<mapsto> '':9'']"
    using paths(1) by blast
  have "kl_Get demo_koanf k ''http.addr'' = Some '':9'' \<and> kl_Get demo_koanf k ''admin.addr'' = Some ''default''"
    unfolding k using paths e
    by (simp add: demo_load_def texts_def map_add_def flag_layer_def shorthand_layer_def file_layer_def
        resolveFile_def demo_koanf_def list_koanf_def)
  then show ?thesis using res by blast
qed

end
