(* ===== verification/Reload.thy ===== *)
theory Reload
  imports Config_Load Logging
begin

text \<open>
  Changing the configuration of a running process: what a SIGHUP may change, the difference of two
  configurations and the merge of the hot fields (\<open>internal/config/reload.go\<close>), and the reload
  itself (\<open>internal/app/reload.go\<close>). The flattened form of a configuration is koanf's, a map from
  paths to values; values are durations, strings, or others, which \<open>fmt.Sprintf\<close> renders.
\<close>

subsection \<open>Hot paths and differences (config/reload.go)\<close>

definition hotPrefixes :: "string list" where
  "hotPrefixes = [''logging.level'', ''queue.workers'', ''queue.claim_batch'', ''queue.poll_interval'',
     ''queue.reaper_interval'', ''queue.fetch_cooldown'', ''queue.job_timeout'', ''queue.max_attempts'',
     ''queue.backoff'', ''queue.retention'', ''ratelimit'', ''breaker'', ''webhook.timeout'', ''webhook.retry'',
     ''auth.mode'', ''auth.clients'']"

definition IsHot :: "string \<Rightarrow> bool" where
  "IsHot path \<longleftrightarrow> list_ex (\<lambda>p. path = p \<or> starts_with (p @ ''.'') path) hotPrefixes"

record change =
  cg_Field :: string
  cg_From :: string
  cg_To :: string
  cg_Hot :: bool

definition change_string :: "change \<Rightarrow> string" where
  "change_string c = cg_Field c @ '' from='' @ cg_From c @ '' to='' @ cg_To c"

datatype 'v flat_value = VDuration duration | VString string | VOther 'v

definition render :: "('v \<Rightarrow> string) \<Rightarrow> 'v flat_value option \<Rightarrow> string" where
  "render sprint v =
     (case v of
        None \<Rightarrow> ''<unset>''
      | Some (VDuration d) \<Rightarrow> duration_string d
      | Some (VString s) \<Rightarrow> s
      | Some (VOther x) \<Rightarrow> sprint x)"

definition flatten :: "('k, 'v flat_value) koanf_lib \<Rightarrow> config \<Rightarrow> (string \<times> 'v flat_value) list result" where
  "flatten L c =
     (case kl_Load L (kl_new L) (kl_structs L c) of
        Inl e \<Rightarrow> Inl (WrapError ''flatten config: '' e)
      | Inr k \<Rightarrow> Inr (List.map_filter (\<lambda>p. map_option (Pair p) (kl_Get L k p)) (kl_Keys L k)))"

definition change_of ::
  "('v \<Rightarrow> string) \<Rightarrow> (string \<times> 'v flat_value) list \<Rightarrow> (string \<times> 'v flat_value) list \<Rightarrow> string \<Rightarrow> change" where
  "change_of sprint old new k =
     \<lparr>cg_Field = k, cg_From = render sprint (map_of old k), cg_To = render sprint (map_of new k), cg_Hot = IsHot k\<rparr>"

definition Diff ::
  "('k, 'v flat_value) koanf_lib \<Rightarrow> ('v \<Rightarrow> string) \<Rightarrow> config \<Rightarrow> config \<Rightarrow> (change list \<times> change list) result" where
  "Diff L sprint old new =
     (case flatten L old of
        Inl e \<Rightarrow> Inl e
      | Inr oldMap \<Rightarrow>
          (case flatten L new of
             Inl e \<Rightarrow> Inl e
           | Inr nextMap \<Rightarrow>
               (let keys = sort (remdups (map fst oldMap @ map fst nextMap));
                    cs = filter (\<lambda>c. cg_From c \<noteq> cg_To c) (map (change_of sprint oldMap nextMap) keys)
                in Inr (filter cg_Hot cs, filter (\<lambda>c. \<not> cg_Hot c) cs))))"

definition ApplyHot ::
  "('k, 'v flat_value) koanf_lib \<Rightarrow> string option \<Rightarrow> config \<Rightarrow> config \<Rightarrow> config result" where
  "ApplyHot L hn old new =
     (case flatten L old of
        Inl e \<Rightarrow> Inl e
      | Inr oldMap \<Rightarrow>
          (case flatten L new of
             Inl e \<Rightarrow> Inl e
           | Inr nextMap \<Rightarrow>
               (let merged = map_of oldMap ++ map_of (filter (\<lambda>(k, v). IsHot k) nextMap) in
                case kl_Load L (kl_new L) merged of
                  Inl e \<Rightarrow> Inl (WrapError ''merge hot fields: '' e)
                | Inr k \<Rightarrow> unmarshal L k (Defaults hn))))"

subsection \<open>The reload (app/reload.go)\<close>

text \<open>The parts of the process a reload touches: the configuration, the level, the counter, the log.\<close>

record app_state =
  ap_cfg :: config
  ap_level :: level
  ap_reloads :: "string list"
  ap_log :: "change list"

record reload_result =
  rr_Applied :: "change list"
  rr_RestartOnly :: "change list"
  rr_Err :: "go_error option"

definition reject :: "string \<Rightarrow> app_state \<Rightarrow> app_state" where
  "reject reason a = a\<lparr>ap_reloads := ap_reloads a @ [reason]\<rparr>"

definition readConfig ::
  "('k, 'v flat_value) koanf_lib \<Rightarrow> config_lib \<Rightarrow> 'v flat_value load_options \<Rightarrow> app_state \<Rightarrow> config result \<times> app_state" where
  "readConfig L cl o' a =
     (case config_Load L o' of
        Inl e \<Rightarrow> (Inl e, reject ''read error'' a)
      | Inr res \<Rightarrow>
          (case config_Validate cl (ld_Config res) of
             Some e \<Rightarrow> (Inl e, reject ''invalid'' a)
           | None \<Rightarrow> (Inr (ld_Config res), a)))"

definition planReload ::
  "('k, 'v flat_value) koanf_lib \<Rightarrow> ('v \<Rightarrow> string) \<Rightarrow> config \<Rightarrow> app_state \<Rightarrow>
   (change list \<times> change list) result \<times> app_state" where
  "planReload L sprint new a =
     (case Diff L sprint (ap_cfg a) new of
        Inl e \<Rightarrow> (Inl e, reject ''diff failed'' a)
      | Inr plan \<Rightarrow> (Inr plan, a))"

definition applyHot ::
  "('k, 'v flat_value) koanf_lib \<Rightarrow> config_lib \<Rightarrow> string option \<Rightarrow> config \<Rightarrow> change list \<Rightarrow> app_state \<Rightarrow>
   go_error option \<times> app_state" where
  "applyHot L cl hn new hot a =
     (case ApplyHot L hn (ap_cfg a) new of
        Inl e \<Rightarrow> (Some e, reject ''merge failed'' a)
      | Inr merged \<Rightarrow>
          (case config_Validate cl merged of
             Some e \<Rightarrow> (Some e, reject ''invalid after merge'' a)
           | None \<Rightarrow>
               (None, a\<lparr>ap_cfg := merged, ap_log := ap_log a @ hot,
                        ap_level := snd (SetLevel (lg_level (cf_logging merged)) (ap_level a))\<rparr>)))"

definition failed_reload :: "go_error \<Rightarrow> reload_result" where
  "failed_reload e = \<lparr>rr_Applied = [], rr_RestartOnly = [], rr_Err = Some e\<rparr>"

definition reload ::
  "('k, 'v flat_value) koanf_lib \<Rightarrow> ('v \<Rightarrow> string) \<Rightarrow> config_lib \<Rightarrow> 'v flat_value load_options \<Rightarrow> app_state \<Rightarrow>
   reload_result \<times> app_state" where
  "reload L sprint cl o' a =
     (case readConfig L cl o' a of
        (Inl e, a1) \<Rightarrow> (failed_reload e, a1)
      | (Inr new, a1) \<Rightarrow>
          (case planReload L sprint new a1 of
             (Inl e, a2) \<Rightarrow> (failed_reload e, a2)
           | (Inr (hot, restartOnly), a2) \<Rightarrow>
               (case (if hot \<noteq> [] then applyHot L cl (lo_hostname o') new hot a2 else (None, a2)) of
                  (Some e, a3) \<Rightarrow> (failed_reload e, a3)
                | (None, a3) \<Rightarrow>
                    (\<lparr>rr_Applied = hot, rr_RestartOnly = restartOnly, rr_Err = None\<rparr>,
                     a3\<lparr>ap_reloads := ap_reloads a3 @ [''applied'']\<rparr>))))"

subsection \<open>The hot list names real paths\<close>

lemma hot_prefixes_real:
  "list_all (\<lambda>h. list_ex (\<lambda>p. p = h \<or> starts_with (h @ ''.'') p) config_paths) hotPrefixes"
  by code_simp

subsection \<open>What a merge keeps and what it takes\<close>

text \<open>What a configuration holds at a path, as a change of it is logged.\<close>

definition shown :: "('k, 'v flat_value) koanf_lib \<Rightarrow> ('v \<Rightarrow> string) \<Rightarrow> config \<Rightarrow> string \<Rightarrow> string" where
  "shown L sprint c p = render sprint (kl_structs L c p)"

text \<open>
  Decoding stores a value of the declared type as it is: when every value is one some configuration holds at that path,
  the decoded configuration shows these values. Of a value of another type, such as a string of the environment, which
  \<open>WeaklyTypedInput\<close> converts, the law says nothing.
\<close>

definition decode_laws :: "('k, 'v flat_value) koanf_lib \<Rightarrow> ('v \<Rightarrow> string) \<Rightarrow> bool" where
  "decode_laws L sprint \<longleftrightarrow>
     (\<forall>k hn c. kl_Unmarshal L k (Defaults hn) = Inr c \<and> (\<forall>p. \<exists>x. kl_Get L k p = kl_structs L x p) \<longrightarrow>
        (\<forall>p. shown L sprint c p = render sprint (kl_Get L k p)))"

lemma flatten_map:
  assumes "koanf_laws L" and "flatten L c = Inr m"
  shows "map_of m = kl_structs L c"
proof
  fix p
  obtain k where k: "kl_Load L (kl_new L) (kl_structs L c) = Inr k"
    and m: "m = List.map_filter (\<lambda>p. map_option (Pair p) (kl_Get L k p)) (kl_Keys L k)"
    using assms(2) by (auto simp: flatten_def split: sum.splits)
  have g: "kl_Get L k = kl_structs L c" "set (kl_Keys L k) = dom (kl_Get L k)"
    using assms(1) k unfolding koanf_laws_def by blast+
  have "map_of (List.map_filter (\<lambda>p. map_option (Pair p) (h p)) ps) p = (if p \<in> set ps then h p else None)"
    for ps and h :: "string \<rightharpoonup> 'b flat_value"
    by (induction ps) (auto split: option.splits)
  moreover have "kl_Get L k p = None" if "p \<notin> set (kl_Keys L k)" using that g(2) by auto
  ultimately show "map_of m p = kl_structs L c p" unfolding m using g(1) by simp
qed

lemma map_of_filter_keys: "map_of (filter (\<lambda>(k, v). P k) xs) p = (if P p then map_of xs p else None)"
  by (induction xs) auto

lemma ApplyHot_shown:
  assumes "koanf_laws L" and "decode_laws L sprint" and "ApplyHot L hn old new = Inr c"
  shows "shown L sprint c p = shown L sprint (if IsHot p then new else old) p"
proof -
  obtain m n k where m: "flatten L old = Inr m" and n: "flatten L new = Inr n"
    and k: "kl_Load L (kl_new L) (map_of m ++ map_of (filter (\<lambda>(k, v). IsHot k) n)) = Inr k"
    and u: "kl_Unmarshal L k (Defaults hn) = Inr c"
    using assms(3) by (auto simp: ApplyHot_def unmarshal_def Let_def split: sum.splits)
  have g: "kl_Get L k = map_of m ++ map_of (filter (\<lambda>(k, v). IsHot k) n)"
    using assms(1) k unfolding koanf_laws_def by blast
  have s: "dom (kl_structs L x) = set config_paths" for x using assms(1) unfolding koanf_laws_def by blast
  have get: "kl_Get L k q = kl_structs L (if IsHot q then new else old) q" for q
  proof (cases "q \<in> set config_paths")
    case True
    then obtain v w where "kl_structs L new q = Some v" "kl_structs L old q = Some w"
      using s [of new] s [of old] by (metis domD)
    then show ?thesis
      by (simp add: g map_add_def map_of_filter_keys flatten_map [OF assms(1) m] flatten_map [OF assms(1) n])
  next
    case False
    then have "kl_structs L new q = None" "kl_structs L old q = None" using s by (metis domIff)+
    then show ?thesis
      by (simp add: g map_add_def map_of_filter_keys flatten_map [OF assms(1) m] flatten_map [OF assms(1) n])
  qed
  then have "shown L sprint c p = render sprint (kl_Get L k p)" using assms(2) u unfolding decode_laws_def by blast
  then show ?thesis using get by (simp add: shown_def)
qed

lemma Diff_no_hot:
  assumes "koanf_laws L" and "Diff L sprint old new = Inr ([], rest)" and "IsHot p"
  shows "shown L sprint old p = shown L sprint new p"
proof -
  obtain m n where m: "flatten L old = Inr m" and n: "flatten L new = Inr n"
    using assms(2) by (auto simp: Diff_def split: sum.splits)
  have none: "filter cg_Hot (filter (\<lambda>c. cg_From c \<noteq> cg_To c) (map (change_of sprint m n)
      (sort (remdups (map fst m @ map fst n))))) = []"
    using assms(2) m n by (simp add: Diff_def Let_def)
  show ?thesis
  proof (cases "p \<in> fst ` set m \<union> fst ` set n")
    case True
    then have "change_of sprint m n p \<in> set (map (change_of sprint m n) (sort (remdups (map fst m @ map fst n))))"
      by auto
    then have "cg_From (change_of sprint m n p) = cg_To (change_of sprint m n p)"
      using none assms(3) unfolding filter_filter filter_empty_conv by (auto simp: change_of_def)
    then show ?thesis
      by (simp add: change_of_def shown_def flatten_map [OF assms(1) m] flatten_map [OF assms(1) n])
  next
    case False
    then have "map_of m p = None" "map_of n p = None" by (simp_all add: map_of_eq_None_iff)
    then show ?thesis by (simp add: shown_def flatten_map [OF assms(1) m] flatten_map [OF assms(1) n])
  qed
qed

text \<open>
  C27: A reload is all or nothing, and only the hot set moves. If anything fails, reading, validation, the comparison, the merge or the validation of the merge, the running configuration and the log level are exactly what they were. If it succeeds, the file, environment and flags loaded and passed validation, every hot path now shows the loaded value, every other path keeps the value the process started with, a configuration that changed has itself passed validation, and the log level follows the one configured. Each reload counts once, under one outcome.\<close>
theorem reload_all_or_nothing:
  assumes "koanf_laws L" and "decode_laws L sprint" and "reload L sprint cl o' a = (rr, a')"
  shows "(rr_Err rr \<noteq> None \<longrightarrow> ap_cfg a' = ap_cfg a \<and> ap_level a' = ap_level a \<and> ap_log a' = ap_log a) \<and>
    (rr_Err rr = None \<longrightarrow> (\<exists>res. config_Load L o' = Inr res \<and> config_Validate cl (ld_Config res) = None \<and>
       (\<forall>p. shown L sprint (ap_cfg a') p = shown L sprint (if IsHot p then ld_Config res else ap_cfg a) p) \<and>
       (ap_cfg a' \<noteq> ap_cfg a \<longrightarrow> config_Validate cl (ap_cfg a') = None \<and>
          ap_level a' = snd (SetLevel (lg_level (cf_logging (ap_cfg a'))) (ap_level a))) \<and>
       ap_log a' = ap_log a @ rr_Applied rr)) \<and>
    (\<exists>outcome. ap_reloads a' = ap_reloads a @ [outcome] \<and> (outcome = ''applied'' \<longleftrightarrow> rr_Err rr = None))"
proof (cases "rr_Err rr")
  case (Some e)
  then show ?thesis using assms(3)
    by (auto simp: reload_def readConfig_def planReload_def applyHot_def reject_def failed_reload_def
        split: sum.splits option.splits if_splits)
next
  case None
  then obtain res hot restartOnly where res: "config_Load L o' = Inr res" "config_Validate cl (ld_Config res) = None"
    and plan: "Diff L sprint (ap_cfg a) (ld_Config res) = Inr (hot, restartOnly)"
    and run: "(if hot \<noteq> [] then applyHot L cl (lo_hostname o') (ld_Config res) hot a else (None, a)) =
      (None, a'\<lparr>ap_reloads := ap_reloads a\<rparr>)"
    and rr: "rr_Applied rr = hot" "ap_reloads a' = ap_reloads a @ [''applied'']"
    using assms(3)
    by (auto simp: reload_def readConfig_def planReload_def applyHot_def reject_def failed_reload_def
        split: sum.splits option.splits if_splits)
  show ?thesis
  proof (cases "hot = []")
    case True
    then have "a'\<lparr>ap_reloads := ap_reloads a\<rparr> = a" using run by simp
    then have "ap_cfg a' = ap_cfg a" "ap_log a' = ap_log a" by (auto dest: arg_cong [of _ _ ap_cfg] arg_cong [of _ _ ap_log])
    moreover have "shown L sprint (ap_cfg a) p = shown L sprint (if IsHot p then ld_Config res else ap_cfg a) p" for p
      using Diff_no_hot [OF assms(1)] plan True by simp
    ultimately show ?thesis using None res rr True by simp
  next
    case False
    then obtain merged where m: "ApplyHot L (lo_hostname o') (ap_cfg a) (ld_Config res) = Inr merged"
      "config_Validate cl merged = None" "a'\<lparr>ap_reloads := ap_reloads a\<rparr> = a\<lparr>ap_cfg := merged, ap_log := ap_log a @ hot,
         ap_level := snd (SetLevel (lg_level (cf_logging merged)) (ap_level a))\<rparr>"
      using run by (auto simp: applyHot_def split: sum.splits option.splits)
    have "ap_cfg a' = merged" "ap_log a' = ap_log a @ hot"
        "ap_level a' = snd (SetLevel (lg_level (cf_logging merged)) (ap_level a))"
      using arg_cong [OF m(3), of ap_cfg] arg_cong [OF m(3), of ap_log] arg_cong [OF m(3), of ap_level] by simp_all
    then show ?thesis using None res rr m(2) ApplyHot_shown [OF assms(1,2) m(1)] by simp
  qed
qed

text \<open>
  A koanf that keeps both sets of laws and converts: the level and the number of workers have their own values, every other
  path carries the rest of the configuration; decoding takes the number of workers as a number or as its text, as the
  environment gives it, and refuses values that do not fit together.
\<close>

datatype demo_value = DInt int | DRest config

definition fill :: "string \<Rightarrow> int \<Rightarrow> config \<Rightarrow> config" where
  "fill l n c = c\<lparr>cf_logging := (cf_logging c)\<lparr>lg_level := l\<rparr>, cf_queue := (cf_queue c)\<lparr>qc_workers := n\<rparr>\<rparr>"

definition demo_structs :: "config \<Rightarrow> string \<rightharpoonup> demo_value flat_value" where
  "demo_structs c p =
     (if p \<notin> set config_paths then None
      else if p = ''logging.level'' then Some (VString (lg_level (cf_logging c)))
      else if p = ''queue.workers'' then Some (VOther (DInt (qc_workers (cf_queue c))))
      else Some (VOther (DRest (fill [] 0 c))))"

definition demo_number :: "demo_value flat_value \<Rightarrow> int option" where
  "demo_number v =
     (case v of
        VOther (DInt n) \<Rightarrow> Some n
      | VString s \<Rightarrow>
          if s \<noteq> [] \<and> list_all (\<lambda>c. c \<in> set ''0123456789'') s then Some (fold (\<lambda>c n. 10 * n + (of_char c - 48)) s 0)
          else None
      | _ \<Rightarrow> None)"

definition demo_decode :: "(string \<times> demo_value flat_value) list \<Rightarrow> config \<Rightarrow> config result" where
  "demo_decode k base =
     (case (map_of k ''logging.level'', Option.bind (map_of k ''queue.workers'') demo_number, map_of k ''http.addr'') of
        (Some (VString l), Some n, Some (VOther (DRest c))) \<Rightarrow>
          if list_all (\<lambda>p. p = ''queue.workers'' \<or> map_of k p = demo_structs (fill l n c) p) config_paths then Inr (fill l n c)
          else Inl (PlainError ''inconsistent'')
      | _ \<Rightarrow> Inl (PlainError ''wrong type''))"

definition flat_koanf :: "((string \<times> demo_value flat_value) list, demo_value flat_value) koanf_lib" where
  "flat_koanf = list_koanf VString demo_structs demo_decode"

definition demo_sprint :: "demo_value \<Rightarrow> string" where
  "demo_sprint v = (case v of DInt n \<Rightarrow> itoa n | DRest c \<Rightarrow> ''config'')"

lemma demo_paths: "''logging.level'' \<in> set config_paths" "''http.addr'' \<in> set config_paths" "''queue.workers'' \<in> set config_paths"
  by (simp_all add: config_paths_def under_def)

lemma dom_demo_structs: "dom (demo_structs c) = set config_paths"
  by (auto simp: demo_structs_def split: if_splits)

lemma flat_koanf_laws: "koanf_laws flat_koanf"
  unfolding flat_koanf_def by (rule list_koanf_laws [OF dom_demo_structs])

lemma flat_decode_laws: "decode_laws flat_koanf demo_sprint"
proof -
  have "demo_structs c p = map_of k p" if dec: "demo_decode k base = Inr c" and typed: "\<forall>p. \<exists>x. map_of k p = demo_structs x p" for k base c p
  proof -
    obtain l n r where lnr: "Option.bind (map_of k ''queue.workers'') demo_number = Some n" "c = fill l n r"
      "list_all (\<lambda>p. p = ''queue.workers'' \<or> map_of k p = demo_structs c p) config_paths"
      using dec by (auto simp: demo_decode_def split: option.splits flat_value.splits demo_value.splits if_splits)
    obtain x where "map_of k ''queue.workers'' = demo_structs x ''queue.workers''" using typed by blast
    then have "map_of k ''queue.workers'' = Some (VOther (DInt n))"
      using lnr(1) demo_paths by (auto simp: demo_structs_def demo_number_def)
    moreover have "map_of k p = None" if "p \<notin> set config_paths" using that typed by (metis demo_structs_def)
    ultimately show ?thesis using lnr(2,3) demo_paths(3)
      by (cases "p \<in> set config_paths") (auto simp: list_all_iff demo_structs_def fill_def)
  qed
  then show ?thesis by (auto simp: decode_laws_def shown_def flat_koanf_def list_koanf_def)
qed

lemma demo_decode_fits:
  assumes "\<And>p. p \<noteq> ''queue.workers'' \<Longrightarrow> map_of k p = demo_structs c p"
    and "Option.bind (map_of k ''queue.workers'') demo_number = Some (qc_workers (cf_queue c))"
  shows "demo_decode k base = Inr c"
proof -
  have "fill (lg_level (cf_logging c)) (qc_workers (cf_queue c)) (fill [] 0 c) = c" by (simp add: fill_def)
  moreover have "list_all (\<lambda>p. p = ''queue.workers'' \<or> map_of k p = demo_structs c p) config_paths"
    using assms(1) by (auto simp: list_all_iff)
  moreover have "map_of k ''logging.level'' = Some (VString (lg_level (cf_logging c)))"
    "map_of k ''http.addr'' = Some (VOther (DRest (fill [] 0 c)))"
    using assms(1) demo_paths by (simp_all add: demo_structs_def)
  ultimately show ?thesis using assms(2) by (simp add: demo_decode_def)
qed

text \<open>The reload of a process started with the defaults after \<open>TASKAPI_QUEUE_WORKERS=16\<close> appeared.\<close>

definition demo_reload :: "demo_value flat_value load_options" where
  "demo_reload = \<lparr>lo_File = [], lo_Flags = None, lo_Environ = [(EnvName ''queue.workers'', ''16'')], lo_Overrides = Map.empty,
     lo_hostname = None, lo_stat = (\<lambda>_. Some (PlainError ''no such file'')), lo_yaml = (\<lambda>_. Inr Map.empty)\<rparr>"

definition demo_reloaded :: config where
  "demo_reloaded = fill ''info'' 16 (Defaults None)"

lemma demo_reloaded_structs:
  "p \<noteq> ''queue.workers'' \<Longrightarrow> demo_structs (Defaults None) p = demo_structs demo_reloaded p"
  "qc_workers (cf_queue demo_reloaded) = 16" "qc_workers (cf_queue (Defaults None)) = 8"
  by (auto simp: demo_structs_def demo_reloaded_def fill_def Defaults_def logging_defaults_def queue_defaults_def)

lemma demo_number_text: "demo_number (VString ''16'') = Some 16"
  by code_simp

lemma demo_reload_loads:
  "\<exists>res. config_Load flat_koanf demo_reload = Inr res \<and> ld_Config res = demo_reloaded"
proof -
  let ?env = "path_list (texts flat_koanf [''queue.workers'' \<mapsto> ''16''])"
  have "env_layer [(EnvName ''queue.workers'', ''16'')] = [''queue.workers'' \<mapsto> ''16'']"
    using envTransform_EnvName [OF demo_paths(3)]
    by (simp add: env_layer_def EnvName_def starts_with_def last_assoc_def fun_eq_iff)
  then obtain ws where ml: "merge_layers flat_koanf demo_reload = Inr ([], ws, ?env @ path_list (demo_structs (Defaults None)))"
    using list_koanf_merge [OF dom_demo_structs flat_koanf_def, of demo_reload] by (auto simp: demo_reload_def)
  have "dom (texts flat_koanf [''queue.workers'' \<mapsto> ''16'']) \<subseteq> set config_paths"
    using demo_paths(3) by (auto simp: texts_def split: if_splits)
  then have env: "map_of ?env = texts flat_koanf [''queue.workers'' \<mapsto> ''16'']" by (rule map_of_path_list)
  have lit: "texts flat_koanf [''queue.workers'' \<mapsto> ''16''] = [''queue.workers'' \<mapsto> VString ''16'']"
    by (auto simp: texts_def flat_koanf_def list_koanf_def fun_eq_iff)
  have "demo_decode (?env @ path_list (demo_structs (Defaults None))) base = Inr demo_reloaded" for base
    by (rule demo_decode_fits)
      (simp_all add: env [unfolded lit] lit map_add_def map_of_path_list dom_demo_structs demo_reloaded_structs demo_number_text)
  moreover have "kl_Unmarshal flat_koanf k b = demo_decode k b" for k b by (simp add: flat_koanf_def list_koanf_def)
  ultimately show ?thesis using ml by (simp add: config_Load_def unmarshal_def demo_reload_def)
qed

lemma flat_flatten: "\<exists>m. flatten flat_koanf c = Inr m \<and> map_of m = demo_structs c"
proof -
  obtain m where "flatten flat_koanf c = Inr m"
    by (simp add: flatten_def flat_koanf_def list_koanf_def dom_demo_structs)
  then show ?thesis using flatten_map [OF flat_koanf_laws] by (fastforce simp: flat_koanf_def list_koanf_def)
qed

definition demo_app :: app_state where
  "demo_app = \<lparr>ap_cfg = Defaults None, ap_level = LevelInfo, ap_reloads = [], ap_log = []\<rparr>"

definition demo_cl :: config_lib where
  "demo_cl = \<lparr>url_parse = (\<lambda>s. Inr (''http'', s)), split_host_port = (\<lambda>s. None)\<rparr>"

lemma demo_reloaded_valid: "config_Validate demo_cl demo_reloaded = None"
proof -
  have a: "auth_ok auth_defaults"
    by (simp add: auth_ok_def auth_defaults_def client_ok_def sha256Hex_def lower_def lower_char_def trim_eval)
  have q: "queue_ok (queue_defaults\<lparr>qc_workers := 16\<rparr>)" by (simp add: queue_ok_def queue_defaults_def wrap64_id)
  have l: "checkLevel ''info'' = None" by (simp add: checkLevel_def trim_eval lower_def lower_char_def)
  have "config_problems demo_cl demo_reloaded = []"
    using a q l
    by (simp add: config_problems_def config_simps demo_reloaded_def fill_def Defaults_def service_defaults_def
        logging_defaults_def http_defaults_def http_ok_def admin_defaults_def storage_defaults_def
        idempotency_defaults_def idempotency_ok_def ratelimit_defaults_def breaker_defaults_def breaker_ok_def
        webhook_defaults_def observability_defaults_def f_le_def trim_eval)
  then show ?thesis by (simp add: config_Validate_def)
qed

lemma demo_ApplyHot: "ApplyHot flat_koanf hn (Defaults None) demo_reloaded = Inr demo_reloaded"
proof -
  obtain m n where m: "flatten flat_koanf (Defaults None) = Inr m" "map_of m = demo_structs (Defaults None)"
    and n: "flatten flat_koanf demo_reloaded = Inr n" "map_of n = demo_structs demo_reloaded" using flat_flatten by blast
  define merged where "merged = map_of m ++ map_of (filter (\<lambda>(k, v). IsHot k) n)"
  have get: "merged p = (if IsHot p then demo_structs demo_reloaded p else demo_structs (Defaults None) p)" if "p \<in> set config_paths" for p
    using that by (auto simp: merged_def map_add_def map_of_filter_keys m(2) n(2) demo_structs_def)
  have dom: "dom merged \<subseteq> set config_paths"
    by (auto simp: merged_def map_add_def map_of_filter_keys m(2) n(2) demo_structs_def split: if_splits option.splits)
  have out: "merged p = None" if "p \<notin> set config_paths" for p using that dom by auto
  have hot: "IsHot ''queue.workers''" by code_simp
  have "map_of (path_list merged) p = demo_structs demo_reloaded p" if "p \<noteq> ''queue.workers''" for p
    using that get [of p] out [of p] demo_reloaded_structs(1) [of p] map_of_path_list [OF dom]
    by (cases "p \<in> set config_paths") (auto simp: demo_structs_def)
  moreover have "Option.bind (map_of (path_list merged) ''queue.workers'') demo_number = Some (qc_workers (cf_queue demo_reloaded))"
    using get [OF demo_paths(3)] hot map_of_path_list [OF dom] demo_paths(3) by (simp add: demo_structs_def demo_number_def)
  ultimately have "demo_decode (path_list merged) base = Inr demo_reloaded" for base by (rule demo_decode_fits)
  then show ?thesis
    using m(1) n(1) dom by (simp add: ApplyHot_def Let_def unmarshal_def flat_koanf_def list_koanf_def flip: merged_def)
qed

theorem reload_all_or_nothing_witness:
  "\<exists>rr a'. reload flat_koanf demo_sprint demo_cl demo_reload demo_app = (rr, a') \<and> rr_Err rr = None \<and> rr_Applied rr \<noteq> [] \<and>
     qc_workers (cf_queue (ap_cfg demo_app)) = 8 \<and> shown flat_koanf demo_sprint (ap_cfg a') ''queue.workers'' = ''16'' \<and>
     ap_reloads a' = [''applied'']"
proof -
  obtain res where res: "config_Load flat_koanf demo_reload = Inr res" "ld_Config res = demo_reloaded"
    using demo_reload_loads by blast
  obtain hot rest where d: "Diff flat_koanf demo_sprint (Defaults None) demo_reloaded = Inr (hot, rest)"
    using flat_flatten [of "Defaults None"] flat_flatten [of demo_reloaded] by (auto simp: Diff_def Let_def)
  have new: "shown flat_koanf demo_sprint demo_reloaded ''queue.workers'' = itoa 16"
    and old: "shown flat_koanf demo_sprint (Defaults None) ''queue.workers'' = itoa 8"
    using demo_paths(3) by (simp_all add: shown_def flat_koanf_def list_koanf_def demo_structs_def render_def demo_sprint_def demo_reloaded_structs)
  have hotp: "IsHot ''queue.workers''" by code_simp
  have "hot \<noteq> []"
    using Diff_no_hot [OF flat_koanf_laws, of demo_sprint "Defaults None" demo_reloaded rest "''queue.workers''"] d hotp new old
    by auto
  then obtain rr a' where r: "reload flat_koanf demo_sprint demo_cl demo_reload demo_app = (rr, a')" "rr_Err rr = None" "rr_Applied rr \<noteq> []"
    using res demo_reloaded_valid d demo_ApplyHot by (simp add: reload_def readConfig_def planReload_def applyHot_def demo_app_def)
  have "itoa 16 = ''16''" by code_simp
  then show ?thesis
    using reload_all_or_nothing [OF flat_koanf_laws flat_decode_laws r(1)] r res hotp new
    by (auto simp: demo_app_def demo_reloaded_structs)
qed

end
