(* ===== verification/Duration_Text.thy ===== *)
theory Duration_Text
  imports Backoff Httpx
begin

text \<open>
  Durations in the configuration, \<open>internal/config/duration.go\<close>.

  A \<open>Duration\<close> is written as text (\<open>1h30m\<close>, \<open>250ms\<close>) and read back by \<open>time.ParseDuration\<close>, which is
  modelled here byte by byte: the optional sign, the sequence of decimal numbers with units, the
  64-bit overflow checks, and the \<open>float64\<close> arithmetic of the fractional part. A finite \<open>float64\<close> is a
  pair \<open>(m, e)\<close> standing for \<open>m / 2^e\<close>, where \<open>m\<close> has at most 53 significant bits (\<open>Backoff.fl_nat\<close>
  rounds to them). The exponent range is not bounded in the model: it only matters once the scale
  passes \<open>10^300\<close>, where the fraction is far below one nanosecond and is cut to zero either way.

  yaml.v3 is not part of the sources. What its \<open>unmarshal\<close> callback answers for an \<open>int64\<close> and for a
  \<open>string\<close> target is the argument \<open>yaml_node\<close>.
\<close>

subsection \<open>time.ParseDuration\<close>

definition is_dig :: "char \<Rightarrow> bool" where
  "is_dig c \<longleftrightarrow> 48 \<le> (of_char c :: nat) \<and> (of_char c :: nat) \<le> 57"

fun leadingInt :: "nat \<Rightarrow> string \<Rightarrow> (nat \<times> string) option" where
  "leadingInt x [] = Some (x, [])"
| "leadingInt x (c # s) =
     (if \<not> is_dig c then Some (x, c # s)
      else if x > 2 ^ 63 div 10 then None
      else
        (let y = x * 10 + digit_val c in if y > 2 ^ 63 then None else leadingInt y s))"

text \<open>The loop of \<open>leadingFraction\<close>: the digits so far, the scale (a \<open>float64\<close>), the overflow flag.\<close>

fun leadingFraction :: "nat \<Rightarrow> nat \<Rightarrow> bool \<Rightarrow> string \<Rightarrow> nat \<times> nat \<times> string" where
  "leadingFraction x scale overflow [] = (x, scale, [])"
| "leadingFraction x scale overflow (c # s) =
     (if \<not> is_dig c then (x, scale, c # s)
      else if overflow \<or> x > (2 ^ 63 - 1) div 10 then leadingFraction x scale True s
      else
        (let y = x * 10 + digit_val c in
         if y > 2 ^ 63 then leadingFraction x scale True s
         else leadingFraction y (fl_nat (scale * 10)) overflow s))"

definition unitMap :: "string \<Rightarrow> nat option" where
  "unitMap u =
     map_of [(''ns'', 1), (''us'', 10 ^ 3), ([CHR 0xC2, CHR 0xB5, CHR ''s''], 10 ^ 3),
       ([CHR 0xCE, CHR 0xBC, CHR ''s''], 10 ^ 3), (''ms'', 10 ^ 6), (''s'', 10 ^ 9),
       (''m'', 60 * 10 ^ 9), (''h'', 3600 * 10 ^ 9)] u"

text \<open>
  \<open>float64(unit) / scale\<close>: the quotient carried to at least 64 bits, a last bit that says whether
  anything was cut off, rounded to 53 bits.
\<close>

definition fl_ratio :: "nat \<Rightarrow> nat \<Rightarrow> nat \<times> nat" where
  "fl_ratio n m =
     (let e = 64 + bit_length m; a = n * 2 ^ e in
      (fl_nat (2 * (a div m) + (if a mod m = 0 then 0 else 1)), Suc e))"

text \<open>\<open>uint64(float64(f) * (float64(unit) / scale))\<close>\<close>

definition frac_part :: "nat \<Rightarrow> nat \<Rightarrow> nat \<Rightarrow> nat" where
  "frac_part f unit scale = (case fl_ratio unit scale of (q, e) \<Rightarrow> fl_nat (fl_nat f * q) div 2 ^ e)"

datatype parse_error = InvalidDuration | MissingUnit | UnknownUnit string

definition unit_stop :: "char \<Rightarrow> bool" where
  "unit_stop c \<longleftrightarrow> c = CHR ''.'' \<or> is_dig c"

text \<open>The optional point and the digits after it: value, scale, whether there were any, the rest.\<close>

definition opt_fraction :: "string \<Rightarrow> nat \<times> nat \<times> bool \<times> string" where
  "opt_fraction s =
     (case s of
        c # t \<Rightarrow>
          if c = CHR ''.'' then (case leadingFraction 0 1 False t of (f, scale, r) \<Rightarrow> (f, scale, length t \<noteq> length r, r))
          else (0, 1, False, s)
      | [] \<Rightarrow> (0, 1, False, s))"

text \<open>One turn of the loop: a number and its unit, in nanoseconds, and what is left of the text.\<close>

definition parse_segment :: "string \<Rightarrow> parse_error + nat \<times> string" where
  "parse_segment s =
     (if s = [] \<or> \<not> unit_stop (hd s) then Inl InvalidDuration
      else
        (case leadingInt 0 s of
           None \<Rightarrow> Inl InvalidDuration
         | Some (v, s1) \<Rightarrow>
             (case opt_fraction s1 of
                (f, scale, post, s2) \<Rightarrow>
                  if length s = length s1 \<and> \<not> post then Inl InvalidDuration
                  else
                    (let u = takeWhile (\<lambda>c. \<not> unit_stop c) s2; s3 = dropWhile (\<lambda>c. \<not> unit_stop c) s2 in
                     if u = [] then Inl MissingUnit
                     else
                       (case unitMap u of
                          None \<Rightarrow> Inl (UnknownUnit u)
                        | Some unit \<Rightarrow>
                            if v > 2 ^ 63 div unit then Inl InvalidDuration
                            else
                              (let w = (if f > 0 then (v * unit + frac_part f unit scale) mod 2 ^ 64 else v * unit) in
                               if f > 0 \<and> w > 2 ^ 63 then Inl InvalidDuration else Inr (w, s3)))))))"

lemma leadingInt_length: "leadingInt x s = Some (v, r) \<Longrightarrow> length r \<le> length s"
  by (induction x s rule: leadingInt.induct) (auto simp: Let_def split: if_splits)

lemma leadingFraction_length: "leadingFraction x sc ov s = (f, sc', r) \<Longrightarrow> length r \<le> length s"
  by (induction x sc ov s rule: leadingFraction.induct) (auto simp: Let_def split: if_splits intro: le_SucI)

lemma opt_fraction_length: "opt_fraction s = (f, sc, p, r) \<Longrightarrow> length r \<le> length s"
  by (auto simp: opt_fraction_def split: list.splits if_splits prod.splits dest!: leadingFraction_length)

text \<open>A segment consumes its unit at least, so the loop ends.\<close>

lemma parse_segment_consumes:
  assumes "parse_segment s = Inr (w, r)"
  shows "length r < length s"
proof -
  obtain v s1 f sc p s2 where a: "leadingInt 0 s = Some (v, s1)" "opt_fraction s1 = (f, sc, p, s2)"
    and u: "takeWhile (\<lambda>c. \<not> unit_stop c) s2 \<noteq> []" and r: "r = dropWhile (\<lambda>c. \<not> unit_stop c) s2"
    using assms by (auto simp: parse_segment_def Let_def split: if_splits option.splits prod.splits)
  have "length s2 = length (takeWhile (\<lambda>c. \<not> unit_stop c) s2) + length r"
    unfolding r by (metis length_append takeWhile_dropWhile_id)
  then have "length r < length s2" using u by (cases "takeWhile (\<lambda>c. \<not> unit_stop c) s2") auto
  then show ?thesis using leadingInt_length [OF a(1)] opt_fraction_length [OF a(2)] by simp
qed

function parse_loop :: "nat \<Rightarrow> string \<Rightarrow> parse_error + nat" where
  "parse_loop d s =
     (if s = [] then Inr d
      else
        (case parse_segment s of
           Inl e \<Rightarrow> Inl e
         | Inr (w, r) \<Rightarrow>
             (let d' = (d + w) mod 2 ^ 64 in if d' > 2 ^ 63 then Inl InvalidDuration else parse_loop d' r)))"
  by pat_completeness auto
termination
  by (relation "measure (\<lambda>(d, s). length s)") (auto dest: parse_segment_consumes)

declare parse_loop.simps [simp del]

definition sign_cut :: "string \<Rightarrow> bool \<times> string" where
  "sign_cut s =
     (case s of
        c # t \<Rightarrow> if c = CHR ''-'' then (True, t) else if c = CHR ''+'' then (False, t) else (False, s)
      | [] \<Rightarrow> (False, s))"

definition ParseDuration :: "string \<Rightarrow> parse_error + duration" where
  "ParseDuration s =
     (case sign_cut s of
        (neg, t) \<Rightarrow>
          if t = ''0'' then Inr 0
          else if t = [] then Inl InvalidDuration
          else
            (case parse_loop 0 t of
               Inl e \<Rightarrow> Inl e
             | Inr d \<Rightarrow>
                 if neg then Inr (- int d)
                 else if d > 2 ^ 63 - 1 then Inl InvalidDuration
                 else Inr (int d)))"

text \<open>The \<open>quote\<close> of package time: every byte outside printable ASCII is written in hexadecimal.\<close>

definition time_quote_char :: "char \<Rightarrow> string" where
  "time_quote_char c =
     (let n = (of_char c :: nat) in
      if n \<ge> 128 \<or> n < 32 then [char_of (92 :: nat), CHR ''x'', hex_nibble (n div 16), hex_nibble (n mod 16)]
      else if n = 34 \<or> n = 92 then [char_of (92 :: nat), c]
      else [c])"

definition time_quote :: "string \<Rightarrow> string" where
  "time_quote s = [char_of (34 :: nat)] @ concat (map time_quote_char s) @ [char_of (34 :: nat)]"

definition parse_error_text :: "string \<Rightarrow> parse_error \<Rightarrow> string" where
  "parse_error_text orig e =
     (case e of
        InvalidDuration \<Rightarrow> ''time: invalid duration '' @ time_quote orig
      | MissingUnit \<Rightarrow> ''time: missing unit in duration '' @ time_quote orig
      | UnknownUnit u \<Rightarrow> ''time: unknown unit '' @ time_quote u @ '' in duration '' @ time_quote orig)"

subsection \<open>The methods of Duration (duration.go)\<close>

definition Duration_String :: "duration \<Rightarrow> string" where
  "Duration_String d = duration_string d"

definition UnmarshalText :: "string \<Rightarrow> string + duration" where
  "UnmarshalText b =
     (case ParseDuration b of
        Inl e \<Rightarrow> Inl (''invalid duration '' @ go_quote b @ '': '' @ parse_error_text b e)
      | Inr parsed \<Rightarrow> Inr parsed)"

definition MarshalText :: "duration \<Rightarrow> string" where
  "MarshalText d = Duration_String d"

definition MarshalYAML :: "duration \<Rightarrow> string" where
  "MarshalYAML d = Duration_String d"

text \<open>What the YAML node decodes to as an \<open>int64\<close> and as a \<open>string\<close>; \<open>None\<close> is an error.\<close>

record yaml_node =
  yn_int64 :: "int option"
  yn_string :: "string option"

definition duration_shape :: string where
  "duration_shape =
     ''duration must be a string like '' @ [char_of (34 :: nat)] @ ''30s'' @ [char_of (34 :: nat)] @
     '' or an integer of nanoseconds''"

definition UnmarshalYAML :: "yaml_node \<Rightarrow> string + duration" where
  "UnmarshalYAML node =
     (case yn_int64 node of
        Some n \<Rightarrow> Inr n
      | None \<Rightarrow>
          (case yn_string node of
             None \<Rightarrow> Inl duration_shape
           | Some s \<Rightarrow> UnmarshalText s))"

definition MarshalJSON :: "duration \<Rightarrow> string" where
  "MarshalJSON d = json_quote (Duration_String d)"

text \<open>
  One JSON value as \<open>encoding/json\<close> sees it: a string already unescaped, a number as its literal.
  Decoding \<open>null\<close> into any Go scalar succeeds and leaves the zero value.
\<close>

datatype json_value = JNull | JString string | JNumber string | JOther

definition json_as_string :: "json_value \<Rightarrow> string option" where
  "json_as_string v = (case v of JNull \<Rightarrow> Some [] | JString s \<Rightarrow> Some s | _ \<Rightarrow> None)"

definition ParseInt64 :: "string \<Rightarrow> int option" where
  "ParseInt64 s =
     (case sign_cut s of
        (neg, t) \<Rightarrow>
          if t = [] \<or> \<not> list_all is_dig t then None
          else
            (let n = (if neg then - int (dec_val t) else int (dec_val t)) in
             if - (2 ^ 63) \<le> n \<and> n < 2 ^ 63 then Some n else None))"

definition json_as_int64 :: "json_value \<Rightarrow> int option" where
  "json_as_int64 v = (case v of JNull \<Rightarrow> Some 0 | JNumber t \<Rightarrow> ParseInt64 t | _ \<Rightarrow> None)"

definition UnmarshalJSON :: "json_value \<Rightarrow> string + duration" where
  "UnmarshalJSON b =
     (case json_as_string b of
        Some s \<Rightarrow> UnmarshalText s
      | None \<Rightarrow>
          (case json_as_int64 b of
             None \<Rightarrow> Inl duration_shape
           | Some n \<Rightarrow> Inr n))"

subsection \<open>Digits\<close>

lemma is_dig_digit: "d < 10 \<Longrightarrow> is_dig (digit d)"
  by (simp add: is_dig_def digit_code)

lemma dec_all_dig: "list_all is_dig (dec n)"
  using dec_digits [of n] is_dig_digit by (auto simp: list_all_iff)

lemma dec_not_Nil: "dec n \<noteq> []"
  by (subst dec.simps) simp

lemma pad_dec_all_dig: "list_all is_dig (pad_dec k v)"
  by (induction k v rule: pad_dec.induct) (simp_all add: is_dig_digit)

lemma pad_dec_length: "length (pad_dec k v) = k"
  by (induction k v rule: pad_dec.induct) simp_all

lemma dec_val_pad_dec: "v < 10 ^ k \<Longrightarrow> dec_val (pad_dec k v) = v"
proof (induction k v rule: pad_dec.induct)
  case (2 k v)
  then have "v div 10 < 10 ^ k" by (simp add: less_mult_imp_div_less mult.commute)
  then show ?case using 2 by simp
qed (simp add: dec_val_def)

lemma digit_0: "digit 0 = CHR ''0''"
  by code_simp

lemma pad_dec_zero: "pad_dec k 0 = replicate k (CHR ''0'')"
proof (induction k)
  case (Suc k)
  then show ?case by (simp add: digit_0 replicate_append_same)
qed simp

lemma dec_val_zeros: "dec_val (s @ replicate z (CHR ''0'')) = dec_val s * 10 ^ z"
proof (induction z)
  case (Suc z)
  have "s @ replicate (Suc z) (CHR ''0'') = (s @ replicate z (CHR ''0'')) @ [CHR ''0'']"
    by (simp add: replicate_append_same)
  then show ?case using Suc by (simp only: dec_val_snoc) (simp add: digit_val_def)
qed simp

lemma drop_zeros_split: "\<exists>z. s = drop_zeros s @ replicate z (CHR ''0'')"
proof -
  let ?p = "\<lambda>c. c = CHR ''0''"
  let ?z = "length (takeWhile ?p (rev s))"
  have "c = CHR ''0''" if "c \<in> set (takeWhile ?p (rev s))" for c using set_takeWhileD [OF that] by simp
  then have z: "takeWhile ?p (rev s) = replicate ?z (CHR ''0'')" by (metis replicate_length_same)
  have "rev (takeWhile ?p (rev s) @ dropWhile ?p (rev s)) = s" by simp
  then have "s = drop_zeros s @ rev (takeWhile ?p (rev s))" by (simp only: rev_append drop_zeros_def)
  then have "s = drop_zeros s @ replicate ?z (CHR ''0'')" using z by (metis rev_replicate)
  then show ?thesis by blast
qed

definition accum :: "nat \<Rightarrow> string \<Rightarrow> nat" where
  "accum x s = foldl (\<lambda>acc c. acc * 10 + digit_val c) x s"

lemma accum_simps [simp]: "accum x [] = x" "accum x (c # s) = accum (x * 10 + digit_val c) s"
  by (simp_all add: accum_def)

lemma accum_dec_val: "accum 0 s = dec_val s"
  by (simp add: accum_def dec_val_def)

lemma accum_mono: "x \<le> accum x s"
proof (induction s arbitrary: x)
  case (Cons c s)
  have "x \<le> x * 10 + digit_val c" by simp
  also have "\<dots> \<le> accum (x * 10 + digit_val c) s" by (rule Cons.IH)
  finally show ?case by simp
qed simp

text \<open>The rest of the text does not continue the number.\<close>

definition no_digit :: "string \<Rightarrow> bool" where
  "no_digit r \<longleftrightarrow> (case r of [] \<Rightarrow> True | c # _ \<Rightarrow> \<not> is_dig c)"

lemma leadingInt_reads:
  assumes "list_all is_dig ds" and "accum x ds \<le> 2 ^ 63" and "no_digit r"
  shows "leadingInt x (ds @ r) = Some (accum x ds, r)"
  using assms(1,2)
proof (induction ds arbitrary: x)
  case Nil
  then show ?case using assms(3) by (cases r) (simp_all add: no_digit_def)
next
  case (Cons c ds)
  have le: "x * 10 + digit_val c \<le> 2 ^ 63"
    using Cons.prems(2) accum_mono [of "x * 10 + digit_val c" ds] by simp
  then have "x \<le> 2 ^ 63 div 10" by simp
  then show ?case using Cons le by (simp add: Let_def)
qed

lemma fl_nat_small: "n < 2 ^ 53 \<Longrightarrow> fl_nat n = n"
  by (simp add: fl_nat_def)

lemma leadingFraction_reads:
  assumes "list_all is_dig ds" and "accum x ds < 2 ^ 53" and "sc * 10 ^ length ds < 2 ^ 53" and "no_digit r"
    and "0 < sc"
  shows "leadingFraction x sc False (ds @ r) = (accum x ds, sc * 10 ^ length ds, r)"
  using assms(1,2,3,5)
proof (induction ds arbitrary: x sc)
  case Nil
  then show ?case using assms(4) by (cases r) (simp_all add: no_digit_def)
next
  case (Cons c ds)
  have le: "x * 10 + digit_val c < 2 ^ 53"
    using Cons.prems(2) accum_mono [of "x * 10 + digit_val c" ds] by simp
  have "sc * 10 * 1 \<le> sc * 10 * 10 ^ length ds" by (rule mult_le_mono2) simp
  moreover have "sc * 10 * 10 ^ length ds < 2 ^ 53" using Cons.prems(3) by (simp only: list.size power_Suc mult.assoc add_0_right add_Suc_right)
  ultimately have "sc * 10 < 2 ^ 53" by linarith
  then have fl: "fl_nat (sc * 10) = sc * 10" by (rule fl_nat_small)
  have IH: "leadingFraction (x * 10 + digit_val c) (sc * 10) False (ds @ r) =
      (accum (x * 10 + digit_val c) ds, sc * 10 * 10 ^ length ds, r)"
    using Cons.prems by (intro Cons.IH) (simp_all add: mult.assoc)
  have "\<not> x > (2 ^ 63 - 1) div 10" "\<not> x * 10 + digit_val c > 2 ^ 63" using le by simp_all
  then show ?case using Cons.prems(1) IH fl by (simp add: Let_def mult.assoc)
qed

subsection \<open>Exact fractions\<close>

lemma bit_length_less: "n < 2 ^ bit_length n"
proof (induction n rule: bit_length.induct)
  case (1 n)
  show ?case
  proof (cases "n = 0")
    case False
    then have "n div 2 < 2 ^ bit_length (n div 2)" by (rule 1)
    then show ?thesis using False by (simp add: bit_length.simps [of n])
  qed (simp add: bit_length.simps)
qed

lemma bit_length_bound: "n < 2 ^ k \<Longrightarrow> bit_length n \<le> k"
proof (cases "n = 0")
  case False
  assume n: "n < 2 ^ k"
  have "2 ^ (bit_length n - 1) \<le> n" using False by (rule bit_length_le)
  then have "(2 :: nat) ^ (bit_length n - 1) < 2 ^ k" using n by linarith
  then have "bit_length n - 1 < k" by simp
  then show ?thesis by simp
qed (simp add: bit_length.simps)

text \<open>A number of at most 53 bits, shifted, is not rounded.\<close>

lemma fl_nat_shift: "c < 2 ^ 53 \<Longrightarrow> fl_nat (c * 2 ^ j) = c * 2 ^ j"
proof -
  assume c: "c < 2 ^ 53"
  show ?thesis
  proof (cases "c * 2 ^ j < 2 ^ 53")
    case True
    then show ?thesis by (rule fl_nat_small)
  next
    case False
    let ?n = "c * 2 ^ j"
    define e where "e = bit_length ?n - 53"
    have "?n < 2 ^ 53 * 2 ^ j" using c by simp
    then have "bit_length ?n \<le> 53 + j" by (intro bit_length_bound) (simp add: power_add)
    then have ej: "e \<le> j" by (simp add: e_def)
    then have dvd: "2 ^ e dvd ?n" by (simp add: dvd_mult le_imp_power_dvd)
    then have "?n mod 2 ^ e = 0" "?n div 2 ^ e * 2 ^ e = ?n" by simp_all
    then show ?thesis using False by (simp add: fl_nat_def Let_def flip: e_def)
  qed
qed

lemma frac_part_exact:
  assumes "0 < scale" and "f * c < 2 ^ 53" and "c < 2 ^ 52" and "f < 2 ^ 53"
  shows "frac_part f (c * scale) scale = f * c"
proof -
  define e where "e = 64 + bit_length scale"
  have "c * scale * 2 ^ e = c * 2 ^ e * scale" by simp
  then have d: "c * scale * 2 ^ e div scale = c * 2 ^ e" "c * scale * 2 ^ e mod scale = 0"
    using assms(1) by (metis nonzero_mult_div_cancel_right not_gr_zero, metis mod_mult_self2_is_0)
  have "2 * (c * 2 ^ e) + 0 = c * 2 ^ Suc e" by simp
  moreover have "fl_nat (c * 2 ^ Suc e) = c * 2 ^ Suc e" using assms(3) by (intro fl_nat_shift) simp
  ultimately have q: "fl_ratio (c * scale) scale = (c * 2 ^ Suc e, Suc e)"
    unfolding fl_ratio_def Let_def e_def [symmetric] d by (simp only: if_True simp_thms)
  have "fl_nat f * (c * 2 ^ Suc e) = f * c * 2 ^ Suc e" using fl_nat_small [OF assms(4)] by simp
  then have "fl_nat (fl_nat f * (c * 2 ^ Suc e)) = f * c * 2 ^ Suc e" by (simp only: fl_nat_shift [OF assms(2)])
  then show ?thesis by (simp add: frac_part_def q)
qed

subsection \<open>What String writes, ParseDuration reads\<close>

definition unit_text :: "string \<Rightarrow> bool" where
  "unit_text us \<longleftrightarrow> us \<noteq> [] \<and> list_all (\<lambda>c. \<not> unit_stop c) us"

definition next_segment :: "string \<Rightarrow> bool" where
  "next_segment r \<longleftrightarrow> r = [] \<or> unit_stop (hd r)"

lemma unit_text_cut:
  assumes "unit_text us" and "next_segment r"
  shows "takeWhile (\<lambda>c. \<not> unit_stop c) (us @ r) = us" and "dropWhile (\<lambda>c. \<not> unit_stop c) (us @ r) = r"
  using assms by (cases r; simp add: unit_text_def next_segment_def list_all_iff takeWhile_append dropWhile_append)+

lemma unit_text_no_digit: "unit_text us \<Longrightarrow> no_digit (us @ r) \<and> hd (us @ r) \<noteq> CHR ''.''"
  by (cases us) (simp_all add: unit_text_def no_digit_def unit_stop_def)

lemma drop_zeros_digits:
  assumes "ds = drop_zeros (pad_dec p v)" and "v < 10 ^ p"
  shows "list_all is_dig ds \<and> length ds \<le> p \<and> dec_val ds * 10 ^ (p - length ds) = v"
proof -
  obtain z where z: "pad_dec p v = ds @ replicate z (CHR ''0'')" using drop_zeros_split assms(1) by blast
  then have len: "length ds + z = p" using pad_dec_length [of p v] by simp
  have "dec_val ds * 10 ^ z = v" using dec_val_pad_dec [OF assms(2)] z dec_val_zeros by metis
  moreover have "list_all is_dig ds" using pad_dec_all_dig [of p v] z by simp
  ultimately show ?thesis using len by auto
qed

lemma opt_fraction_reads:
  assumes "p \<le> 9" and "unit_text us"
  shows "\<exists>f k b. opt_fraction (dur_frac p u @ us @ r) = (f, 10 ^ k, b, us @ r) \<and> k \<le> p \<and> f * 10 ^ (p - k) = u mod 10 ^ p"
proof -
  define ds where "ds = drop_zeros (pad_dec p (u mod 10 ^ p))"
  have ds: "list_all is_dig ds" "length ds \<le> p" "dec_val ds * 10 ^ (p - length ds) = u mod 10 ^ p"
    using drop_zeros_digits [OF ds_def] by simp_all
  show ?thesis
  proof (cases "ds = []")
    case True
    then have "dur_frac p u = []" by (simp add: dur_frac_def flip: ds_def)
    moreover have "opt_fraction (us @ r) = (0, 1, False, us @ r)"
      using unit_text_no_digit [OF assms(2), of r] assms(2) by (cases us) (simp_all add: opt_fraction_def unit_text_def)
    moreover have "u mod 10 ^ p = 0" using ds(3) True by (simp add: dec_val_def)
    ultimately show ?thesis by (intro exI [of _ 0] exI [of _ False]) simp
  next
    case False
    then have df: "dur_frac p u = CHR ''.'' # ds" by (simp add: dur_frac_def Let_def flip: ds_def)
    have "dec_val ds * 1 \<le> dec_val ds * 10 ^ (p - length ds)" by (rule mult_le_mono2) simp
    then have "dec_val ds \<le> u mod 10 ^ p" using ds(3) by simp
    also have "\<dots> < 10 ^ p" by simp
    also have "(10 :: nat) ^ p \<le> 10 ^ 9" using assms(1) by (intro power_increasing) simp_all
    finally have v: "accum 0 ds < 2 ^ 53" by (simp add: accum_dec_val)
    have "(10 :: nat) ^ length ds \<le> 10 ^ 9" using assms(1) ds(2) by (intro power_increasing) simp_all
    then have "1 * 10 ^ length ds < (2 :: nat) ^ 53" by simp
    then have "leadingFraction 0 1 False (ds @ us @ r) = (accum 0 ds, 1 * 10 ^ length ds, us @ r)"
      using ds(1) v unit_text_no_digit [OF assms(2)] by (intro leadingFraction_reads) simp_all
    then have "opt_fraction (dur_frac p u @ us @ r) = (dec_val ds, 10 ^ length ds, True, us @ r)"
      using False by (simp add: opt_fraction_def df accum_dec_val)
    then show ?thesis using ds by blast
  qed
qed

lemma dec_head: "dec n @ r \<noteq> [] \<and> unit_stop (hd (dec n @ r))"
  using dec_not_Nil [of n] dec_all_dig [of n] by (cases "dec n") (simp_all add: unit_stop_def)

text \<open>One segment of the rendering: a whole number, a fraction of \<open>p\<close> digits at most, a unit.\<close>

lemma parse_segment_reads:
  assumes "unitMap us = Some (c * 10 ^ p)" and "unit_text us" and "next_segment r" and "p \<le> 9"
    and "0 < c" and "c * 10 ^ p < 2 ^ 52"
    and "n * (c * 10 ^ p) + u mod 10 ^ p * c \<le> 2 ^ 63"
  shows "parse_segment (dec n @ dur_frac p u @ us @ r) = Inr (n * (c * 10 ^ p) + u mod 10 ^ p * c, r)"
proof -
  let ?U = "c * 10 ^ p"
  obtain f k b where frac: "opt_fraction (dur_frac p u @ us @ r) = (f, 10 ^ k, b, us @ r)" "k \<le> p"
    "f * 10 ^ (p - k) = u mod 10 ^ p" using opt_fraction_reads [OF assms(4,2)] by blast
  have "n * ?U \<le> 2 ^ 63" using assms(7) by simp
  moreover have U: "0 < ?U" using assms(5) by simp
  ultimately have nU: "n \<le> 2 ^ 63 div ?U" by (simp add: less_eq_div_iff_mult_less_eq)
  then have "n \<le> 2 ^ 63" by (meson div_le_dividend le_trans)
  moreover have nd: "no_digit (dur_frac p u @ us @ r)"
    using unit_text_no_digit [OF assms(2), of r]
    by (auto simp: dur_frac_def Let_def no_digit_def is_dig_def)
  ultimately have int: "leadingInt 0 (dec n @ dur_frac p u @ us @ r) = Some (n, dur_frac p u @ us @ r)"
    using leadingInt_reads [OF dec_all_dig, of 0 n] by (simp add: accum_dec_val)
  have pk: "(10 :: nat) ^ p = 10 ^ (p - k) * 10 ^ k" using frac(2) by (simp flip: power_add)
  have fle: "f \<le> u mod 10 ^ p" unfolding frac(3) [symmetric] by simp
  have mp: "u mod 10 ^ p < 10 ^ p" by simp
  have "(10 :: nat) ^ p \<le> ?U" using assms(5) by simp
  then have "f < 2 ^ 52" using fle mp assms(6) by linarith
  then have f52: "f < 2 ^ 53" by simp
  have cm: "c * 10 ^ (p - k) * 10 ^ k = ?U" by (simp add: pk)
  have "c * 10 ^ (p - k) * 1 \<le> c * 10 ^ (p - k) * 10 ^ k" by (rule mult_le_mono2) simp
  then have c52: "c * 10 ^ (p - k) < 2 ^ 52" using cm assms(6) by linarith
  have fc: "f * (c * 10 ^ (p - k)) = u mod 10 ^ p * c" by (simp flip: frac(3))
  have "u mod 10 ^ p * c \<le> 10 ^ p * c" by (rule mult_le_mono1) (use mp in simp)
  then have "f * (c * 10 ^ (p - k)) \<le> c * 10 ^ p" unfolding fc by (simp only: mult.commute)
  also have "\<dots> < 2 ^ 52" by (rule assms(6))
  finally have "f * (c * 10 ^ (p - k)) < 2 ^ 53" by simp
  then have fp: "frac_part f ?U (10 ^ k) = u mod 10 ^ p * c"
    using frac_part_exact [of "10 ^ k" f "c * 10 ^ (p - k)"] c52 f52 fc cm by simp
  have zero: "f = 0 \<Longrightarrow> u mod 10 ^ p = 0" using frac(3) by simp
  have hd: "dec n @ dur_frac p u @ us @ r \<noteq> []" "unit_stop (hd (dec n @ dur_frac p u @ us @ r))" using dec_head [of n] by (blast, blast)
  have pre: "length (dec n @ dur_frac p u @ us @ r) \<noteq> length (dur_frac p u @ us @ r)" using dec_not_Nil by simp
  have "(n * ?U + u mod 10 ^ p * c) mod 2 ^ 64 = n * ?U + u mod 10 ^ p * c" using assms(7) by simp
  then show ?thesis
    unfolding parse_segment_def int frac(1) option.case prod.case
    using hd pre assms(1,2,7) nU zero fp by (simp add: unit_text_cut [OF assms(2,3)] unit_text_def Let_def)
qed

lemma parse_loop_segment:
  assumes "parse_segment s = Inr (w, r)" and "d + w \<le> 2 ^ 63"
  shows "parse_loop d s = parse_loop (d + w) r"
proof -
  have "s \<noteq> []" using parse_segment_consumes [OF assms(1)] by auto
  moreover have "(d + w) mod 2 ^ 64 = d + w" using assms(2) by simp
  ultimately show ?thesis using assms by (subst parse_loop.simps) (simp add: Let_def)
qed

lemmas unit_defs = unitMap_def unit_text_def unit_stop_def is_dig_def

lemma parse_loop_reads:
  assumes "unitMap us = Some (c * 10 ^ p)" and "unit_text us" and "next_segment r" and "p \<le> 9"
    and "0 < c" and "c * 10 ^ p < 2 ^ 52" and "d + (n * (c * 10 ^ p) + u mod 10 ^ p * c) \<le> 2 ^ 63"
  shows "parse_loop d (dec n @ dur_frac p u @ us @ r) = parse_loop (d + (n * (c * 10 ^ p) + u mod 10 ^ p * c)) r"
  using assms by (intro parse_loop_segment parse_segment_reads) simp_all

lemma parse_loop_last:
  assumes "unitMap us = Some (10 ^ p)" and "unit_text us" and "p \<le> 9" and "d + u \<le> 2 ^ 63"
  shows "parse_loop d (dec (u div 10 ^ p) @ dur_frac p u @ us) = Inr (d + u)"
proof -
  have U: "(10 :: nat) ^ p \<le> 10 ^ 9" using assms(3) by (intro power_increasing) simp_all
  have u: "u div 10 ^ p * (1 * 10 ^ p) + u mod 10 ^ p * 1 = u" by (simp only: mult_1 mult_1_right div_mult_mod_eq)
  have "parse_loop d (dec (u div 10 ^ p) @ dur_frac p u @ us @ []) = parse_loop (d + u) []"
  proof -
    have "1 * (10 :: nat) ^ p < 2 ^ 52" using U by simp
    moreover have "unitMap us = Some (1 * 10 ^ p)" "next_segment []" using assms(1) by (simp_all add: next_segment_def)
    ultimately show ?thesis
      using parse_loop_reads [of us 1 p "[]" d "u div 10 ^ p" u, unfolded u] assms(2-4) zero_less_one by blast
  qed
  then show ?thesis by (simp add: parse_loop.simps [of _ "[]"])
qed

lemma dur_frac_0 [simp]: "dur_frac 0 u = []"
  by (simp add: dur_frac_def drop_zeros_def)

lemma parse_loop_whole:
  assumes "unitMap us = Some c" and "unit_text us" and "next_segment r" and "0 < c" and "c < 2 ^ 52"
    and "d + n * c \<le> 2 ^ 63"
  shows "parse_loop d (dec n @ us @ r) = parse_loop (d + n * c) r"
  using parse_loop_reads [of us c 0 r d n 0] assms by simp

lemma unit_texts:
  "unit_text ''ns''" "unit_text [CHR 0xC2, CHR 0xB5, CHR ''s'']" "unit_text ''ms''" "unit_text ''s''" "unit_text ''m''" "unit_text ''h''"
  by (simp_all add: unit_defs)

lemma units:
  "unitMap ''ns'' = Some (10 ^ 0)" "unitMap [CHR 0xC2, CHR 0xB5, CHR ''s''] = Some (10 ^ 3)" "unitMap ''ms'' = Some (10 ^ 6)"
  "unitMap ''s'' = Some (10 ^ 9)" "unitMap ''m'' = Some (60 * 10 ^ 9)" "unitMap ''h'' = Some (3600 * 10 ^ 9)"
  by (simp_all add: unitMap_def)

lemma next_segment_dec: "next_segment (dec n @ r)"
  using dec_head [of n r] by (simp add: next_segment_def)

text \<open>Hours and minutes are whole; the seconds carry the fraction.\<close>

lemma parse_loop_clock:
  assumes "u \<le> 2 ^ 63" and "secs = u div 10 ^ 9" and "mins = secs div 60" and "hours = mins div 60"
  shows "parse_loop 0 ((if hours > 0 then dec hours @ ''h'' else []) @ (if mins > 0 then dec (mins mod 60) @ ''m'' else []) @
    dec (secs mod 60) @ dur_frac 9 u @ ''s'') = Inr u"
proof -
  let ?tail = "dec (secs mod 60) @ dur_frac 9 u @ ''s''"
  let ?mid = "(if mins > 0 then dec (mins mod 60) @ ''m'' else []) @ ?tail"
  let ?h = "hours * (3600 * 10 ^ 9)" and ?m = "mins mod 60 * (60 * 10 ^ 9)" and ?s = "secs mod 60 * 10 ^ 9 + u mod 10 ^ 9"
  have e1: "u = secs * 10 ^ 9 + u mod 10 ^ 9" unfolding assms(2) by (rule div_mult_mod_eq [symmetric])
  have e2: "secs = mins * 60 + secs mod 60" unfolding assms(3) by (rule div_mult_mod_eq [symmetric])
  have e3: "mins = hours * 60 + mins mod 60" unfolding assms(4) by (rule div_mult_mod_eq [symmetric])
  have sum: "?h + ?m + ?s = u" using e1 e2 e3 by simp
  have s: "secs mod 60 = ?s div 10 ^ 9" "u mod 10 ^ 9 = ?s mod 10 ^ 9" by simp_all
  have "dur_frac 9 u = dur_frac 9 ?s" using s(2) by (simp add: dur_frac_def)
  then have tail: "parse_loop d ?tail = Inr (d + ?s)" if "d + ?s \<le> 2 ^ 63" for d
    using parse_loop_last [OF units(4) unit_texts(4), of d ?s] that s(1) by simp
  have mid: "parse_loop ?h ?mid = Inr u"
  proof (cases "mins > 0")
    case True
    have "parse_loop ?h (dec (mins mod 60) @ ''m'' @ ?tail) = parse_loop (?h + ?m) ?tail"
      using sum assms(1) by (intro parse_loop_whole units unit_texts next_segment_dec) simp_all
    also have "\<dots> = Inr u" using tail [of "?h + ?m"] sum assms(1) by simp
    finally show ?thesis using True by simp
  next
    case False
    then have "hours = 0" "?m = 0" using assms(4) by simp_all
    then show ?thesis using False tail [of 0] sum assms(1) by simp
  qed
  have ns: "next_segment ?mid" using next_segment_dec [of "mins mod 60"] next_segment_dec [of "secs mod 60"] by simp
  show ?thesis
  proof (cases "hours > 0")
    case True
    have "parse_loop 0 (dec hours @ ''h'' @ ?mid) = parse_loop (0 + ?h) ?mid"
      using sum assms(1) ns by (intro parse_loop_whole units unit_texts) simp_all
    then show ?thesis using True mid by simp
  next
    case False
    then show ?thesis using mid by simp
  qed
qed

lemma parse_loop_abs: "u \<le> 2 ^ 63 \<Longrightarrow> parse_loop 0 (duration_abs u) = Inr u"
proof -
  assume u: "u \<le> 2 ^ 63"
  have last: "parse_loop 0 (dec (u div 10 ^ p) @ dur_frac p u @ us) = Inr u"
    if "unitMap us = Some (10 ^ p)" "unit_text us" "p \<le> 9" for us p
    using parse_loop_last [OF that, of 0 u] u by simp
  consider "u = 0" | "0 < u" "u < 1000" | "1000 \<le> u" "u < 1000000" | "1000000 \<le> u" "u < 1000000000" | "1000000000 \<le> u"
    by linarith
  then show ?thesis
  proof cases
    case 1
    have "''0s'' = dec (0 div 10 ^ 9) @ dur_frac 9 0 @ ''s''"
      by (simp add: dec.simps [of 0] digit_0 dur_frac_def drop_zeros_def pad_dec_zero)
    then have "parse_loop 0 ''0s'' = Inr 0" using parse_loop_last [OF units(4) unit_texts(4), of 0 0] by (simp only:) simp
    then show ?thesis using 1 by (simp add: duration_abs_def)
  next
    case 2
    then show ?thesis using last [OF units(1) unit_texts(1)] by (simp add: duration_abs_def)
  next
    case 3
    then show ?thesis using last [OF units(2) unit_texts(2)] by (simp add: duration_abs_def)
  next
    case 4
    then show ?thesis using last [OF units(3) unit_texts(3)] by (simp add: duration_abs_def)
  next
    case 5
    have e9: "(10 :: nat) ^ 9 = 1000000000" by simp
    from 5 have "\<not> u = 0" "\<not> u < 1000" "\<not> u < 1000000" "\<not> u < 1000000000" by simp_all
    then show ?thesis
      using parse_loop_clock [OF u refl refl refl, unfolded e9] by (simp only: duration_abs_def Let_def if_False)
  qed
qed

lemma duration_abs_shape:
  "duration_abs u \<noteq> [] \<and> duration_abs u \<noteq> ''0'' \<and> hd (duration_abs u) \<noteq> CHR ''-'' \<and> hd (duration_abs u) \<noteq> CHR ''+''"
proof -
  have hd: "hd (dec n @ r) \<noteq> CHR ''-'' \<and> hd (dec n @ r) \<noteq> CHR ''+''" for n r
    using dec_head [of n r] by (auto simp: unit_stop_def is_dig_def)
  have last: "last (duration_abs u) = CHR ''s''" by (simp add: duration_abs_def Let_def)
  have "duration_abs u \<noteq> [] \<and> hd (duration_abs u) \<noteq> CHR ''-'' \<and> hd (duration_abs u) \<noteq> CHR ''+''"
    unfolding duration_abs_def Let_def using hd by simp
  moreover have "duration_abs u \<noteq> ''0''" using last by auto
  ultimately show ?thesis by simp
qed

lemma ParseDuration_String:
  assumes "- (2 ^ 63) \<le> d" and "d < 2 ^ 63"
  shows "ParseDuration (duration_string d) = Inr d"
proof -
  let ?t = "duration_abs (nat \<bar>d\<bar>)"
  note t = duration_abs_shape [of "nat \<bar>d\<bar>"]
  have "nat \<bar>d\<bar> \<le> 2 ^ 63" using assms by (simp add: nat_le_iff)
  then have loop: "parse_loop 0 ?t = Inr (nat \<bar>d\<bar>)" by (rule parse_loop_abs)
  have "sign_cut (duration_string d) = (d < 0, ?t)"
    using t by (cases ?t) (simp_all add: duration_string_def sign_cut_def)
  moreover have "\<not> 2 ^ 63 - 1 < nat \<bar>d\<bar>" if "\<not> d < 0"
  proof -
    have "nat \<bar>d\<bar> < 2 ^ 63" using that assms(2) by (simp add: nat_less_iff)
    then show ?thesis by simp
  qed
  ultimately show ?thesis using t loop by (cases "d < 0") (simp_all add: ParseDuration_def)
qed

text \<open>
  C22: Every duration survives its text form. Whatever 64-bit value a configuration holds, the text that
  \<open>MarshalText\<close>, \<open>MarshalYAML\<close> and \<open>MarshalJSON\<close> write for it (printing the effective configuration, for instance) is
  read back as exactly that value, to the nanosecond: by \<open>UnmarshalText\<close>, by \<open>UnmarshalYAML\<close> when YAML does not take
  the text for a number, and by \<open>UnmarshalJSON\<close>; the fraction of a second goes through \<open>float64\<close> without loss.
\<close>
theorem duration_round_trip:
  assumes "- (2 ^ 63) \<le> d" and "d < 2 ^ 63"
  shows "UnmarshalText (MarshalText d) = Inr d \<and>
    UnmarshalYAML \<lparr>yn_int64 = None, yn_string = Some (MarshalYAML d)\<rparr> = Inr d \<and>
    MarshalJSON d = json_quote (MarshalText d) \<and> UnmarshalJSON (JString (MarshalText d)) = Inr d"
  using ParseDuration_String [OF assms]
  by (simp add: UnmarshalText_def MarshalText_def MarshalYAML_def MarshalJSON_def UnmarshalYAML_def UnmarshalJSON_def
      json_as_string_def Duration_String_def)

text \<open>The smallest duration there is, whose absolute value does not fit in 64 signed bits.\<close>

theorem duration_round_trip_witness:
  "UnmarshalText (MarshalText (- (2 ^ 63))) = Inr (- (2 ^ 63)) \<and> UnmarshalText (MarshalText 90000000001) = Inr 90000000001"
  using duration_round_trip [of "- (2 ^ 63)"] duration_round_trip [of 90000000001] by simp

text \<open>What is read is always a 64-bit value.\<close>

lemma parse_loop_bound: "parse_loop d s = Inr n \<Longrightarrow> d \<le> 2 ^ 63 \<Longrightarrow> n \<le> 2 ^ 63"
proof (induction d s rule: parse_loop.induct)
  case (1 d s)
  show ?case
  proof (cases "s = []")
    case True
    then show ?thesis using "1.prems" by (simp add: parse_loop.simps)
  next
    case False
    then obtain w r where seg: "parse_segment s = Inr (w, r)"
      using "1.prems"(1) by (subst (asm) parse_loop.simps) (auto split: sum.splits)
    then have "\<not> (d + w) mod 2 ^ 64 > 2 ^ 63" "parse_loop ((d + w) mod 2 ^ 64) r = Inr n"
      using "1.prems"(1) False by (subst (asm) parse_loop.simps, simp add: Let_def split: if_splits)+
    then show ?thesis using "1.IH" [OF False seg refl refl] by simp
  qed
qed

theorem UnmarshalText_int64: "UnmarshalText s = Inr d \<Longrightarrow> - (2 ^ 63) \<le> d \<and> d < 2 ^ 63"
  using parse_loop_bound [of 0]
  by (auto simp: UnmarshalText_def ParseDuration_def split: sum.splits prod.splits if_splits)

text \<open>
  The two orders of decoding. A bare integer in YAML is nanoseconds even where it would also decode as a string; a
  number in JSON is too; JSON's \<open>null\<close>, which decodes into a string without error, is refused as the empty text.
\<close>

theorem bare_integers:
  "UnmarshalYAML \<lparr>yn_int64 = Some n, yn_string = s\<rparr> = Inr n"
  "ParseInt64 t = Some n \<Longrightarrow> UnmarshalJSON (JNumber t) = Inr n"
  "\<exists>e. UnmarshalJSON JNull = Inl e" "UnmarshalJSON JOther = Inl duration_shape"
  by (simp_all add: UnmarshalYAML_def UnmarshalJSON_def json_as_string_def json_as_int64_def UnmarshalText_def ParseDuration_def sign_cut_def)

end
