(* ===== verification/Auth.thy ===== *)
theory Auth
  imports Httpx Sha256 Config Base64
begin

text \<open>
  Caller identity: \<open>internal/auth\<close> (\<open>auth.go\<close>, \<open>middleware.go\<close>). A bearer token is looked up by
  its SHA-256 in the configured clients; everyone else is anonymous and known by an address taken
  from the right of the forwarding chain.
\<close>

subsection \<open>Library functions\<close>

text \<open>\<open>encoding/hex.DecodeString\<close>.\<close>

definition hex_nibble_val :: "char \<Rightarrow> nat option" where
  "hex_nibble_val c =
     (let n = (of_char c :: nat) in
      if 48 \<le> n \<and> n \<le> 57 then Some (n - 48)
      else if 97 \<le> n \<and> n \<le> 102 then Some (n - 87)
      else if 65 \<le> n \<and> n \<le> 70 then Some (n - 55)
      else None)"

fun hex_DecodeString :: "string \<Rightarrow> string option" where
  "hex_DecodeString [] = Some []"
| "hex_DecodeString [c] = None"
| "hex_DecodeString (a # b # s) =
     (case (hex_nibble_val a, hex_nibble_val b, hex_DecodeString s) of
        (Some x, Some y, Some t) \<Rightarrow> Some (char_of (16 * x + y) # t)
      | _ \<Rightarrow> None)"

text \<open>\<open>strings.Split\<close> at a one-byte separator.\<close>

fun split_on :: "char \<Rightarrow> string \<Rightarrow> string list" where
  "split_on sep [] = [[]]"
| "split_on sep (c # cs) =
     (if c = sep then [] # split_on sep cs
      else (case split_on sep cs of [] \<Rightarrow> [[c]] | p # ps \<Rightarrow> (c # p) # ps))"

definition index_byte :: "char \<Rightarrow> string \<Rightarrow> nat option" where
  "index_byte c s = (let k = length (takeWhile (\<lambda>d. d \<noteq> c) s) in if k < length s then Some k else None)"

definition last_index_byte :: "char \<Rightarrow> string \<Rightarrow> nat option" where
  "last_index_byte c s = map_option (\<lambda>k. length s - 1 - k) (index_byte c (rev s))"

text \<open>\<open>net.SplitHostPort\<close>: the host, when the address has the form \<open>host:port\<close> or \<open>[host]:port\<close>.\<close>

definition SplitHostPort :: "string \<Rightarrow> string option" where
  "SplitHostPort hp =
     (case last_index_byte CHR '':'' hp of
        None \<Rightarrow> None
      | Some i \<Rightarrow>
          if hd hp = CHR ''['' then
            (case index_byte CHR '']'' hp of
               None \<Rightarrow> None
             | Some e \<Rightarrow>
                 if e + 1 \<noteq> i then None
                 else if CHR ''['' \<in> set (drop 1 hp) \<or> CHR '']'' \<in> set (drop (e + 1) hp) then None
                 else Some (take (e - 1) (drop 1 hp)))
          else
            (let h = take i hp in
             if CHR '':'' \<in> set h \<or> CHR ''['' \<in> set hp \<or> CHR '']'' \<in> set hp then None else Some h))"

subsection \<open>Resolving a caller (auth.go)\<close>

definition Anonymous :: string where "Anonymous = ''anonymous''"

definition IsAnonymous :: "identity \<Rightarrow> bool" where
  "IsAnonymous i \<longleftrightarrow> id_ClientID i = Anonymous"

record auth_entry =
  cl_id :: string
  cl_tier :: string
  cl_digest :: string

record resolver =
  rs_mode :: string
  rs_realm :: string
  rs_clients :: "auth_entry list"
  rs_hops :: int

definition NewResolver :: "auth_cfg \<Rightarrow> int \<Rightarrow> resolver" where
  "NewResolver cfg hops =
     \<lparr>rs_mode = au_mode cfg, rs_realm = au_realm cfg,
      rs_clients = concat (map (\<lambda>c.
        case hex_DecodeString (lower (ac_token_sha256 c)) of
          None \<Rightarrow> []
        | Some d \<Rightarrow> [\<lparr>cl_id = ac_id c, cl_tier = ac_tier c, cl_digest = d\<rparr>]) (au_clients cfg)),
      rs_hops = hops\<rparr>"

definition bearerToken :: "string \<Rightarrow> string option" where
  "bearerToken h =
     (case cut CHR '' '' h of
        (scheme, rest, found) \<Rightarrow>
          if \<not> found \<or> lower scheme \<noteq> ''bearer'' then None
          else (let token = trim_space rest in if token = [] then None else Some token))"

definition host :: "string \<Rightarrow> string" where
  "host addr = (case SplitHostPort addr of Some h \<Rightarrow> h | None \<Rightarrow> addr)"

definition forwardedFor :: "string \<Rightarrow> string list" where
  "forwardedFor h =
     (if h = [] then []
      else map host (filter (\<lambda>v. v \<noteq> []) (map trim_space (split_on CHR '','' h))))"

definition ClientIP :: "request \<Rightarrow> int \<Rightarrow> string" where
  "ClientIP r hops =
     (let peer = host (rq_RemoteAddr r) in
      if hops \<le> 0 then peer
      else
        (let chain = forwardedFor (header_Get (rq_Header r) ''X-Forwarded-For'') @ [peer];
             i = int (length chain) - 1 - hops in
         if i < 0 then peer else chain ! nat i))"

text \<open>The scan visits every client and keeps the last match.\<close>

definition scan :: "string \<Rightarrow> auth_entry list \<Rightarrow> int" where
  "scan digest cs = fold (\<lambda>(i, c) matched. if digest = cl_digest c then int i else matched) (enumerate 0 cs) (- 1)"

definition Resolve :: "resolver \<Rightarrow> request \<Rightarrow> identity \<times> bool" where
  "Resolve rs r =
     (let anon = \<lparr>id_ClientID = Anonymous, id_Tier = ''anonymous'', id_Key = ClientIP r (rs_hops rs)\<rparr> in
      if rs_mode rs = ''off'' then (anon, True)
      else
        (case bearerToken (header_Get (rq_Header r) ''Authorization'') of
           None \<Rightarrow> (anon, rs_mode rs \<noteq> ''required'')
         | Some token \<Rightarrow>
             (let matched = scan (sha256 token) (rs_clients rs) in
              if matched < 0 then (anon, rs_mode rs \<noteq> ''required'')
              else
                (let c = rs_clients rs ! nat matched in
                 (\<lparr>id_ClientID = cl_id c, id_Tier = cl_tier c, id_Key = cl_id c\<rparr>, True)))))"

definition auth_Into :: "identity \<Rightarrow> ctx \<Rightarrow> ctx" where
  "auth_Into i c = c\<lparr>cx_identity := Some i\<rparr>"

definition auth_From :: "ctx \<Rightarrow> identity" where
  "auth_From c =
     (case cx_identity c of
        Some i \<Rightarrow> i
      | None \<Rightarrow> \<lparr>id_ClientID = Anonymous, id_Tier = ''anonymous'', id_Key = []\<rparr>)"

subsection \<open>The middleware (middleware.go)\<close>

definition auth_outcome :: "identity \<Rightarrow> bool \<Rightarrow> string" where
  "auth_outcome i ok = (if \<not> ok then ''rejected'' else if IsAnonymous i then ''anonymous'' else ''authenticated'')"

definition auth_Middleware :: "resolver \<Rightarrow> 's middleware" where
  "auth_Middleware rs next r w s =
     (case Resolve rs r of
        (i, ok) \<Rightarrow>
          if \<not> ok then
            (WriteProblem r 401 ''a valid bearer token is required''
               (set_header ''WWW-Authenticate'' (''Bearer realm='' @ [CHR 34] @ rs_realm rs @ [CHR 34]) w), None, s)
          else next (WithContext (auth_Into i (rq_Context r)) r) w s)"

subsection \<open>Addresses are counted from the right\<close>

lemma split_on_not_Nil [simp]: "split_on sep s \<noteq> []"
  by (induction s) (auto split: list.splits)

lemma split_on_append: "split_on sep (a @ sep # b) = split_on sep a @ split_on sep b"
  by (induction a) (auto split: list.splits simp: append_eq_Cons_conv)

lemma trim_space_Nil [simp]: "trim_space [] = []"
  by (simp add: trim_space_def trim_left.simps trim_right.simps)

lemma forwardedFor_split:
  "forwardedFor h = map host (filter (\<lambda>v. v \<noteq> []) (map trim_space (split_on CHR '','' h)))"
  by (simp add: forwardedFor_def)

lemma forwardedFor_append: "forwardedFor (a @ '','' @ b) = forwardedFor a @ forwardedFor b"
  by (simp only: forwardedFor_split append_Cons append_Nil split_on_append map_append filter_append)

lemma ClientIP_header:
  assumes "header_Get (rq_Header r) ''X-Forwarded-For'' = v" and "hops > 0"
  shows "ClientIP r hops =
    (if nat hops \<le> length (forwardedFor v) then forwardedFor v ! (length (forwardedFor v) - nat hops)
     else host (rq_RemoteAddr r))"
proof -
  obtain n where n: "hops = int n" "n > 0" using assms(2) by (metis zero_less_imp_eq_int)
  let ?f = "forwardedFor v"
  have i: "nat (int (length (?f @ [host (rq_RemoteAddr r)])) - 1 - hops) = length ?f - n"
    using n by (simp add: nat_diff_distrib)
  show ?thesis
    unfolding ClientIP_def Let_def assms(1) i using n by (auto simp: nth_append)
qed

text \<open>
  C37: A caller cannot choose its address. When the trusted proxies have appended exactly as many entries to the forwarding header as the deployment trusts, the caller's address is the first of those entries, the one the outermost trusted proxy saw, whatever the client put in front of them; and a deployment that trusts no proxy uses the socket's peer, whatever the header says.\<close>
theorem client_ip_not_spoofable:
  assumes "header_Get (rq_Header r) ''X-Forwarded-For'' = forged @ '','' @ appended"
    and "int (length (forwardedFor appended)) = hops" and "hops > 0"
  shows "ClientIP r hops = hd (forwardedFor appended) \<and> ClientIP r 0 = host (rq_RemoteAddr r)"
proof -
  let ?f = "forwardedFor forged" and ?g = "forwardedFor appended"
  have g: "?g \<noteq> []" and h: "nat hops = length ?g" using assms(2,3) by auto
  have "ClientIP r hops = (?f @ ?g) ! length ?f"
    using ClientIP_header [OF assms(1,3)] by (simp only: forwardedFor_append h) simp
  then have "ClientIP r hops = hd ?g" using g by (simp add: nth_append hd_conv_nth)
  then show ?thesis by (simp add: ClientIP_def)
qed

definition demo_get :: "string list \<Rightarrow> request" where
  "demo_get forwarded = \<lparr>rq_Method = ''GET'', rq_Path = ''/tasks'', rq_Header = [''X-Forwarded-For'' \<mapsto> forwarded],
     rq_ContentLength = 0, rq_Body = None, rq_RemoteAddr = ''10.0.0.1:5000'',
     rq_Context = \<lparr>cx_request_id = ''r1'', cx_identity = None, cx_tx = False\<rparr>\<rparr>"

theorem client_ip_not_spoofable_witness:
  "ClientIP (demo_get [''6.6.6.6, 7.7.7.7'' @ '','' @ '' 203.0.113.9, 10.0.0.2:443'']) 2 = ''203.0.113.9''"
proof -
  have f: "forwardedFor '' 203.0.113.9, 10.0.0.2:443'' = [''203.0.113.9'', ''10.0.0.2'']" by code_simp
  show ?thesis
    using client_ip_not_spoofable [of "demo_get [''6.6.6.6, 7.7.7.7'' @ '','' @ '' 203.0.113.9, 10.0.0.2:443'']"
        "''6.6.6.6, 7.7.7.7''" "'' 203.0.113.9, 10.0.0.2:443''" 2] f
    by (simp add: demo_get_def header_Get_def)
qed

text \<open>
  Only the first forwarding header line is read. When a proxy adds its entry as a second X-Forwarded-For line instead of extending the first, the address is computed from the client's own line alone: a client behind one trusted proxy that sends a single entry is known by exactly the address it wrote.\<close>
theorem client_ip_first_line_only:
  assumes "rq_Header r ''X-Forwarded-For'' = Some (forged # added)" and "forwardedFor forged = [a]"
  shows "ClientIP r 1 = a"
  using ClientIP_header [of r forged 1] assms by (simp add: header_Get_def)

theorem client_ip_first_line_only_witness:
  "ClientIP (demo_get [''6.6.6.6'', ''203.0.113.9'']) 1 = ''6.6.6.6''"
proof -
  have f: "forwardedFor ''6.6.6.6'' = [''6.6.6.6'']" by code_simp
  show ?thesis by (rule client_ip_first_line_only [OF _ f]) (simp add: demo_get_def)
qed

subsection \<open>A token names its client\<close>

definition not_upper :: "char \<Rightarrow> bool" where
  "not_upper c \<longleftrightarrow> \<not> (65 \<le> (of_char c :: nat) \<and> of_char c \<le> (90 :: nat))"

lemma lower_not_upper: "list_all not_upper (lower s)"
  by (auto simp: list_all_iff lower_def lower_char_def not_upper_def Let_def)

lemma hex_nibble_val_less: "hex_nibble_val c = Some x \<Longrightarrow> x < 16"
  by (auto simp: hex_nibble_val_def Let_def split: if_splits)

lemma hex_nibble_val_inject:
  assumes "hex_nibble_val c = Some x" "hex_nibble_val d = Some x" "not_upper c" "not_upper d"
  shows "c = d"
proof -
  define m n where "m = (of_char c :: nat)" and "n = (of_char d :: nat)"
  then have "m = n" using assms
    by (auto simp: hex_nibble_val_def not_upper_def Let_def simp flip: m_def n_def split: if_splits)
  then show ?thesis by (simp add: m_def n_def)
qed

lemma byte_inject:
  assumes "char_of (16 * x + y) = (char_of (16 * x' + y') :: char)" "x < 16" "y < 16" "x' < 16" "y' < (16 :: nat)"
  shows "x = x' \<and> y = y'"
proof -
  have "(16 * x + y) mod 256 = (16 * x' + y') mod 256"
    using assms(1) by (metis of_char_of)
  then have eq: "16 * x + y = 16 * x' + y'" using assms(2-5) by simp
  have "x = (16 * x + y) div 16" and "y = (16 * x + y) mod 16" using assms(3) by simp_all
  moreover have "x' = (16 * x' + y') div 16" and "y' = (16 * x' + y') mod 16" using assms(5) by simp_all
  ultimately show ?thesis using eq by simp
qed

lemma hex_DecodeString_inject:
  "hex_DecodeString s = Some d \<Longrightarrow> hex_DecodeString t = Some d \<Longrightarrow> list_all not_upper s \<Longrightarrow>
   list_all not_upper t \<Longrightarrow> s = t"
proof (induction s arbitrary: d t rule: hex_DecodeString.induct)
  case 1
  then show ?case by (cases t rule: hex_DecodeString.cases) (auto split: option.splits)
next
  case (3 a b s)
  from "3.prems"(1) obtain x y u where l: "hex_nibble_val a = Some x" "hex_nibble_val b = Some y"
      "hex_DecodeString s = Some u" "d = char_of (16 * x + y) # u"
    by (auto split: option.splits)
  from "3.prems"(2) l(4) obtain a' b' s' x' y' where r: "t = a' # b' # s'" "hex_nibble_val a' = Some x'"
      "hex_nibble_val b' = Some y'" "hex_DecodeString s' = Some u" "char_of (16 * x + y) = (char_of (16 * x' + y') :: char)"
    by (cases t rule: hex_DecodeString.cases) (auto split: option.splits)
  have "x = x' \<and> y = y'" using byte_inject [OF r(5)] l(1,2) r(2,3) hex_nibble_val_less by blast
  then have "a = a'" "b = b'" using l(1,2) r(1-3) "3.prems"(3,4) hex_nibble_val_inject by auto
  moreover have "s = s'" using "3.IH" [OF l(3) r(4)] r(1) "3.prems"(3,4) by auto
  ultimately show ?case using r(1) by simp
qed simp

lemma scan_Nil [simp]: "scan d [] = - 1"
  by (simp add: scan_def)

lemma scan_snoc [simp]: "scan d (cs @ [c]) = (if d = cl_digest c then int (length cs) else scan d cs)"
  by (simp add: scan_def enumerate_append_eq)

lemma scan_missing: "(\<And>c. c \<in> set cs \<Longrightarrow> cl_digest c \<noteq> d) \<Longrightarrow> scan d cs = - 1"
  by (induction cs rule: rev_induct) auto

lemma scan_found:
  "c \<in> set cs \<Longrightarrow> cl_digest c = d \<Longrightarrow> distinct (map cl_digest cs) \<Longrightarrow> 0 \<le> scan d cs \<and> nat (scan d cs) < length cs \<and> cs ! nat (scan d cs) = c"
proof (induction cs rule: rev_induct)
  case (snoc x xs)
  show ?case
  proof (cases "cl_digest x = d")
    case True
    then have "c = x" using snoc.prems by (auto simp: image_iff)
    with True show ?thesis by (simp add: nth_append)
  next
    case False
    with snoc show ?thesis by (auto simp: nth_append)
  qed
qed simp

text \<open>The digest of a configured client, which validation guarantees to be there.\<close>

definition digest_of :: "auth_client \<Rightarrow> string option" where
  "digest_of c = hex_DecodeString (lower (ac_token_sha256 c))"

lemma rs_clients_iff:
  "e \<in> set (rs_clients (NewResolver cfg hops)) \<longleftrightarrow>
   (\<exists>c \<in> set (au_clients cfg). \<exists>d. digest_of c = Some d \<and> e = \<lparr>cl_id = ac_id c, cl_tier = ac_tier c, cl_digest = d\<rparr>)"
proof -
  have "e \<in> set (case o' of None \<Rightarrow> [] | Some d \<Rightarrow> [g d]) \<longleftrightarrow> (\<exists>d. o' = Some d \<and> e = g d)"
    for g :: "string \<Rightarrow> auth_entry" and o'
    by (cases o') simp_all
  then show ?thesis by (simp add: NewResolver_def digest_of_def)
qed

lemma distinct_digests:
  assumes "distinct (map (\<lambda>c. lower (ac_token_sha256 c)) cs)"
  shows "distinct (map cl_digest (rs_clients (NewResolver (cfg\<lparr>au_clients := cs\<rparr>) hops)))"
  using assms
proof (induction cs)
  case (Cons c cs)
  have "d \<notin> cl_digest ` set (rs_clients (NewResolver (cfg\<lparr>au_clients := cs\<rparr>) hops))" if "digest_of c = Some d" for d
  proof
    assume "d \<in> cl_digest ` set (rs_clients (NewResolver (cfg\<lparr>au_clients := cs\<rparr>) hops))"
    then obtain c' where c': "c' \<in> set cs" "digest_of c' = Some d" by (auto simp: rs_clients_iff)
    with that have "lower (ac_token_sha256 c) = lower (ac_token_sha256 c')"
      unfolding digest_of_def using hex_DecodeString_inject lower_not_upper by metis
    with c'(1) Cons.prems show False by (auto simp: image_iff)
  qed
  with Cons show ?case by (auto simp: NewResolver_def digest_of_def split: option.splits)
qed (simp add: NewResolver_def)

text \<open>
  C36: An accepted configuration resolves every caller to exactly one identity. A caller whose bearer token hashes to a configured client's digest is that client, with its tier and its own quota key, unless authentication is off; every other caller is anonymous and counted by address, and is refused exactly when tokens are required. The client id is therefore always a configured one or the literal anonymous.\<close>
theorem resolve_identity:
  assumes "auth_ok cfg" and "au_mode cfg \<noteq> ''off''"
  shows "(bearerToken (header_Get (rq_Header r) ''Authorization'') = Some token \<and> c \<in> set (au_clients cfg) \<and>
       digest_of c = Some (sha256 token) \<longrightarrow>
       Resolve (NewResolver cfg hops) r = (\<lparr>id_ClientID = ac_id c, id_Tier = ac_tier c, id_Key = ac_id c\<rparr>, True)) \<and>
    ((\<forall>token c. bearerToken (header_Get (rq_Header r) ''Authorization'') = Some token \<and> c \<in> set (au_clients cfg) \<longrightarrow>
        digest_of c \<noteq> Some (sha256 token)) \<longrightarrow>
       Resolve (NewResolver cfg hops) r =
         (\<lparr>id_ClientID = Anonymous, id_Tier = ''anonymous'', id_Key = ClientIP r hops\<rparr>, au_mode cfg \<noteq> ''required''))"
    (is "(?match \<longrightarrow> ?named) \<and> (?none \<longrightarrow> ?anon)")
proof -
  let ?rs = "NewResolver cfg hops"
  have fields: "rs_mode ?rs = au_mode cfg" "rs_hops ?rs = hops" by (simp_all add: NewResolver_def)
  have dist: "distinct (map cl_digest (rs_clients ?rs))"
    using distinct_digests [of "au_clients cfg" cfg hops] assms(1) by (simp add: auth_ok_def)
  have "?named" if ?match
  proof -
    let ?e = "\<lparr>cl_id = ac_id c, cl_tier = ac_tier c, cl_digest = sha256 token\<rparr>"
    have "?e \<in> set (rs_clients ?rs)" using that by (auto simp: rs_clients_iff)
    from scan_found [OF this _ dist] that assms(2) fields show ?thesis by (simp add: Resolve_def Let_def)
  qed
  moreover have "?anon" if ?none
  proof (cases "bearerToken (header_Get (rq_Header r) ''Authorization'')")
    case None
    with assms(2) fields show ?thesis by (simp add: Resolve_def Let_def)
  next
    case (Some t)
    then have "scan (sha256 t) (rs_clients ?rs) = - 1"
      using that by (intro scan_missing) (auto simp: rs_clients_iff)
    with Some assms(2) fields show ?thesis by (simp add: Resolve_def Let_def)
  qed
  ultimately show ?thesis by blast
qed

text \<open>The text of a digest, as an operator would put it into the configuration.\<close>

definition hex_text :: "string \<Rightarrow> string" where
  "hex_text s = concat (map (\<lambda>c. [hex_nibble (of_char c div 16), hex_nibble (of_char c mod 16)]) s)"

lemma nibble_facts:
  assumes "d < 16"
  shows "hex_nibble_val (hex_nibble d) = Some d" "lower_char (hex_nibble d) = hex_nibble d"
    "hex_nibble d \<in> set ''0123456789abcdefABCDEF''"
proof -
  have "list_all (\<lambda>d. hex_nibble_val (hex_nibble d) = Some d \<and> lower_char (hex_nibble d) = hex_nibble d \<and>
      hex_nibble d \<in> set ''0123456789abcdefABCDEF'') [0..<16]"
    by code_simp
  then show "hex_nibble_val (hex_nibble d) = Some d" "lower_char (hex_nibble d) = hex_nibble d"
    "hex_nibble d \<in> set ''0123456789abcdefABCDEF''"
    using assms by (simp_all add: list_all_iff del: upt_rec_numeral)
qed

lemma lower_hex_text: "lower (hex_text s) = hex_text s"
  using of_char_256 by (induction s) (auto simp: hex_text_def lower_def nibble_facts(2) less_mult_imp_div_less)

lemma hex_text_decode: "hex_DecodeString (hex_text s) = Some s"
  using of_char_256 by (induction s) (auto simp: hex_text_def nibble_facts(1) less_mult_imp_div_less)

lemma hex_text_digest: "sha256Hex (hex_text (sha256 t))"
proof -
  have "length (hex_text s) = 2 * length s" for s by (induction s) (simp_all add: hex_text_def)
  moreover have "set (hex_text s) \<subseteq> A" if "\<And>d. d < 16 \<Longrightarrow> hex_nibble d \<in> A" for s A
    using of_char_256 that by (induction s) (auto simp: hex_text_def less_mult_imp_div_less)
  ultimately show ?thesis using nibble_facts(3) unfolding sha256Hex_def by simp
qed

definition demo_auth :: auth_cfg where
  "demo_auth = \<lparr>au_mode = ''required'', au_realm = ''tasks'',
     au_clients = [\<lparr>ac_id = ''demo'', ac_tier = ''standard'', ac_token_sha256 = hex_text (sha256 ''s3cret'')\<rparr>]\<rparr>"

theorem resolve_identity_witness:
  "Resolve (NewResolver demo_auth 0) ((demo_get [])\<lparr>rq_Header := [''Authorization'' \<mapsto> [''bearer s3cret'']]\<rparr>) =
     (\<lparr>id_ClientID = ''demo'', id_Tier = ''standard'', id_Key = ''demo''\<rparr>, True) \<and>
   snd (Resolve (NewResolver demo_auth 0) (demo_get [])) = False"
proof -
  have ok: "auth_ok demo_auth" by (simp add: auth_ok_def demo_auth_def client_ok_def hex_text_digest trim_eval)
  have mode: "au_mode demo_auth \<noteq> ''off''" by (simp add: demo_auth_def)
  let ?c = "\<lparr>ac_id = ''demo'', ac_tier = ''standard'', ac_token_sha256 = hex_text (sha256 ''s3cret'')\<rparr>"
  have tok: "bearerToken ''bearer s3cret'' = Some ''s3cret''" "bearerToken [] = None" by code_simp+
  have "?c \<in> set (au_clients demo_auth) \<and> digest_of ?c = Some (sha256 ''s3cret'')"
    by (simp add: demo_auth_def digest_of_def lower_hex_text hex_text_decode)
  with resolve_identity [OF ok mode, of "(demo_get [])\<lparr>rq_Header := [''Authorization'' \<mapsto> [''bearer s3cret'']]\<rparr>" "''s3cret''" ?c 0]
    resolve_identity [OF ok mode, of "demo_get []" _ _ 0] tok
  show ?thesis by (simp add: header_Get_def demo_get_def demo_auth_def)
qed

end
