(* ===== verification/Ratelimit.thy ===== *)
theory Ratelimit
  imports Auth Backoff "HOL-Library.AList"
begin

text \<open>
  Protection from callers: \<open>internal/ratelimit\<close> (\<open>limiter.go\<close>, \<open>middleware.go\<close>,
  \<open>inflight.go\<close>). The token bucket itself is \<open>golang.org/x/time/rate\<close>, a parameter: a record of
  the operations the limiter calls on it. A decision is atomic here; in the code only the choice
  of the bucket is under the limiter's mutex and the bucket locks itself.
\<close>

subsection \<open>Fractions of a second in float64\<close>

text \<open>
  A quotient rounded to 53 bits: enough digits are kept in front of a sticky bit that the integer
  rounding of \<open>Backoff\<close> breaks ties as the exact quotient would.
\<close>

definition fl_quot :: "nat \<Rightarrow> nat \<Rightarrow> rat" where
  "fl_quot n d =
     (let k = 55 + bit_length d; q = n * 2 ^ k div d; sticky = (if n * 2 ^ k mod d = 0 then 0 else 1) in
      of_nat (fl_nat (2 * q + sticky)) / 2 ^ (k + 1))"

definition fl_rat :: "rat \<Rightarrow> rat" where
  "fl_rat x =
     (case quotient_of x of
        (n, d) \<Rightarrow> if n < 0 then - fl_quot (nat (- n)) (nat d) else fl_quot (nat n) (nat d))"

text \<open>\<open>Duration.Seconds\<close> of a duration that is not negative.\<close>

definition dur_seconds :: "duration \<Rightarrow> rat" where
  "dur_seconds d = fl_rat (of_int (fl (d div second)) + fl_rat (of_int (d mod second) / 10 ^ 9))"

definition round_half_away :: "rat \<Rightarrow> int" where
  "round_half_away x = (if x < 0 then - \<lfloor>- x + 1 / 2\<rfloor> else \<lfloor>x + 1 / 2\<rfloor>)"

subsection \<open>The limiter (limiter.go)\<close>

record ('b, 'v) rate_lib =
  rt_NewLimiter :: "float64 \<Rightarrow> int \<Rightarrow> 'b"
  rt_AllowN :: "time \<Rightarrow> 'b \<Rightarrow> bool \<times> 'b"
  rt_TokensAt :: "time \<Rightarrow> 'b \<Rightarrow> int"
  rt_ReserveN :: "time \<Rightarrow> 'b \<Rightarrow> 'v \<times> 'b"
  rt_DelayFrom :: "time \<Rightarrow> 'v \<Rightarrow> duration"
  rt_CancelAt :: "time \<Rightarrow> 'v \<Rightarrow> 'b \<Rightarrow> 'b"

record 'b bucket =
  bk_limiter :: 'b
  bk_tier :: string
  bk_seen :: time

record 'b limiter =
  lm_cfg :: ratelimit_cfg
  lm_buckets :: "(string \<times> 'b bucket) list"

definition limiter_New :: "ratelimit_cfg \<Rightarrow> 'b limiter" where
  "limiter_New cfg = \<lparr>lm_cfg = cfg, lm_buckets = []\<rparr>"

record decision =
  dc_Allowed :: bool
  dc_Limit :: int
  dc_Window :: duration
  dc_Remaining :: int
  dc_Reset :: duration
  dc_Tier :: string

definition limiter_quota :: "'b limiter \<Rightarrow> string \<Rightarrow> quota_cfg" where
  "limiter_quota l tier =
     (if tier = ''internal'' then rl_internal (lm_cfg l)
      else if tier = ''standard'' then rl_standard (lm_cfg l)
      else rl_anonymous (lm_cfg l))"

text \<open>
  \<open>refill\<close>. A rate that is not a number is not \<open><= 0\<close> and makes the quotient not a number, and
  \<open>max\<close> keeps that; converting it has no defined result, so the model stays at one second there.
\<close>

definition refill :: "quota_cfg \<Rightarrow> duration" where
  "refill q =
     (if f_le (qt_rate q) 0 then second
      else
        (case qt_rate q of
           Finite rate \<Rightarrow> (let seconds = \<lceil>fl_rat (of_int (fl (qt_burst q)) / rate)\<rceil> in max seconds 1 * second)
         | _ \<Rightarrow> second))"

definition Allow ::
  "('b, 'v) rate_lib \<Rightarrow> time \<Rightarrow> time \<Rightarrow> identity \<Rightarrow> 'b limiter \<Rightarrow> decision \<times> 'b limiter" where
  "Allow lib seen now i l =
     (let quota = limiter_quota l (id_Tier i);
          fresh = \<lparr>bk_limiter = rt_NewLimiter lib (qt_rate quota) (qt_burst quota), bk_tier = id_Tier i, bk_seen = seen\<rparr>;
          b = (case map_of (lm_buckets l) (id_Key i) of
                 None \<Rightarrow> fresh
               | Some b \<Rightarrow> if bk_tier b \<noteq> id_Tier i then fresh else b\<lparr>bk_seen := seen\<rparr>);
          (allowed, lim) = rt_AllowN lib now (bk_limiter b);
          remaining = max (rt_TokensAt lib now lim) 0;
          (reset, lim') =
            (if allowed then (0, lim)
             else
               (let (v, lim1) = rt_ReserveN lib now lim in
                (rt_DelayFrom lib now v, rt_CancelAt lib now v lim1))) in
      (\<lparr>dc_Allowed = allowed, dc_Limit = qt_burst quota, dc_Window = refill quota, dc_Remaining = remaining,
        dc_Reset = reset, dc_Tier = id_Tier i\<rparr>,
       l\<lparr>lm_buckets := AList.update (id_Key i) (b\<lparr>bk_limiter := lim'\<rparr>) (lm_buckets l)\<rparr>))"

definition limiter_Len :: "'b limiter \<Rightarrow> nat" where
  "limiter_Len l = length (lm_buckets l)"

definition Sweep :: "time \<Rightarrow> 'b limiter \<Rightarrow> nat \<times> 'b limiter" where
  "Sweep now l =
     (let cutoff = now - rl_key_ttl (lm_cfg l);
          idle = (\<lambda>kb. bk_seen (snd kb) < cutoff) in
      (length (filter idle (lm_buckets l)), l\<lparr>lm_buckets := filter (\<lambda>kb. \<not> idle kb) (lm_buckets l)\<rparr>))"

subsection \<open>The middleware (middleware.go, inflight.go)\<close>

definition writeHeaders :: "decision \<Rightarrow> writer \<Rightarrow> writer" where
  "writeHeaders d w =
     (let window = round_half_away (dur_seconds (dc_Window d));
          reset = \<lceil>dur_seconds (dc_Reset d)\<rceil> in
      set_header ''RateLimit-Reset'' (itoa reset)
        (set_header ''RateLimit-Remaining'' (itoa (dc_Remaining d))
          (set_header ''RateLimit-Limit'' (itoa (dc_Limit d))
            (set_header ''RateLimit'' (''limit='' @ itoa (dc_Limit d) @ '', remaining='' @ itoa (dc_Remaining d) @
                '', reset='' @ itoa reset)
              (set_header ''RateLimit-Policy'' (itoa (dc_Limit d) @ '';w='' @ itoa window) w)))))"

definition retryAfter :: "duration \<Rightarrow> string" where
  "retryAfter d = itoa (max \<lceil>dur_seconds d\<rceil> 1)"

text \<open>What the public handler chain carries beside the application: slots in use and the limiter.\<close>

record ('b, 'i) chain_state =
  ch_slots :: nat
  ch_limiter :: "'b limiter"
  ch_inner :: 'i

definition ratelimit_Middleware ::
  "('b, 'v) rate_lib \<Rightarrow> time \<Rightarrow> time \<Rightarrow> ('b, 'i) chain_state middleware" where
  "ratelimit_Middleware lib seen now next r w s =
     (let i = auth_From (rq_Context r) in
      case Allow lib seen now i (ch_limiter s) of
        (d, l) \<Rightarrow>
          (let w1 = writeHeaders d w; s1 = s\<lparr>ch_limiter := l\<rparr> in
           if dc_Allowed d then next r w1 s1
           else
             (WriteProblem r 429 (''rate limit exceeded for the '' @ id_Tier i @ '' tier'')
                (set_header ''Retry-After'' (retryAfter (dc_Reset d)) w1), None, s1)))"

definition slots_take :: "int \<Rightarrow> nat \<Rightarrow> nat option" where
  "slots_take limit n = (if int n < limit then Some (n + 1) else None)"

definition Inflight :: "int \<Rightarrow> ('b, 'i) chain_state middleware" where
  "Inflight limit next r w s =
     (case slots_take limit (ch_slots s) of
        None \<Rightarrow>
          (WriteProblem r 503 ''too many requests in flight; retry shortly''
             (set_header ''Retry-After'' ''1'' w), None, s)
      | Some n \<Rightarrow>
          (case next r w (s\<lparr>ch_slots := n\<rparr>) of
             (w', p, s') \<Rightarrow> (w', p, s'\<lparr>ch_slots := ch_slots s' - 1\<rparr>)))"

subsection \<open>One caller's quota is its own\<close>

lemma Allow_bucket:
  "\<exists>b. snd (Allow lib seen now i l) = l\<lparr>lm_buckets := AList.update (id_Key i) b (lm_buckets l)\<rparr> \<and>
     bk_tier b = id_Tier i \<and> bk_seen b = seen"
  by (auto simp: Allow_def Let_def split: prod.splits option.splits)

lemma Allow_other:
  assumes "k \<noteq> id_Key i"
  shows "map_of (lm_buckets (snd (Allow lib seen now i l))) k = map_of (lm_buckets l) k"
    and "lm_cfg (snd (Allow lib seen now i l)) = lm_cfg l"
  using Allow_bucket [of lib seen now i l] assms by (auto simp: update_conv')

lemma Allow_decision_local:
  assumes "map_of (lm_buckets l) (id_Key i) = map_of (lm_buckets l') (id_Key i)" and "lm_cfg l = lm_cfg l'"
  shows "fst (Allow lib seen now i l) = fst (Allow lib seen now i l')"
  unfolding Allow_def limiter_quota_def assms Let_def by (simp add: case_prod_beta)

text \<open>Checks by other callers, one after another.\<close>

definition others :: "('b, 'v) rate_lib \<Rightarrow> (time \<times> time \<times> identity) list \<Rightarrow> 'b limiter \<Rightarrow> 'b limiter" where
  "others lib calls l = fold (\<lambda>(seen, now, i) l. snd (Allow lib seen now i l)) calls l"

lemma others_local:
  assumes "list_all (\<lambda>(seen, now, j). id_Key j \<noteq> k) calls"
  shows "map_of (lm_buckets (others lib calls l)) k = map_of (lm_buckets l) k \<and> lm_cfg (others lib calls l) = lm_cfg l"
  using assms unfolding others_def
proof (induction calls arbitrary: l)
  case (Cons c calls)
  obtain seen now j where c: "c = (seen, now, j)" by (metis prod_cases3)
  with Cons.prems have "k \<noteq> id_Key j" by auto
  from Allow_other [OF this, of lib seen now l] Cons.IH [of "snd (Allow lib seen now j l)"] Cons.prems c
  show ?case by simp
qed simp

text \<open>
  C38: One caller cannot spend another's quota. Whatever sequence of checks other callers make, the decision for a caller, whether it is allowed, what remains and when it may retry, is the one it would have had without them.\<close>
theorem quota_isolated:
  assumes "list_all (\<lambda>(seen, now, j). id_Key j \<noteq> id_Key i) calls"
  shows "fst (Allow lib seen now i (others lib calls l)) = fst (Allow lib seen now i l)"
  using others_local [OF assms, of lib l] by (intro Allow_decision_local) simp_all

text \<open>A bucket that never refills, for the examples.\<close>

definition demo_rate :: "(int, unit) rate_lib" where
  "demo_rate = \<lparr>rt_NewLimiter = (\<lambda>r b. b), rt_AllowN = (\<lambda>t n. if n > 0 then (True, n - 1) else (False, n)),
     rt_TokensAt = (\<lambda>t n. n), rt_ReserveN = (\<lambda>t n. ((), n - 1)), rt_DelayFrom = (\<lambda>t v. 100 * millisecond),
     rt_CancelAt = (\<lambda>t v n. n + 1)\<rparr>"

definition demo_caller :: "string \<Rightarrow> identity" where
  "demo_caller ip = \<lparr>id_ClientID = Anonymous, id_Tier = ''anonymous'', id_Key = ip\<rparr>"

theorem quota_isolated_witness:
  "fst (Allow demo_rate 2 2 (demo_caller ''b'')
     (others demo_rate [(1, 1, demo_caller ''a''), (1, 1, demo_caller ''a'')] (limiter_New ratelimit_defaults))) =
   fst (Allow demo_rate 2 2 (demo_caller ''b'') (limiter_New ratelimit_defaults))"
  by (rule quota_isolated) (simp add: demo_caller_def)

subsection \<open>The map of buckets stays bounded\<close>

datatype limiter_op = Check time time identity | SweepAt time

definition limiter_step :: "('b, 'v) rate_lib \<Rightarrow> limiter_op \<Rightarrow> 'b limiter \<Rightarrow> 'b limiter" where
  "limiter_step lib op l = (case op of Check seen now i \<Rightarrow> snd (Allow lib seen now i l) | SweepAt t \<Rightarrow> snd (Sweep t l))"

definition limiter_run :: "('b, 'v) rate_lib \<Rightarrow> limiter_op list \<Rightarrow> 'b limiter \<Rightarrow> 'b limiter" where
  "limiter_run lib ops l = fold (limiter_step lib) ops l"

fun checked_since :: "time \<Rightarrow> limiter_op \<Rightarrow> string option" where
  "checked_since t (Check seen now i) = (if seen \<ge> t then Some (id_Key i) else None)"
| "checked_since t (SweepAt u) = None"

text \<open>Every bucket was made or used by a check of its key, at the time it remembers.\<close>

definition buckets_seen :: "limiter_op list \<Rightarrow> 'b limiter \<Rightarrow> bool" where
  "buckets_seen ops l \<longleftrightarrow> distinct (map fst (lm_buckets l)) \<and>
     (\<forall>(k, b) \<in> set (lm_buckets l). \<exists>now i. Check (bk_seen b) now i \<in> set ops \<and> id_Key i = k)"

lemma set_AList_update: "set (AList.update k v al) \<subseteq> insert (k, v) (set al)"
  by (induction al) auto

lemma buckets_seen_step:
  assumes "buckets_seen ops l"
  shows "buckets_seen (ops @ [op]) (limiter_step lib op l)"
proof (cases op)
  case (Check seen now i)
  obtain b where b: "snd (Allow lib seen now i l) = l\<lparr>lm_buckets := AList.update (id_Key i) b (lm_buckets l)\<rparr>" "bk_seen b = seen"
    using Allow_bucket by blast
  have "distinct (map fst (AList.update (id_Key i) b (lm_buckets l)))"
    using assms by (auto simp: buckets_seen_def intro: distinct_update)
  moreover have "\<exists>now' j. Check (bk_seen b') now' j \<in> set (ops @ [op]) \<and> id_Key j = k"
    if "(k, b') \<in> set (AList.update (id_Key i) b (lm_buckets l))" for k b'
  proof (cases "(k, b') = (id_Key i, b)")
    case True
    with b(2) Check show ?thesis by auto
  next
    case False
    with that set_AList_update have "(k, b') \<in> set (lm_buckets l)" by fastforce
    with assms show ?thesis by (fastforce simp: buckets_seen_def)
  qed
  ultimately show ?thesis using Check b(1) by (auto simp: buckets_seen_def limiter_step_def)
next
  case (SweepAt t)
  with assms show ?thesis
    by (fastforce simp: buckets_seen_def limiter_step_def Sweep_def Let_def distinct_map_filter)
qed

lemma buckets_seen_run: "buckets_seen ops (limiter_run lib ops (limiter_New cfg))"
proof (induction ops rule: rev_induct)
  case Nil
  then show ?case by (simp add: buckets_seen_def limiter_run_def limiter_New_def)
next
  case (snoc op ops)
  from buckets_seen_step [OF this] show ?case by (simp add: limiter_run_def)
qed

lemma limiter_run_cfg: "lm_cfg (limiter_run lib ops l) = lm_cfg l"
proof (induction ops rule: rev_induct)
  case (snoc op ops)
  then show ?case
    using Allow_bucket [of lib] by (cases op) (auto simp: limiter_run_def limiter_step_def Sweep_def Let_def, metis limiter.select_convs(1) limiter.surjective limiter.update_convs(2))
qed (simp add: limiter_run_def)

text \<open>
  The limiter's memory is bounded by its recent callers. After any history of checks and sweeps, a sweep leaves a bucket only for a key that was checked within the time to live before it, one bucket per key; so their number is at most the number of keys checked within that time.\<close>
theorem sweep_bounds_buckets:
  assumes "l = snd (Sweep t (limiter_run lib ops (limiter_New cfg)))"
  shows "distinct (map fst (lm_buckets l)) \<and>
    set (map fst (lm_buckets l)) \<subseteq> {k. \<exists>op \<in> set ops. checked_since (t - rl_key_ttl cfg) op = Some k} \<and>
    limiter_Len l \<le> card {k. \<exists>op \<in> set ops. checked_since (t - rl_key_ttl cfg) op = Some k}"
proof -
  let ?l0 = "limiter_run lib ops (limiter_New cfg)"
  let ?K = "{k. \<exists>op \<in> set ops. checked_since (t - rl_key_ttl cfg) op = Some k}"
  have cfg: "lm_cfg ?l0 = cfg" by (simp add: limiter_run_cfg limiter_New_def)
  have l: "lm_buckets l = filter (\<lambda>kb. \<not> bk_seen (snd kb) < t - rl_key_ttl cfg) (lm_buckets ?l0)"
    using assms by (simp add: Sweep_def cfg Let_def)
  have d: "distinct (map fst (lm_buckets l))"
    using buckets_seen_run [of ops lib cfg] by (simp add: l buckets_seen_def distinct_map_filter)
  have sub: "set (map fst (lm_buckets l)) \<subseteq> ?K"
  proof
    fix k assume "k \<in> set (map fst (lm_buckets l))"
    then obtain b where b: "(k, b) \<in> set (lm_buckets ?l0)" "bk_seen b \<ge> t - rl_key_ttl cfg" by (auto simp: l)
    then obtain now i where "Check (bk_seen b) now i \<in> set ops" "id_Key i = k"
      using buckets_seen_run [of ops lib cfg] by (fastforce simp: buckets_seen_def)
    with b(2) show "k \<in> ?K" by (auto intro!: bexI)
  qed
  have "?K \<subseteq> (\<lambda>op. the (checked_since (t - rl_key_ttl cfg) op)) ` set ops"
    by (force simp: image_iff)
  then have "finite ?K" by (rule finite_subset) simp
  then have "card (set (map fst (lm_buckets l))) \<le> card ?K" using sub by (rule card_mono)
  moreover have "limiter_Len l = card (set (map fst (lm_buckets l)))"
    using distinct_card [OF d] by (simp only: limiter_Len_def length_map)
  ultimately show ?thesis using d sub by presburger
qed

theorem sweep_bounds_buckets_witness:
  "limiter_Len (snd (Sweep (1200 * second) (limiter_run demo_rate
      [Check 0 0 (demo_caller ''a''), Check (1000 * second) (1000 * second) (demo_caller ''b'')] (limiter_New ratelimit_defaults)))) \<le>
   card {k. \<exists>op \<in> set [Check 0 0 (demo_caller ''a''), Check (1000 * second) (1000 * second) (demo_caller ''b'')].
     checked_since (1200 * second - rl_key_ttl ratelimit_defaults) op = Some k}"
  using sweep_bounds_buckets [OF refl, of "1200 * second" demo_rate
      "[Check 0 0 (demo_caller ''a''), Check (1000 * second) (1000 * second) (demo_caller ''b'')]" ratelimit_defaults]
  by blast

subsection \<open>Requests in flight\<close>

text \<open>
  Requests arriving at and leaving the semaphore, in any order; the numbers name requests.
\<close>

datatype slot_event = Arrive nat | Leave nat

fun slot_step :: "int \<Rightarrow> slot_event \<Rightarrow> nat \<times> nat list \<Rightarrow> nat \<times> nat list" where
  "slot_step limit (Arrive q) (n, running) =
     (if q \<in> set running then (n, running)
      else (case slots_take limit n of None \<Rightarrow> (n, running) | Some m \<Rightarrow> (m, q # running)))"
| "slot_step limit (Leave q) (n, running) =
     (if q \<in> set running then (n - 1, remove1 q running) else (n, running))"

definition slot_run :: "int \<Rightarrow> slot_event list \<Rightarrow> nat \<times> nat list" where
  "slot_run limit evs = fold (slot_step limit) evs (0, [])"

definition slots_ok :: "int \<Rightarrow> nat \<times> nat list \<Rightarrow> bool" where
  "slots_ok limit st \<longleftrightarrow> fst st = length (snd st) \<and> distinct (snd st) \<and> int (fst st) \<le> max limit 0"

lemma slot_step_ok: "slots_ok limit st \<Longrightarrow> slots_ok limit (slot_step limit ev st)"
  by (cases st; cases ev) (auto simp: slots_ok_def slots_take_def length_remove1)

text \<open>
  The semaphore counts exactly the requests being served. However requests arrive and leave, the slots in use are the admitted requests that have not left, never more than the limit; and around any handler that leaves the count as it found it, the middleware gives its slot back, also when the handler panics, and runs the handler only when a slot was free.\<close>
theorem inflight_bounded:
  assumes "\<And>r w s w' p s'. h r w s = (w', p, s') \<Longrightarrow> ch_slots s' = ch_slots s"
    and "Inflight limit h r w s = (w', p, s')"
  shows "fst (slot_run limit evs) = length (snd (slot_run limit evs)) \<and>
    int (fst (slot_run limit evs)) \<le> max limit 0 \<and>
    ch_slots s' = ch_slots s \<and> (int (ch_slots s) \<ge> limit \<longrightarrow> s' = s \<and> p = None)"
proof -
  have "slots_ok limit (fold (slot_step limit) evs st)" if "slots_ok limit st" for st
    using that by (induction evs arbitrary: st) (simp_all add: slot_step_ok)
  from this [of "(0, [])"] have "slots_ok limit (slot_run limit evs)" unfolding slot_run_def by (simp add: slots_ok_def)
  moreover have "ch_slots s' = ch_slots s \<and> (int (ch_slots s) \<ge> limit \<longrightarrow> s' = s \<and> p = None)"
    using assms(2) by (auto simp: Inflight_def slots_take_def split: if_splits prod.splits dest!: assms(1))
  ultimately show ?thesis by (simp add: slots_ok_def)
qed

theorem inflight_bounded_witness:
  "fst (slot_run 2 [Arrive 1, Arrive 2, Arrive 3, Leave 1, Arrive 3]) = 2 \<and>
   ch_slots (snd (snd (Inflight 2 (\<lambda>r w s. (w, Some (PanicValue ''boom''), s)) (demo_get []) conn_writer
     \<lparr>ch_slots = 1, ch_limiter = limiter_New ratelimit_defaults :: int limiter, ch_inner = ()\<rparr>))) = 1"
proof -
  have "fst (slot_run 2 [Arrive 1, Arrive 2, Arrive 3, Leave 1, Arrive 3]) = 2"
    by (simp add: slot_run_def slots_take_def)
  moreover obtain w' p s' where i: "Inflight 2 (\<lambda>r w s. (w, Some (PanicValue ''boom''), s)) (demo_get []) conn_writer
     \<lparr>ch_slots = 1, ch_limiter = limiter_New ratelimit_defaults :: int limiter, ch_inner = ()\<rparr> = (w', p, s')"
    by (metis prod_cases3)
  moreover have "ch_slots s' = 1" using inflight_bounded [OF _ i, of "[]"] by simp
  ultimately show ?thesis by simp
qed

end
