(* ===== verification/Runtime.thy ===== *)
theory Runtime
  imports Ratelimit Idempotency_Mem
begin

text \<open>
  The public handler chain: \<open>wrap\<close> of \<open>internal/runtime/handler.go\<close>, the order in which a request
  passes the middlewares of \<open>Httpx\<close>, \<open>Auth\<close>, \<open>Ratelimit\<close> and \<open>Idempotency\<close>. Tracing, metrics and
  the logger, which pass every request through, are left out. The middlewares from the body limit
  inwards work on the application's state alone and are lifted to the chain's state as a whole.
\<close>

record ('b, 'v, 'u, 'i) rt_options =
  o_MaxBodyBytes :: int
  o_Idempotency :: "('u, 'i) idem_store option"
  o_IdempotencyConfig :: idempotency_cfg
  o_Auth :: "resolver option"
  o_RateLimit :: "('b, 'v) rate_lib option"
  o_GlobalInflight :: int

text \<open>What one request draws from outside: a fresh id, the clock, the store's surroundings.\<close>

record rt_env =
  re_uuid :: string
  re_seen :: time
  re_now :: time
  re_idem :: idem_env

definition lift_inner :: "'i handler \<Rightarrow> ('b, 'i) chain_state handler" where
  "lift_inner h r w s = (case h r w (ch_inner s) of (w', p, i') \<Rightarrow> (w', p, s\<lparr>ch_inner := i'\<rparr>))"

definition inner_chain ::
  "('b, 'v, 'u, 'i) rt_options \<Rightarrow> rt_env \<Rightarrow> 'i handler \<Rightarrow> 'i handler" where
  "inner_chain o' e h =
     Chain h ([Deprecation, MaxBody (o_MaxBodyBytes o')] @
       (case o_Idempotency o' of
          None \<Rightarrow> []
        | Some store \<Rightarrow> [idempotency_Middleware store (o_IdempotencyConfig o') (re_idem e)]))"

definition guards ::
  "('b, 'v, 'u, 'i) rt_options \<Rightarrow> rt_env \<Rightarrow> ('b, 'i) chain_state middleware list" where
  "guards o' e =
     (if o_GlobalInflight o' > 0 then [Inflight (o_GlobalInflight o')] else []) @
     (case o_Auth o' of None \<Rightarrow> [] | Some rs \<Rightarrow> [auth_Middleware rs]) @
     (case o_RateLimit o' of None \<Rightarrow> [] | Some lib \<Rightarrow> [ratelimit_Middleware lib (re_seen e) (re_now e)])"

definition wrap ::
  "('b, 'v, 'u, 'i) rt_options \<Rightarrow> rt_env \<Rightarrow> 'i handler \<Rightarrow> ('b, 'i) chain_state handler" where
  "wrap o' e h =
     Chain (lift_inner (inner_chain o' e h)) ([RequestID (re_uuid e), Recover] @ guards o' e)"

subsection \<open>Composition\<close>

lemma Chain_Nil [simp]: "Chain h [] = h"
  by (simp add: Chain_def)

lemma Chain_Cons [simp]: "Chain h (m # ms) = m (Chain h ms)"
  by (simp add: Chain_def)

lemma Chain_append: "Chain h (ms @ ns) = Chain (Chain h ns) ms"
  by (simp add: Chain_def)

lemma Resolve_context [simp]: "Resolve rs (WithContext c r) = Resolve rs r"
proof -
  have "rq_Header (WithContext c r) = rq_Header r" and "rq_RemoteAddr (WithContext c r) = rq_RemoteAddr r"
    by (simp_all add: WithContext_def)
  then show ?thesis by (simp only: Resolve_def ClientIP_def)
qed

lemma WriteProblem_status:
  assumes "\<not> w_wrote w" and "status \<noteq> 500"
  shows "w_status (WriteProblem r status d w) = status"
  using assms by (simp add: WriteProblem_def set_header_def WriteHeader_def Write_def Let_def)

lemma set_header_wrote [simp]: "w_wrote (set_header n v w) = w_wrote w"
  by (simp add: set_header_def)

lemma writeHeaders_wrote [simp]: "w_wrote (writeHeaders d w) = w_wrote w"
  by (simp add: writeHeaders_def Let_def)

lemma conn_writer_wrote [simp]: "\<not> w_wrote conn_writer"
  by (simp add: conn_writer_def)

text \<open>
  C30: A refused request costs nothing further in. With the in-flight limit reached, the answer is 503 and nothing at all has changed: no quota was charged and no handler or store was reached. With a slot free but the token refused, the answer is 401 and again nothing has changed. With the caller's quota exhausted, the answer is 429, and only the limiter knows of the request: the slot is given back and the application's state, its idempotency keys included, is untouched.\<close>
theorem refused_requests_stop:
  assumes "o_GlobalInflight o' > 0" and "o_Auth o' = Some rs" and "o_RateLimit o' = Some lib"
    and "wrap o' e h r conn_writer s = (w', p, s')"
  shows "(int (ch_slots s) \<ge> o_GlobalInflight o' \<longrightarrow> w_status w' = 503 \<and> p = None \<and> s' = s) \<and>
    (int (ch_slots s) < o_GlobalInflight o' \<and> \<not> snd (Resolve rs r) \<longrightarrow> w_status w' = 401 \<and> p = None \<and> s' = s) \<and>
    (int (ch_slots s) < o_GlobalInflight o' \<and> snd (Resolve rs r) \<and>
       \<not> dc_Allowed (fst (Allow lib (re_seen e) (re_now e) (fst (Resolve rs r)) (ch_limiter s))) \<longrightarrow>
       w_status w' = 429 \<and> p = None \<and> ch_inner s' = ch_inner s \<and> ch_slots s' = ch_slots s)"
proof -
  obtain i ok where res: "Resolve rs r = (i, ok)" by fastforce
  have from_ctx: "auth_From (rq_Context (WithContext (auth_Into i c) r')) = i" for c r'
    by (simp add: auth_From_def auth_Into_def WithContext_def)
  note run = assms(4) [unfolded wrap_def guards_def assms(2,3) Chain_append, simplified]
  show ?thesis
    using run assms(1) res
    by (auto simp: RequestID_def Recover_def Inflight_def slots_take_def auth_Middleware_def ratelimit_Middleware_def
        from_ctx Let_def WriteProblem_status split: if_splits prod.splits option.splits)
qed

definition demo_options :: "(int, unit, mem_unit, nat \<times> mem_keys) rt_options" where
  "demo_options = \<lparr>o_MaxBodyBytes = 1000, o_Idempotency = Some MemoryStore, o_IdempotencyConfig = idempotency_defaults,
     o_Auth = Some (NewResolver demo_auth 0), o_RateLimit = Some demo_rate, o_GlobalInflight = 2\<rparr>"

definition demo_rt_env :: rt_env where
  "demo_rt_env = \<lparr>re_uuid = ''fresh-id'', re_seen = 1, re_now = 1, re_idem = demo_idem_env 1\<rparr>"

definition demo_chain_state :: "nat \<Rightarrow> (int, nat \<times> mem_keys) chain_state" where
  "demo_chain_state n = \<lparr>ch_slots = n, ch_limiter = limiter_New ratelimit_defaults, ch_inner = (0, [])\<rparr>"

theorem refused_requests_stop_witness:
  "w_status (fst (wrap demo_options demo_rt_env demo_counter (demo_get []) conn_writer (demo_chain_state 2))) = 503 \<and>
   snd (snd (wrap demo_options demo_rt_env demo_counter (demo_get []) conn_writer (demo_chain_state 1))) = demo_chain_state 1"
proof -
  obtain w1 p1 s1 where one: "wrap demo_options demo_rt_env demo_counter (demo_get []) conn_writer (demo_chain_state 2) = (w1, p1, s1)"
    by (metis prod_cases3)
  obtain w2 p2 s2 where two: "wrap demo_options demo_rt_env demo_counter (demo_get []) conn_writer (demo_chain_state 1) = (w2, p2, s2)"
    by (metis prod_cases3)
  have o': "o_GlobalInflight demo_options > 0" "o_Auth demo_options = Some (NewResolver demo_auth 0)"
    "o_RateLimit demo_options = Some demo_rate" "o_GlobalInflight demo_options = 2"
    by (simp_all add: demo_options_def)
  have "bearerToken [] = None" by code_simp
  then have "\<not> snd (Resolve (NewResolver demo_auth 0) (demo_get []))"
    by (simp add: Resolve_def NewResolver_def demo_auth_def demo_get_def header_Get_def Let_def)
  then show ?thesis
    using refused_requests_stop [OF o'(1-3) one] refused_requests_stop [OF o'(1-3) two] one two
    by (simp add: o'(4) demo_chain_state_def)
qed

subsection \<open>Panics and request identifiers\<close>

text \<open>
  No panic leaves the chain except the one net/http uses to abort a connection. A panic anywhere below the recovering middleware, before a content type was set, becomes a 500 problem document that carries the request's identifier; that identifier is the caller's own when it is printable ASCII of at most 64 bytes, and a fresh one otherwise, and it is the one in the response's header.\<close>
theorem panics_become_500:
  assumes "wrap o' e h r conn_writer s = (w', p, s')"
    and "rid = (if sanitizeRequestID (header_Get (rq_Header r) RequestIDHeader) = [] then re_uuid e
           else sanitizeRequestID (header_Get (rq_Header r) RequestIDHeader))"
    and "r1 = WithContext ((rq_Context r)\<lparr>cx_request_id := rid\<rparr>) r"
    and "Chain (lift_inner (inner_chain o' e h)) (guards o' e) r1 (set_header RequestIDHeader rid conn_writer) s = (w1, q, s1)"
  shows "(\<forall>v. p = Some v \<longrightarrow> (\<exists>err. errorOf v = Some err \<and> errors_is_lib err AbortHandler)) \<and> s' = s1 \<and>
    (q = Some (PanicValue m) \<and> header_Get (w_header w1) ''Content-Type'' = [] \<and> \<not> w_wrote w1 \<and> w_body w1 = [] \<longrightarrow>
       p = None \<and> w_status w' = 500 \<and>
       w_body w' = problem_json \<lparr>pb_Type = ''about:blank'', pb_Title = ''Internal Server Error'', pb_Status = 500,
         pb_Detail = ''internal error'', pb_Instance = rid\<rparr>)"
proof -
  have run: "wrap o' e h r conn_writer s =
      Recover (Chain (lift_inner (inner_chain o' e h)) (guards o' e)) r1 (set_header RequestIDHeader rid conn_writer) s"
    by (simp add: wrap_def RequestID_def Let_def assms(2,3))
  have ctx: "RequestIDFrom (rq_Context r1) = rid" by (simp add: assms(3) WithContext_def RequestIDFrom_def)
  have title: "StatusText 500 = ''Internal Server Error''" by (simp add: StatusText_def)
  show ?thesis
    using assms(1) assms(4) unfolding run
    by (auto simp: Recover_def errorOf_def WriteProblem_def Write_def WriteHeader_def set_header_def header_Set_def
        ctx title Let_def split: option.splits if_splits panic.splits)
qed

theorem panics_become_500_witness:
  "let res = wrap (demo_options\<lparr>o_Idempotency := None, o_Auth := None, o_RateLimit := None, o_GlobalInflight := 0\<rparr>) demo_rt_env
       (\<lambda>r w s. (w, Some (PanicValue ''boom''), s)) (demo_get []) conn_writer (demo_chain_state 0) in
   w_status (fst res) = 500 \<and> fst (snd res) = None"
proof -
  let ?o = "demo_options\<lparr>o_Idempotency := None, o_Auth := None, o_RateLimit := None, o_GlobalInflight := 0\<rparr>"
  let ?h = "\<lambda>r w s. (w, Some (PanicValue ''boom''), s)"
  have rid: "''fresh-id'' = (if sanitizeRequestID (header_Get (rq_Header (demo_get [])) RequestIDHeader) = [] then re_uuid demo_rt_env
      else sanitizeRequestID (header_Get (rq_Header (demo_get [])) RequestIDHeader))"
    by (simp add: sanitizeRequestID_def header_Get_def demo_get_def RequestIDHeader_def demo_rt_env_def)
  obtain w' p s' where run: "wrap ?o demo_rt_env ?h (demo_get []) conn_writer (demo_chain_state 0) = (w', p, s')" by (metis prod_cases3)
  obtain w1 s1 where inner: "Chain (lift_inner (inner_chain ?o demo_rt_env ?h)) (guards ?o demo_rt_env)
      (WithContext ((rq_Context (demo_get []))\<lparr>cx_request_id := ''fresh-id''\<rparr>) (demo_get []))
      (set_header RequestIDHeader ''fresh-id'' conn_writer) (demo_chain_state 0) = (w1, Some (PanicValue ''boom''), s1)"
    and w1: "header_Get (w_header w1) ''Content-Type'' = [] \<and> \<not> w_wrote w1 \<and> w_body w1 = []"
    by (simp add: guards_def inner_chain_def lift_inner_def Deprecation_def MaxBody_def demo_options_def demo_get_def
        WithContext_def writer_defs RequestIDHeader_def)
  from panics_become_500 [OF run rid refl inner, of "''boom''"] w1 run show ?thesis by (simp add: Let_def)
qed

end
