(* ===== verification/Lifecycle.thy ===== *)
theory Lifecycle
  imports Runtime Pool
begin

text \<open>
  The composition root, \<open>internal/app\<close>: the build table (\<open>app.go\<close> with \<open>storage.go\<close>, \<open>guards.go\<close>,
  \<open>http.go\<close>, \<open>queue.go\<close>, \<open>observability.go\<close>), the drain table (\<open>workers.go\<close>), the machinery that
  runs and drains it (\<open>runner.go\<close>), and the readiness the drain starts with (\<open>internal/admin\<close>). What
  the constructors of other packages return is an argument; the listeners themselves are net/http.
\<close>

subsection \<open>Modes and wiring (app.go)\<close>

definition Runs :: "string \<Rightarrow> bool" where
  "Runs m \<longleftrightarrow> m = ''serve'' \<or> m = ''all''"

definition Consumes :: "string \<Rightarrow> bool" where
  "Consumes m \<longleftrightarrow> m = ''worker'' \<or> m = ''all''"

record app_options =
  op_Mode :: string
  op_Config :: "config option"
  op_Logger :: bool

definition options_validate :: "app_options \<Rightarrow> go_error option" where
  "options_validate o' =
     (if op_Config o' = None then Some (PlainError ''app: config is required'')
      else if \<not> op_Logger o' then Some (PlainError ''app: logger is required'')
      else if op_Mode o' \<in> {''serve'', ''worker'', ''all''} then None
      else Some (PlainError (''app: unknown mode '' @ go_quote (op_Mode o'))))"

datatype key_store = MemoryKeys | PostgresKeys

text \<open>What \<open>New\<close> fills in; a pointer that may be nil is a flag or an option.\<close>

record 'b app =
  am_mode :: string
  am_pool :: bool
  am_keys :: "key_store option"
  am_purger :: bool
  am_auth :: "resolver option"
  am_limiter :: "'b limiter option"
  am_api :: bool
  am_jobs :: "string option"
  am_admin :: bool
  am_checks :: "string list"

text \<open>What the constructors the build calls return.\<close>

record build_env =
  be_tracing :: "go_error option"
  be_open :: "go_error option"
  be_handler :: "go_error option"
  be_pool_collector :: "go_error option"
  be_queue_collector :: "go_error option"
  be_pid :: int
  be_uuid :: string

definition buildObservability :: "build_env \<Rightarrow> config \<Rightarrow> 'b app \<Rightarrow> 'b app result" where
  "buildObservability x cfg a = (case be_tracing x of Some e \<Rightarrow> Inl e | None \<Rightarrow> Inr a)"

definition buildStorage :: "build_env \<Rightarrow> config \<Rightarrow> 'b app \<Rightarrow> 'b app result" where
  "buildStorage x cfg a =
     (let b = so_backend (cf_storage cfg) in
      if b = ''memory'' then Inr a
      else if b = ''postgres'' then (case be_open x of Some e \<Rightarrow> Inl e | None \<Rightarrow> Inr (a\<lparr>am_pool := True\<rparr>))
      else Inl (PlainError (''unknown storage backend '' @ go_quote b)))"

definition newIdempotency :: "config \<Rightarrow> 'b app \<Rightarrow> 'b app" where
  "newIdempotency cfg a =
     (if \<not> id_enabled (cf_idempotency cfg) then a
      else a\<lparr>am_keys := Some (if am_pool a then PostgresKeys else MemoryKeys), am_purger := True\<rparr>)"

definition newGuards :: "config \<Rightarrow> 'b app \<Rightarrow> 'b app" where
  "newGuards cfg a =
     (let a1 = a\<lparr>am_auth := Some (NewResolver (cf_auth cfg) (ht_trusted_proxy_hops (cf_http cfg)))\<rparr> in
      if rl_enabled (cf_ratelimit cfg) then a1\<lparr>am_limiter := Some (limiter_New (cf_ratelimit cfg))\<rparr> else a1)"

definition inflightLimit :: "config \<Rightarrow> int" where
  "inflightLimit cfg = (if \<not> rl_enabled (cf_ratelimit cfg) then 0 else rl_global_inflight (cf_ratelimit cfg))"

definition buildGuards :: "build_env \<Rightarrow> config \<Rightarrow> 'b app \<Rightarrow> 'b app result" where
  "buildGuards x cfg a = Inr (newGuards cfg (newIdempotency cfg a))"

definition buildAPI :: "build_env \<Rightarrow> config \<Rightarrow> 'b app \<Rightarrow> 'b app result" where
  "buildAPI x cfg a =
     (if \<not> Runs (am_mode a) then Inr a
      else (case be_handler x of Some e \<Rightarrow> Inl e | None \<Rightarrow> Inr (a\<lparr>am_api := True\<rparr>)))"

definition workerID :: "build_env \<Rightarrow> string \<Rightarrow> string" where
  "workerID x inst = inst @ ''/'' @ itoa (be_pid x) @ ''/'' @ take 8 (be_uuid x)"

definition newQueue :: "build_env \<Rightarrow> config \<Rightarrow> 'b app \<Rightarrow> 'b app result" where
  "newQueue x cfg a =
     (let w = workerID x (sv_instance (cf_service cfg)) in
      case NewPool True 1 w of Some e \<Rightarrow> Inl e | None \<Rightarrow> Inr (a\<lparr>am_jobs := Some w\<rparr>))"

definition buildQueue :: "build_env \<Rightarrow> config \<Rightarrow> 'b app \<Rightarrow> 'b app result" where
  "buildQueue x cfg a = (if \<not> Consumes (am_mode a) \<or> \<not> am_pool a then Inr a else newQueue x cfg a)"

definition registerCollectors :: "build_env \<Rightarrow> config \<Rightarrow> 'b app \<Rightarrow> 'b app result" where
  "registerCollectors x cfg a =
     (if \<not> am_pool a then Inr a
      else
        (case be_pool_collector x of
           Some e \<Rightarrow> Inl (WrapError ''register pool collector: '' e)
         | None \<Rightarrow>
             if Consumes (am_mode a) then
               (case be_queue_collector x of
                  Some e \<Rightarrow> Inl (WrapError ''register queue collector: '' e)
                | None \<Rightarrow> Inr a)
             else Inr a))"

definition readinessChecks :: "'b app \<Rightarrow> string list" where
  "readinessChecks a = (if am_pool a then [''postgres''] else [])"

definition buildAdmin :: "build_env \<Rightarrow> config \<Rightarrow> 'b app \<Rightarrow> 'b app result" where
  "buildAdmin x cfg a = Inr (a\<lparr>am_admin := True, am_checks := readinessChecks a\<rparr>)"

fun build_steps ::
  "(string \<times> (build_env \<Rightarrow> config \<Rightarrow> 'b app \<Rightarrow> 'b app result)) list \<Rightarrow> build_env \<Rightarrow> config \<Rightarrow> 'b app \<Rightarrow> 'b app result" where
  "build_steps [] x cfg a = Inr a"
| "build_steps ((what, fn) # steps) x cfg a =
     (case fn x cfg a of
        Inl e \<Rightarrow> Inl (WrapError (''app: build '' @ what @ '': '') e)
      | Inr a' \<Rightarrow> build_steps steps x cfg a')"

definition empty_app :: "string \<Rightarrow> 'b app" where
  "empty_app m = \<lparr>am_mode = m, am_pool = False, am_keys = None, am_purger = False, am_auth = None,
     am_limiter = None, am_api = False, am_jobs = None, am_admin = False, am_checks = []\<rparr>"

definition app_New :: "build_env \<Rightarrow> app_options \<Rightarrow> 'b app result" where
  "app_New x o' =
     (case options_validate o' of
        Some e \<Rightarrow> Inl e
      | None \<Rightarrow>
          build_steps
            [(''observability'', buildObservability), (''storage'', buildStorage), (''guards'', buildGuards),
             (''api'', buildAPI), (''queue'', buildQueue), (''collectors'', registerCollectors),
             (''admin'', buildAdmin)]
            x (the (op_Config o')) (empty_app (op_Mode o')))"

subsection \<open>The worker table (workers.go)\<close>

record worker =
  wk_name :: string
  wk_stop :: bool

definition app_workers :: "'b app \<Rightarrow> worker list" where
  "app_workers a =
     [\<lparr>wk_name = ''readiness'', wk_stop = True\<rparr>] @
     (if am_api a then [\<lparr>wk_name = ''api'', wk_stop = True\<rparr>] else []) @
     (if am_jobs a \<noteq> None then
        [\<lparr>wk_name = ''queue-listener'', wk_stop = False\<rparr>, \<lparr>wk_name = ''queue-workers'', wk_stop = True\<rparr>,
         \<lparr>wk_name = ''queue-maintenance'', wk_stop = False\<rparr>]
      else []) @
     (if am_purger a then [\<lparr>wk_name = ''idempotency-purge'', wk_stop = False\<rparr>] else []) @
     (if am_jobs a \<noteq> None then [\<lparr>wk_name = ''queue-metrics'', wk_stop = False\<rparr>] else []) @
     (if am_limiter a \<noteq> None \<and> am_api a then [\<lparr>wk_name = ''ratelimit-sweeper'', wk_stop = False\<rparr>] else []) @
     [\<lparr>wk_name = ''config-reloader'', wk_stop = False\<rparr>, \<lparr>wk_name = ''admin'', wk_stop = True\<rparr>,
      \<lparr>wk_name = ''tracing'', wk_stop = True\<rparr>]"

subsection \<open>Running and draining (runner.go)\<close>

datatype run_end = Returned "go_error option" | Panicked string

text \<open>What a worker's goroutine records when \<open>Run\<close> ends; a cancellation is a clean stop.\<close>

definition run_failure :: "string \<Rightarrow> run_end \<Rightarrow> go_error option" where
  "run_failure name r =
     (case r of
        Panicked v \<Rightarrow> Some (PlainError (name @ '': panic: '' @ v))
      | Returned None \<Rightarrow> None
      | Returned (Some e) \<Rightarrow>
          if errors_is e ContextCanceled then None else Some (WrapError (name @ '': '') e))"

record failureSet =
  fz_err :: "go_error option"
  fz_fired :: bool

definition newFailureSet :: failureSet where
  "newFailureSet = \<lparr>fz_err = None, fz_fired = False\<rparr>"

definition record_failure :: "go_error \<Rightarrow> failureSet \<Rightarrow> failureSet" where
  "record_failure e f = \<lparr>fz_err = (if fz_err f = None then Some e else fz_err f), fz_fired = True\<rparr>"

definition record_end :: "string \<times> run_end \<Rightarrow> failureSet \<Rightarrow> failureSet" where
  "record_end we f = (case run_failure (fst we) (snd we) of None \<Rightarrow> f | Some e \<Rightarrow> record_failure e f)"

text \<open>
  The drain: every \<open>Stop\<close> in table order, then the run context is cancelled, then the wait. The
  result is the workers asked, in order, and the first error.
\<close>

fun drain_stops ::
  "(string \<Rightarrow> go_error option) \<Rightarrow> worker list \<Rightarrow> go_error option \<Rightarrow> string list \<times> go_error option" where
  "drain_stops stop [] firstErr = ([], firstErr)"
| "drain_stops stop (w # ws) firstErr =
     (if \<not> wk_stop w then drain_stops stop ws firstErr
      else
        (let firstErr' = (case stop (wk_name w) of
               None \<Rightarrow> firstErr
             | Some e \<Rightarrow> if firstErr = None then Some (WrapError (''drain '' @ wk_name w @ '': '') e) else firstErr) in
         case drain_stops stop ws firstErr' of (asked, err) \<Rightarrow> (wk_name w # asked, err)))"

definition drain ::
  "(string \<Rightarrow> go_error option) \<Rightarrow> bool \<Rightarrow> duration \<Rightarrow> worker list \<Rightarrow> string list \<times> go_error option" where
  "drain stop stopped grace ws =
     (case drain_stops stop ws None of
        (asked, firstErr) \<Rightarrow>
          (asked,
           if stopped then firstErr
           else if firstErr = None then Some (PlainError (''shutdown timed out after '' @ duration_string grace))
           else firstErr))"

text \<open>
  \<open>runWorkers\<close>, given when each \<open>Run\<close> ended: before the drain began (\<open>early\<close>) or during it (\<open>late\<close>).
\<close>

definition runWorkers ::
  "(string \<times> run_end) list \<Rightarrow> (string \<times> run_end) list \<Rightarrow> (string \<Rightarrow> go_error option) \<Rightarrow> bool \<Rightarrow> duration \<Rightarrow>
   worker list \<Rightarrow> string list \<times> go_error option" where
  "runWorkers early late stop stopped grace ws =
     (case drain stop stopped grace ws of
        (asked, err) \<Rightarrow>
          (let f = fold record_end (early @ late) newFailureSet;
               f' = (case err of None \<Rightarrow> f | Some e \<Rightarrow> record_failure e f) in
           (asked, fz_err f')))"

subsection \<open>Readiness (admin.go)\<close>

record health =
  hl_checks :: "string list"
  hl_draining :: bool

definition StartDraining :: "health \<Rightarrow> health" where
  "StartDraining h = h\<lparr>hl_draining := True\<rparr>"

definition readyz :: "(string \<Rightarrow> go_error option) \<Rightarrow> health \<Rightarrow> int \<times> string \<times> (string \<times> string) list" where
  "readyz probe h =
     (if hl_draining h then (503, ''draining'', [])
      else
        (let results = map (\<lambda>c. (c, if probe c = None then ''ok'' else ''failed'')) (hl_checks h) in
         if list_all (\<lambda>c. probe c = None) (hl_checks h) then (200, ''ready'', results)
         else (503, ''not ready'', results)))"

subsection \<open>What is built\<close>

lemma app_New_parts:
  assumes "app_New x o' = Inr a"
  shows "\<exists>cfg. op_Config o' = Some cfg \<and> am_mode a = op_Mode o' \<and>
    (am_pool a \<longleftrightarrow> so_backend (cf_storage cfg) = ''postgres'') \<and>
    am_keys a = (if id_enabled (cf_idempotency cfg)
      then Some (if so_backend (cf_storage cfg) = ''postgres'' then PostgresKeys else MemoryKeys) else None) \<and>
    am_purger a = id_enabled (cf_idempotency cfg) \<and> am_auth a \<noteq> None \<and>
    (am_limiter a \<noteq> None \<longleftrightarrow> rl_enabled (cf_ratelimit cfg)) \<and>
    (am_api a \<longleftrightarrow> Runs (op_Mode o')) \<and>
    (am_jobs a \<noteq> None \<longleftrightarrow> Consumes (op_Mode o') \<and> so_backend (cf_storage cfg) = ''postgres'')"
proof -
  obtain cfg where cfg: "op_Config o' = Some cfg"
    using assms by (cases "op_Config o'") (simp_all add: app_New_def options_validate_def)
  obtain a1 a2 a3 a4 a5 a6 where
    s1: "buildObservability x cfg (empty_app (op_Mode o')) = Inr a1" and s2: "buildStorage x cfg a1 = Inr a2" and
    s3: "buildGuards x cfg a2 = Inr a3" and s4: "buildAPI x cfg a3 = Inr a4" and s5: "buildQueue x cfg a4 = Inr a5" and
    s6: "registerCollectors x cfg a5 = Inr a6" and s7: "buildAdmin x cfg a6 = Inr a"
    using assms cfg by (auto simp: app_New_def split: option.splits sum.splits)
  have a1: "a1 = empty_app (op_Mode o')" using s1 by (auto simp: buildObservability_def split: option.splits)
  have a2: "a2 = a1\<lparr>am_pool := so_backend (cf_storage cfg) = ''postgres''\<rparr>"
    using s2 a1 by (auto simp: buildStorage_def Let_def empty_app_def split: if_splits option.splits)
  have a3: "a3 = newGuards cfg (newIdempotency cfg a2)" using s3 by (simp add: buildGuards_def)
  have a4: "a4 = a3\<lparr>am_api := am_api a3 \<or> Runs (am_mode a3)\<rparr>"
    using s4 by (cases a3) (auto simp: buildAPI_def split: if_splits option.splits)
  have a5: "a5 = (if Consumes (am_mode a4) \<and> am_pool a4
      then a4\<lparr>am_jobs := Some (workerID x (sv_instance (cf_service cfg)))\<rparr> else a4)"
    using s5 by (auto simp: buildQueue_def newQueue_def Let_def split: if_splits option.splits)
  have a6: "a6 = a5" using s6 by (auto simp: registerCollectors_def split: if_splits option.splits)
  have a: "a = a6\<lparr>am_admin := True, am_checks := readinessChecks a6\<rparr>" using s7 by (simp add: buildAdmin_def)
  show ?thesis using cfg
    by (simp add: a a6 a5 a4 a3 a2 a1 empty_app_def newGuards_def newIdempotency_def Let_def)
qed

subsection \<open>The drain\<close>

lemma drain_stops_asked: "fst (drain_stops stop ws err) = map wk_name (filter wk_stop ws)"
  by (induction stop ws err rule: drain_stops.induct) (auto simp: Let_def split: prod.splits)

lemma drain_stops_None:
  "snd (drain_stops stop ws err) = None \<longleftrightarrow> err = None \<and> (\<forall>w \<in> set ws. wk_stop w \<longrightarrow> stop (wk_name w) = None)"
proof (induction ws arbitrary: err)
  case (Cons w ws)
  show ?case
  proof (cases "wk_stop w")
    case True
    have "snd (drain_stops stop (w # ws) err) = snd (drain_stops stop ws (case stop (wk_name w) of
        None \<Rightarrow> err
      | Some e \<Rightarrow> if err = None then Some (WrapError (''drain '' @ wk_name w @ '': '') e) else err))"
      using True by (simp add: Let_def split: prod.splits)
    then show ?thesis using True Cons.IH by (auto split: option.splits if_splits)
  next
    case False
    then show ?thesis using Cons.IH by auto
  qed
qed simp

text \<open>The first failure recorded is the one reported.\<close>

definition run_failures :: "(string \<times> run_end) list \<Rightarrow> go_error list" where
  "run_failures rs = List.map_filter (\<lambda>(n, r). run_failure n r) rs"

lemma record_ends:
  "fz_err (fold record_end rs f) = (case fz_err f of Some e \<Rightarrow> Some e
     | None \<Rightarrow> (case run_failures rs of [] \<Rightarrow> None | e # _ \<Rightarrow> Some e))"
proof (induction rs arbitrary: f)
  case (Cons r rs)
  then show ?case
    by (cases "run_failure (fst r) (snd r)"; cases "fz_err f")
      (auto simp: record_end_def record_failure_def run_failures_def case_prod_beta split: option.splits list.splits)
qed (simp add: run_failures_def split: option.splits)

lemma stop_order:
  "map wk_name (filter wk_stop (app_workers a)) =
     [''readiness''] @ (if am_api a then [''api''] else []) @ (if am_jobs a \<noteq> None then [''queue-workers''] else []) @
     [''admin'', ''tracing'']"
  by (simp add: app_workers_def)

text \<open>
  C29: A process that was wired shuts down in the documented order whatever goes wrong. Every part that drains is asked exactly once: readiness first, then the public listener in the modes that serve, then the queue workers where jobs are consumed, then the admin listener, and tracing last, no matter which of them fails. The process exits without an error exactly when no worker failed or panicked, every drain succeeded and everything stopped within the grace period; otherwise it reports the first failure recorded, a worker's before the drain's own. And the store of idempotency keys matches the storage backend.\<close>
theorem graceful_shutdown:
  assumes "app_New x o' = Inr a" and "op_Config o' = Some cfg"
    and "runWorkers early late stop stopped grace (app_workers a) = (asked, err)"
  shows "asked = [''readiness''] @ (if Runs (op_Mode o') then [''api''] else []) @
      (if Consumes (op_Mode o') \<and> so_backend (cf_storage cfg) = ''postgres'' then [''queue-workers''] else []) @
      [''admin'', ''tracing''] \<and>
    (err = None \<longleftrightarrow> run_failures (early @ late) = [] \<and> (\<forall>n \<in> set asked. stop n = None) \<and> stopped) \<and>
    (run_failures (early @ late) \<noteq> [] \<longrightarrow> err = Some (hd (run_failures (early @ late)))) \<and>
    (\<forall>k. am_keys a = Some k \<longrightarrow> (k = PostgresKeys \<longleftrightarrow> so_backend (cf_storage cfg) = ''postgres''))"
proof -
  from app_New_parts [OF assms(1)] assms(2) have parts: "am_api a \<longleftrightarrow> Runs (op_Mode o')"
    "am_jobs a \<noteq> None \<longleftrightarrow> Consumes (op_Mode o') \<and> so_backend (cf_storage cfg) = ''postgres''"
    "am_keys a = (if id_enabled (cf_idempotency cfg)
      then Some (if so_backend (cf_storage cfg) = ''postgres'' then PostgresKeys else MemoryKeys) else None)" by auto
  obtain asked1 err1 where d: "drain_stops stop (app_workers a) None = (asked1, err1)" by (metis prod.exhaust)
  have asked: "asked = map wk_name (filter wk_stop (app_workers a))"
    using assms(3) d drain_stops_asked [of stop "app_workers a" None] by (auto simp: runWorkers_def drain_def Let_def)
  have stops: "err1 = None \<longleftrightarrow> (\<forall>n \<in> set asked. stop n = None)"
    using drain_stops_None [of stop "app_workers a" None] d by (auto simp: asked)
  let ?de = "snd (drain stop stopped grace (app_workers a))"
  have de: "?de = None \<longleftrightarrow> err1 = None \<and> stopped" by (simp add: drain_def d)
  have err: "err = (case run_failures (early @ late) of [] \<Rightarrow> ?de | e # _ \<Rightarrow> Some e)"
    using assms(3) record_ends [of "early @ late" newFailureSet]
    by (auto simp: runWorkers_def Let_def record_failure_def newFailureSet_def split: prod.splits option.splits list.splits)
  show ?thesis
    using parts asked stops de err stop_order [of a] by (auto split: list.splits if_splits)
qed

definition demo_build :: build_env where
  "demo_build = \<lparr>be_tracing = None, be_open = None, be_handler = None, be_pool_collector = None,
     be_queue_collector = None, be_pid = 1, be_uuid = ''0123456789''\<rparr>"

lemma demo_build_works:
  "\<exists>a :: unit app. app_New demo_build \<lparr>op_Mode = ''serve'', op_Config = Some (Defaults None), op_Logger = True\<rparr> = Inr a"
proof -
  let ?cfg = "Defaults None"
  have "buildObservability demo_build ?cfg a = Inr a" "buildStorage demo_build ?cfg a = Inr a"
    "\<exists>a'. buildAPI demo_build ?cfg a = Inr a'" "\<exists>a'. buildQueue demo_build ?cfg a = Inr a'"
    "registerCollectors demo_build ?cfg a = Inr a" for a :: "unit app"
    by (simp_all add: buildObservability_def buildStorage_def buildAPI_def buildQueue_def newQueue_def NewPool_def
        workerID_def registerCollectors_def demo_build_def Let_def Defaults_def storage_defaults_def)
  then show ?thesis
    by (simp add: app_New_def options_validate_def buildGuards_def buildAdmin_def split: sum.splits) (metis sum.distinct(1))
qed

theorem graceful_shutdown_witness:
  "\<exists>(a :: unit app) err. app_New demo_build \<lparr>op_Mode = ''serve'', op_Config = Some (Defaults None), op_Logger = True\<rparr> = Inr a \<and>
     runWorkers [(''api'', Panicked ''boom'')] [] (\<lambda>n. if n = ''api'' then Some (PlainError ''stuck'') else None) True 5
       (app_workers a) = ([''readiness'', ''api'', ''admin'', ''tracing''], err) \<and>
     err = Some (PlainError ''api: panic: boom'')"
proof -
  let ?o = "\<lparr>op_Mode = ''serve'', op_Config = Some (Defaults None), op_Logger = True\<rparr>"
  obtain a :: "unit app" where a: "app_New demo_build ?o = Inr a" using demo_build_works by blast
  obtain asked err where r: "runWorkers [(''api'', Panicked ''boom'')] []
      (\<lambda>n. if n = ''api'' then Some (PlainError ''stuck'') else None) True 5 (app_workers a) = (asked, err)"
    by (metis prod.exhaust)
  have f: "run_failures ([(''api'', Panicked ''boom'')] @ []) = [PlainError ''api: panic: boom'']"
    by (simp add: run_failures_def run_failure_def)
  from graceful_shutdown [OF a _ r] f have "asked = [''readiness'', ''api'', ''admin'', ''tracing'']"
      "err = Some (PlainError ''api: panic: boom'')"
    by (simp_all add: Runs_def Consumes_def)
  then show ?thesis using a r by blast
qed

text \<open>Once draining has begun no probe answer makes the replica ready again, and no error text leaves it.\<close>

lemma readyz_spec:
  "fst (readyz probe h) = 200 \<longleftrightarrow> \<not> hl_draining h \<and> (\<forall>c \<in> set (hl_checks h). probe c = None)"
  "snd ` set (snd (snd (readyz probe h))) \<subseteq> {''ok'', ''failed''}"
  "fst (readyz probe (StartDraining h)) = 503"
  by (auto simp: readyz_def StartDraining_def list_all_iff Let_def split: if_splits)

end
