(* ===== verification/Postgres_Conn.thy ===== *)
theory Postgres_Conn
  imports Config
begin

text \<open>
  The connection to Postgres: the pool's settings and the opening of a pool
  (\<open>internal/postgres/pool.go\<close>), and the schema migrations (\<open>migrate.go\<close>, \<open>version.go\<close>). The
  parts of pgx and golang-migrate the code calls are arguments: parsing a connection string,
  building and pinging a pool, and applying, rolling back and reading the version of the schema.
\<close>

subsection \<open>The pool (pool.go)\<close>

datatype role = RoleAPI | RoleWorker | RoleMigrate

fun role_text :: "role \<Rightarrow> string" where
  "role_text RoleAPI = ''api''"
| "role_text RoleWorker = ''worker''"
| "role_text RoleMigrate = ''migrate''"

text \<open>Integer division of Go truncates towards zero.\<close>

definition go_div :: "int \<Rightarrow> int \<Rightarrow> int" where
  "go_div a b = sgn a * sgn b * (\<bar>a\<bar> div \<bar>b\<bar>)"

definition millis :: "duration \<Rightarrow> string" where
  "millis d = itoa (go_div d millisecond)"

definition applicationName :: "role \<Rightarrow> string \<Rightarrow> string" where
  "applicationName r inst =
     (if inst = [] then ''taskapi-'' @ role_text r else ''taskapi-'' @ role_text r @ ''-'' @ inst)"

text \<open>The fields of \<open>pgxpool.Config\<close> the code sets; the session parameters are a map.\<close>

record pool_config =
  pc_max_conns :: int
  pc_min_conns :: int
  pc_max_conn_lifetime :: duration
  pc_max_conn_idle_time :: duration
  pc_health_check_period :: duration
  pc_connect_timeout :: duration
  pc_runtime_params :: "string \<rightharpoonup> string"
  pc_traced :: bool

definition poolConfig ::
  "(string \<Rightarrow> pool_config result) \<Rightarrow> postgres_cfg \<Rightarrow> role \<Rightarrow> string \<Rightarrow> pool_config result" where
  "poolConfig parse cfg r inst =
     (case parse (pg_dsn cfg) of
        Inl e \<Rightarrow> Inl (PlainError ''postgres: dsn is not parseable'')
      | Inr pc \<Rightarrow>
          Inr (pc\<lparr>pc_max_conns := pg_max_conns cfg, pc_min_conns := pg_min_conns cfg,
                 pc_max_conn_lifetime := pg_max_conn_lifetime cfg,
                 pc_max_conn_idle_time := pg_max_conn_idle_time cfg,
                 pc_health_check_period := pg_health_check_period cfg,
                 pc_connect_timeout := pg_connect_timeout cfg,
                 pc_runtime_params := (pc_runtime_params pc)
                   (''application_name'' \<mapsto> applicationName r inst,
                    ''statement_timeout'' \<mapsto> millis (pg_statement_timeout cfg),
                    ''idle_in_transaction_session_timeout'' \<mapsto> millis (pg_idle_in_tx_timeout cfg),
                    ''lock_timeout'' \<mapsto> millis (pg_lock_timeout cfg))\<rparr>))"

text \<open>The pools opened and not closed are part of the result.\<close>

definition OpenTraced ::
  "(string \<Rightarrow> pool_config result) \<Rightarrow> (pool_config \<Rightarrow> 'pool result) \<Rightarrow> (duration \<Rightarrow> 'pool \<Rightarrow> go_error option) \<Rightarrow>
   postgres_cfg \<Rightarrow> role \<Rightarrow> string \<Rightarrow> bool \<Rightarrow> 'pool list \<Rightarrow> 'pool result \<times> 'pool list"
where
  "OpenTraced parse build ping cfg r inst tracing opened =
     (case poolConfig parse cfg r inst of
        Inl e \<Rightarrow> (Inl e, opened)
      | Inr pc \<Rightarrow>
          (case build (if tracing then pc\<lparr>pc_traced := True\<rparr> else pc) of
             Inl e \<Rightarrow> (Inl (WrapError ''postgres: build pool: '' e), opened)
           | Inr pool \<Rightarrow>
               (case ping (pg_connect_timeout cfg) pool of
                  Some e \<Rightarrow> (Inl (WrapError ''postgres: connect: '' e), removeAll pool (pool # opened))
                | None \<Rightarrow> (Inr pool, pool # opened))))"

definition postgres_Open ::
  "(string \<Rightarrow> pool_config result) \<Rightarrow> (pool_config \<Rightarrow> 'pool result) \<Rightarrow> (duration \<Rightarrow> 'pool \<Rightarrow> go_error option) \<Rightarrow>
   postgres_cfg \<Rightarrow> role \<Rightarrow> string \<Rightarrow> 'pool list \<Rightarrow> 'pool result \<times> 'pool list"
where
  "postgres_Open parse build ping cfg r inst opened = OpenTraced parse build ping cfg r inst False opened"

subsection \<open>Migrations (version.go, migrate.go)\<close>

text \<open>\<open>strconv.ParseUint(s, 10, 64)\<close>.\<close>

definition parse_uint64 :: "string \<Rightarrow> nat option" where
  "parse_uint64 s =
     (if s \<noteq> [] \<and> list_all (\<lambda>c. 48 \<le> (of_char c :: nat) \<and> (of_char c :: nat) \<le> 57) s \<and> dec_val s < 2 ^ 64
      then Some (dec_val s) else None)"

definition upMigrationVersion :: "string \<Rightarrow> nat option" where
  "upMigrationVersion name =
     (if \<not> ends_with ''.up.sql'' name then None
      else
        (case cut (CHR ''_'') name of
           (digits, rest, found) \<Rightarrow> if \<not> found then None else parse_uint64 digits))"

definition countPending :: "string list result \<Rightarrow> nat \<Rightarrow> nat result" where
  "countPending entries applied =
     (case entries of
        Inl e \<Rightarrow> Inl (WrapError ''postgres: read embedded migrations: '' e)
      | Inr names \<Rightarrow>
          Inr (length (filter (\<lambda>n. case upMigrationVersion n of None \<Rightarrow> False | Some v \<Rightarrow> applied < v) names)))"

definition pgxURL :: "string \<Rightarrow> string" where
  "pgxURL dsn =
     (case cut_prefix ''postgres://'' dsn of
        Some rest \<Rightarrow> ''pgx5://'' @ rest
      | None \<Rightarrow>
          (case cut_prefix ''postgresql://'' dsn of
             Some rest \<Rightarrow> ''pgx5://'' @ rest
           | None \<Rightarrow> dsn))"

text \<open>
  golang-migrate: opening a migrator on a source and a URL, the two operations on the schema,
  reading its version, and the two sentinel errors the code asks for.
\<close>

record 'd migrate_lib =
  ml_source :: "go_error option"
  ml_open :: "string \<Rightarrow> 'd \<Rightarrow> go_error option"
  ml_up :: "'d \<Rightarrow> go_error option \<times> 'd"
  ml_down_one :: "'d \<Rightarrow> go_error option \<times> 'd"
  ml_version :: "'d \<Rightarrow> nat \<times> bool \<times> go_error option"
  ml_no_change :: "go_error \<Rightarrow> bool"
  ml_nil_version :: "go_error \<Rightarrow> bool"

definition migrator :: "'d migrate_lib \<Rightarrow> string \<Rightarrow> 'd \<Rightarrow> go_error option" where
  "migrator lib dsn d =
     (case ml_source lib of
        Some e \<Rightarrow> Some (WrapError ''postgres: read embedded migrations: '' e)
      | None \<Rightarrow> map_option (WrapError ''postgres: open migrator: '') (ml_open lib (pgxURL dsn) d))"

definition MigrateUp :: "'d migrate_lib \<Rightarrow> string \<Rightarrow> 'd \<Rightarrow> go_error option \<times> 'd" where
  "MigrateUp lib dsn d =
     (case migrator lib dsn d of
        Some e \<Rightarrow> (Some e, d)
      | None \<Rightarrow>
          (case ml_up lib d of
             (None, d') \<Rightarrow> (None, d')
           | (Some e, d') \<Rightarrow>
               (if ml_no_change lib e then None else Some (WrapError ''postgres: migrate up: '' e), d')))"

definition MigrateDown :: "'d migrate_lib \<Rightarrow> string \<Rightarrow> 'd \<Rightarrow> go_error option \<times> 'd" where
  "MigrateDown lib dsn d =
     (case migrator lib dsn d of
        Some e \<Rightarrow> (Some e, d)
      | None \<Rightarrow>
          (case ml_down_one lib d of
             (None, d') \<Rightarrow> (None, d')
           | (Some e, d') \<Rightarrow>
               (if ml_no_change lib e then None else Some (WrapError ''postgres: migrate down: '' e), d')))"

record migrate_status =
  ms_version :: nat
  ms_dirty :: bool
  ms_pending :: nat

definition MigrateStatus ::
  "'d migrate_lib \<Rightarrow> string list result \<Rightarrow> string \<Rightarrow> 'd \<Rightarrow> migrate_status result" where
  "MigrateStatus lib entries dsn d =
     (case migrator lib dsn d of
        Some e \<Rightarrow> Inl e
      | None \<Rightarrow>
          (case ml_version lib d of
             (v, dirty, err) \<Rightarrow>
               if (case err of None \<Rightarrow> False | Some e \<Rightarrow> \<not> ml_nil_version lib e) then
                 Inl (WrapError ''postgres: migrate status: '' (the err))
               else
                 (case countPending entries v of
                    Inl e \<Rightarrow> Inl e
                  | Inr n \<Rightarrow> Inr \<lparr>ms_version = v, ms_dirty = dirty, ms_pending = n\<rparr>)))"

subsection \<open>The settings a connection gets\<close>

text \<open>The error for an unusable connection string says nothing of it: pgx's own message, which repeats it, is dropped.\<close>

theorem dsn_error_constant:
  assumes "parse (pg_dsn cfg) = Inl e" and "parse' (pg_dsn cfg') = Inl e'"
  shows "OpenTraced parse build ping cfg r inst tracing opened =
    (Inl (PlainError ''postgres: dsn is not parseable''), opened) \<and>
    fst (OpenTraced parse build ping cfg r inst tracing opened) =
    fst (OpenTraced parse' build' ping' cfg' r' inst' tracing' opened)"
  using assms by (simp add: OpenTraced_def poolConfig_def)

text \<open>A pool that cannot be reached is closed again.\<close>

theorem failed_open_leaks_nothing:
  assumes "OpenTraced parse build ping cfg r inst tracing opened = (Inl e, opened')"
    and "\<And>pc pool. build pc = Inr pool \<Longrightarrow> pool \<notin> set opened"
  shows "opened' = opened"
  using assms by (auto simp: OpenTraced_def removeAll_id split: sum.splits option.splits if_splits)

lemma dec_zero: "dec 0 = ''0''"
  by code_simp

lemma itoa_zero_iff: "itoa i = ''0'' \<longleftrightarrow> i = 0"
proof -
  have "dec n = ''0'' \<longleftrightarrow> n = 0" for n using dec_inject [of n 0] by (simp add: dec_zero)
  moreover have "''-'' @ s \<noteq> ''0''" for s by simp
  ultimately show ?thesis by (auto simp: itoa_def)
qed

lemma millis_zero_iff: "millis d = ''0'' \<longleftrightarrow> \<bar>d\<bar> < millisecond"
proof -
  have "go_div d millisecond = 0 \<longleftrightarrow> \<bar>d\<bar> < millisecond"
    by (auto simp: go_div_def sgn_if zdiv_eq_0_iff split: if_splits)
  then show ?thesis by (simp add: millis_def itoa_zero_iff)
qed

text \<open>
  Every connection of an accepted configuration runs under the configured statement timeout, unless that is
  below one millisecond: validation accepts it as positive, but it is rendered as the 0 that lifts the limit.
\<close>

theorem statement_timeout_lost:
  assumes "storage_Validate s [] = []" and "so_backend s = ''postgres''"
    and "poolConfig parse (so_postgres s) r inst = Inr pc"
  shows "pc_runtime_params pc ''statement_timeout'' = Some ''0'' \<longleftrightarrow>
    pg_statement_timeout (so_postgres s) < millisecond"
proof -
  have "0 < pg_statement_timeout (so_postgres s)"
    using assms(1,2) by (auto simp: storage_Validate_def postgres_validate_def Let_def Positive_def Add_def split: if_splits)
  moreover have "pc_runtime_params pc ''statement_timeout'' = Some (millis (pg_statement_timeout (so_postgres s)))"
    using assms(3) by (auto simp: poolConfig_def split: sum.splits)
  ultimately show ?thesis by (simp add: millis_zero_iff)
qed

theorem statement_timeout_lost_example:
  "storage_Validate s [] = [] \<and> pc_runtime_params pc ''statement_timeout'' = Some ''0''"
  if "s = \<lparr>so_backend = ''postgres'', so_postgres = (so_postgres storage_defaults)
            \<lparr>pg_dsn := ''postgres://db'', pg_statement_timeout := 999999\<rparr>\<rparr>"
    and "poolConfig parse (so_postgres s) RoleAPI [] = Inr pc"
  using that
  by (auto simp: storage_Validate_def postgres_validate_def Let_def Positive_def OneOf_def storage_defaults_def
      poolConfig_def millis_zero_iff split: sum.splits)

subsection \<open>Counting what is pending\<close>

lemma dec_is_digits: "list_all (\<lambda>c. 48 \<le> (of_char c :: nat) \<and> (of_char c :: nat) \<le> 57) (dec n)"
  using dec_digits [of n] by (fastforce simp: list_all_iff digit_def)

lemma ends_with_same_length: "length p = length q \<Longrightarrow> ends_with p (s @ q) \<longleftrightarrow> p = q"
  by (auto simp: ends_with_def)

theorem migration_name_roundtrip:
  assumes "v < 2 ^ 64"
  shows "upMigrationVersion (dec v @ ''_'' @ name @ ''.up.sql'') = Some v \<and>
    upMigrationVersion (dec v @ ''_'' @ name @ ''.down.sql'') = None"
proof -
  have "CHR ''_'' \<notin> set (dec v)" using dec_digits [of v] digit_not [of _ "CHR ''_''"] by fastforce
  then have "cut (CHR ''_'') (dec v @ CHR ''_'' # rest) = (dec v, rest, True)" for rest by (rule cut_at)
  moreover have "dec v \<noteq> []" by (simp add: dec.simps [of v])
  moreover have "ends_with ''.up.sql'' (dec v @ ''_'' @ name @ ''.up.sql'')"
    using ends_with_same_length [of "''.up.sql''" "''.up.sql''" "dec v @ ''_'' @ name"] by simp
  moreover have "\<not> ends_with ''.up.sql'' (dec v @ ''_'' @ name @ ''.down.sql'')"
    using ends_with_same_length [of "''.up.sql''" "''own.sql''" "dec v @ ''_'' @ name @ ''.d''"] by simp
  ultimately show ?thesis using assms dec_is_digits by (simp add: upMigrationVersion_def parse_uint64_def)
qed

text \<open>
  What the code relies on of golang-migrate: when applying every migration succeeded, or found nothing to apply,
  the schema is clean and at the newest migration of the source.
\<close>

definition newest_after_up :: "'d migrate_lib \<Rightarrow> string list \<Rightarrow> bool" where
  "newest_after_up lib names \<longleftrightarrow>
     (\<forall>d e d'. ml_up lib d = (e, d') \<longrightarrow> (e = None \<or> (\<exists>x. e = Some x \<and> ml_no_change lib x)) \<longrightarrow>
        (\<exists>v. ml_version lib d' = (v, False, None) \<and> (\<exists>n \<in> set names. upMigrationVersion n = Some v) \<and>
             (\<forall>n \<in> set names. \<forall>u. upMigrationVersion n = Some u \<longrightarrow> u \<le> v)) \<and>
        (\<forall>u. ml_open lib u d' = ml_open lib u d))"

theorem migrate_up_completes:
  assumes "newest_after_up lib names" and "MigrateUp lib dsn d = (None, d')"
  shows "\<exists>v. MigrateStatus lib (Inr names) dsn d' = Inr \<lparr>ms_version = v, ms_dirty = False, ms_pending = 0\<rparr>"
proof -
  have open_ok: "migrator lib dsn d = None" using assms(2) by (auto simp: MigrateUp_def split: option.splits)
  obtain e d1 where up: "ml_up lib d = (e, d1)" by (metis prod.exhaust)
  then have "d1 = d'" "e = None \<or> (\<exists>x. e = Some x \<and> ml_no_change lib x)"
    using assms(2) open_ok by (auto simp: MigrateUp_def split: option.splits if_splits)
  then obtain v where v: "ml_version lib d' = (v, False, None)"
    "\<forall>n \<in> set names. \<forall>u. upMigrationVersion n = Some u \<longrightarrow> u \<le> v" "\<forall>u. ml_open lib u d' = ml_open lib u d"
    using assms(1) up unfolding newest_after_up_def by blast
  have "filter (\<lambda>n. case upMigrationVersion n of None \<Rightarrow> False | Some u \<Rightarrow> v < u) names = []"
    using v(2) by (auto simp: filter_empty_conv not_less split: option.splits)
  moreover have "migrator lib dsn d' = None" using open_ok v(3) by (auto simp: migrator_def split: option.splits)
  ultimately show ?thesis using v(1) by (simp add: MigrateStatus_def countPending_def)
qed

text \<open>The migrations of the repository, and a migrator whose schema is its version number.\<close>

definition repo_migrations :: "string list" where
  "repo_migrations =
     [''0001_init.down.sql'', ''0001_init.up.sql'', ''0002_idempotency_response_bytes.down.sql'',
      ''0002_idempotency_response_bytes.up.sql'', ''migrations.go'']"

definition demo_migrate :: "nat migrate_lib" where
  "demo_migrate = \<lparr>ml_source = None, ml_open = (\<lambda>_ _. None),
     ml_up = (\<lambda>d. (if d = 2 then Some (PlainError ''no change'') else None, 2)),
     ml_down_one = (\<lambda>d. (None, d - 1)), ml_version = (\<lambda>d. (d, False, None)),
     ml_no_change = (\<lambda>e. e = PlainError ''no change''), ml_nil_version = (\<lambda>_. False)\<rparr>"

lemma repo_versions: "map upMigrationVersion repo_migrations = [None, Some 1, None, Some 2, None]"
  by (simp add: repo_migrations_def upMigrationVersion_def ends_with_def parse_uint64_def dec_val_def digit_val_def)

lemma demo_migrate_laws: "newest_after_up demo_migrate repo_migrations"
proof -
  have "\<exists>n \<in> set repo_migrations. upMigrationVersion n = Some 2"
    "\<forall>n \<in> set repo_migrations. \<forall>u. upMigrationVersion n = Some u \<longrightarrow> u \<le> 2"
    using repo_versions by (simp_all add: repo_migrations_def)
  then show ?thesis by (simp add: newest_after_up_def demo_migrate_def)
qed

theorem migrate_up_completes_demo:
  "\<exists>v. MigrateStatus demo_migrate (Inr repo_migrations) ''postgres://db'' 2 =
     Inr \<lparr>ms_version = v, ms_dirty = False, ms_pending = 0\<rparr>"
  using migrate_up_completes [OF demo_migrate_laws, of "''postgres://db''" 0 2]
  by (simp add: MigrateUp_def migrator_def demo_migrate_def)

end
