(* ===== verification/Command.thy ===== *)
theory Command
  imports Reload Lifecycle Logging Postgres_Conn
begin

text \<open>
  The command line, \<open>internal/cli\<close>: the bootstrap shared by the run commands, \<open>--print-config\<close>, the
  body of \<open>serve\<close>, \<open>worker\<close> and \<open>all\<close>, the schema commands and the health probe. Parsing the command
  line is cobra's; a command gets the parsed flags and what it can see of the process (\<open>proc\<close>).
\<close>

subsection \<open>The flags every command reads (config/flags.go)\<close>

definition FilePath :: "flag_set option \<Rightarrow> string" where
  "FilePath fso =
     (case fso of None \<Rightarrow> [] | Some fs \<Rightarrow> (case fs_Lookup fs ''config'' of None \<Rightarrow> [] | Some f \<Rightarrow> fl_value f))"

definition PrintConfigRequested :: "flag_set option \<Rightarrow> bool" where
  "PrintConfigRequested fso =
     (case fso of
        None \<Rightarrow> False
      | Some fs \<Rightarrow> (case fs_Lookup fs ''print-config'' of None \<Rightarrow> False | Some f \<Rightarrow> fl_value f = ''true''))"

subsection \<open>Bootstrap (root.go)\<close>

text \<open>The libraries and the surroundings of a process: its environment, files and terminal.\<close>

record ('k, 'v) proc =
  pr_koanf :: "('k, 'v) koanf_lib"
  pr_lib :: config_lib
  pr_options :: "'v load_options"
  pr_terminal :: bool
  pr_encode :: "config \<Rightarrow> string result"

definition cli_load :: "('k, 'v) proc \<Rightarrow> flag_set \<Rightarrow> load_result result" where
  "cli_load p fs = config_Load (pr_koanf p)
     ((pr_options p)\<lparr>lo_File := FilePath (Some fs), lo_Flags := Some fs, lo_Overrides := Map.empty\<rparr>)"

text \<open>
  \<open>logging.New\<close>, up to the back end: the level and the format in use, and the errors that are joined.
  A joined error is only ever printed, one line for each part.
\<close>

definition errors_Join :: "go_error option list \<Rightarrow> go_error option" where
  "errors_Join es =
     (case List.map_filter id es of
        [] \<Rightarrow> None
      | e # es' \<Rightarrow> Some (foldl (\<lambda>a b. WrapError (error_text a @ [CHR 0x0A]) b) e es'))"

definition logging_New :: "string \<Rightarrow> string \<Rightarrow> bool \<Rightarrow> (level \<times> string) \<times> go_error option" where
  "logging_New lvl format tty =
     (case resolveLevel lvl of
        (l, lvlErr) \<Rightarrow>
          (case resolveFormat format tty of
             Inl e \<Rightarrow> ((l, ''json''), errors_Join [lvlErr, Some e])
           | Inr f \<Rightarrow> ((l, f), errors_Join [lvlErr, None])))"

record booted =
  bt_cfg :: config
  bt_log :: "level \<times> string"
  bt_file :: string
  bt_warnings :: "string list"

definition boot :: "('k, 'v) proc \<Rightarrow> flag_set \<Rightarrow> booted result" where
  "boot p fs =
     (case cli_load p fs of
        Inl e \<Rightarrow> Inl e
      | Inr res \<Rightarrow>
          (case config_Validate (pr_lib p) (ld_Config res) of
             Some e \<Rightarrow> Inl e
           | None \<Rightarrow>
               (let lg = cf_logging (ld_Config res) in
                case logging_New (lg_level lg) (lg_format lg) (pr_terminal p) of
                  (lg_used, Some e) \<Rightarrow> Inl e
                | (lg_used, None) \<Rightarrow>
                    Inr \<lparr>bt_cfg = ld_Config res, bt_log = lg_used, bt_file = ld_File res,
                         bt_warnings = ld_Warnings res\<rparr>)))"

definition WriteYAML :: "('k, 'v) proc \<Rightarrow> config \<Rightarrow> string result" where
  "WriteYAML p c = (case pr_encode p (Redacted c) of Inl e \<Rightarrow> Inl (WrapError ''render config: '' e) | Inr t \<Rightarrow> Inr t)"

definition printConfig :: "('k, 'v) proc \<Rightarrow> flag_set \<Rightarrow> string result" where
  "printConfig p fs =
     (case cli_load p fs of
        Inl e \<Rightarrow> Inl e
      | Inr res \<Rightarrow>
          (case config_Validate (pr_lib p) (ld_Config res) of
             Some e \<Rightarrow> Inl e
           | None \<Rightarrow> WriteYAML p (ld_Config res)))"

text \<open>
  How a run goes once the application is built: when each worker ended, what the drain hooks
  returned, whether everything stopped in time.
\<close>

record run_events =
  rv_early :: "(string \<times> run_end) list"
  rv_late :: "(string \<times> run_end) list"
  rv_stop :: "string \<Rightarrow> go_error option"
  rv_stopped :: bool

text \<open>What a command leaves behind: its output, the parts it drained, its error.\<close>

record command_result =
  cr_out :: string
  cr_drained :: "string list"
  cr_err :: "go_error option"

definition failed_command :: "go_error \<Rightarrow> command_result" where
  "failed_command e = \<lparr>cr_out = [], cr_drained = [], cr_err = Some e\<rparr>"

definition printed :: "string result \<Rightarrow> command_result" where
  "printed r = (case r of Inl e \<Rightarrow> failed_command e | Inr t \<Rightarrow> \<lparr>cr_out = t, cr_drained = [], cr_err = None\<rparr>)"

definition app_Run :: "run_events \<Rightarrow> config \<Rightarrow> 'b app \<Rightarrow> string list \<times> go_error option" where
  "app_Run ev cfg a =
     runWorkers (rv_early ev) (rv_late ev) (rv_stop ev) (rv_stopped ev) (ht_shutdown_grace (cf_http cfg)) (app_workers a)"

definition runMode ::
  "('k, 'v) proc \<Rightarrow> build_env \<Rightarrow> run_events \<Rightarrow> flag_set \<Rightarrow> string \<Rightarrow> command_result" where
  "runMode p x ev fs mode =
     (if PrintConfigRequested (Some fs) then printed (printConfig p fs)
      else
        (case boot p fs of
           Inl e \<Rightarrow> failed_command e
         | Inr b \<Rightarrow>
             (case app_New x \<lparr>op_Mode = mode, op_Config = Some (bt_cfg b), op_Logger = True\<rparr> :: unit app result of
                Inl e \<Rightarrow> failed_command e
              | Inr a \<Rightarrow>
                  (case app_Run ev (bt_cfg b) a of
                     (asked, err) \<Rightarrow>
                       \<lparr>cr_out = [], cr_drained = asked, cr_err = map_option (WrapError (mode @ '': '')) err\<rparr>))))"

subsection \<open>The schema commands (migrate.go)\<close>

definition migrationDSN :: "('k, 'v) proc \<Rightarrow> flag_set \<Rightarrow> string result" where
  "migrationDSN p fs =
     (case cli_load p fs of
        Inl e \<Rightarrow> Inl e
      | Inr res \<Rightarrow>
          (let dsn = pg_dsn (so_postgres (cf_storage (ld_Config res))) in
           if dsn = [] then Inl (PlainError (''no database configured; set '' @ EnvName ''storage.postgres.dsn''))
           else Inr dsn))"

definition bool_text :: "bool \<Rightarrow> string" where
  "bool_text b = (if b then ''true'' else ''false'')"

definition status_text :: "migrate_status \<Rightarrow> string" where
  "status_text st =
     ''version='' @ itoa (int (ms_version st)) @ '' dirty='' @ bool_text (ms_dirty st) @
     '' pending='' @ itoa (int (ms_pending st)) @ [CHR 0x0A]"

definition report :: "'d migrate_lib \<Rightarrow> string list result \<Rightarrow> string \<Rightarrow> string \<Rightarrow> 'd \<Rightarrow> string result" where
  "report lib entries dsn msg d =
     (case MigrateStatus lib entries dsn d of Inl e \<Rightarrow> Inl e | Inr st \<Rightarrow> Inr (msg @ '': '' @ status_text st))"

definition migrate_up_command ::
  "('k, 'v) proc \<Rightarrow> 'd migrate_lib \<Rightarrow> string list result \<Rightarrow> flag_set \<Rightarrow> 'd \<Rightarrow> string result \<times> 'd" where
  "migrate_up_command p lib entries fs d =
     (case migrationDSN p fs of
        Inl e \<Rightarrow> (Inl e, d)
      | Inr dsn \<Rightarrow>
          (case MigrateUp lib dsn d of
             (Some e, d') \<Rightarrow> (Inl e, d')
           | (None, d') \<Rightarrow> (report lib entries dsn ''schema is up to date'' d', d')))"

definition migrate_down_command ::
  "('k, 'v) proc \<Rightarrow> 'd migrate_lib \<Rightarrow> string list result \<Rightarrow> flag_set \<Rightarrow> bool \<Rightarrow> 'd \<Rightarrow> string result \<times> 'd" where
  "migrate_down_command p lib entries fs confirm d =
     (if \<not> confirm then (Inl (PlainError ''rolling back drops data; pass --yes to confirm''), d)
      else
        (case migrationDSN p fs of
           Inl e \<Rightarrow> (Inl e, d)
         | Inr dsn \<Rightarrow>
             (case MigrateDown lib dsn d of
                (Some e, d') \<Rightarrow> (Inl e, d')
              | (None, d') \<Rightarrow> (report lib entries dsn ''rolled back one migration'' d', d'))))"

text \<open>The JSON form is the encoder's.\<close>

definition migrate_status_command ::
  "('k, 'v) proc \<Rightarrow> (migrate_status \<Rightarrow> string result) \<Rightarrow> 'd migrate_lib \<Rightarrow> string list result \<Rightarrow> flag_set \<Rightarrow> bool \<Rightarrow>
   'd \<Rightarrow> string result"
where
  "migrate_status_command p json lib entries fs asJSON d =
     (case migrationDSN p fs of
        Inl e \<Rightarrow> Inl e
      | Inr dsn \<Rightarrow>
          (case MigrateStatus lib entries dsn d of
             Inl e \<Rightarrow> Inl e
           | Inr st \<Rightarrow> if asJSON then json st else Inr (status_text st)))"

subsection \<open>The health probe (healthcheck.go)\<close>

text \<open>\<open>net.JoinHostPort\<close>.\<close>

definition JoinHostPort :: "string \<Rightarrow> string \<Rightarrow> string" where
  "JoinHostPort hst port =
     (if CHR '':'' \<in> set hst then ''['' @ hst @ '']:'' @ port else hst @ '':'' @ port)"

definition probe_host :: "string \<Rightarrow> string" where
  "probe_host hst = (if hst \<in> set [[], ''0.0.0.0'', ''::'', ''[::]''] then ''127.0.0.1'' else hst)"

definition probeURL ::
  "(string \<Rightarrow> (string \<times> string) result) \<Rightarrow> (string \<Rightarrow> string \<Rightarrow> string \<Rightarrow> string) \<Rightarrow> string \<Rightarrow> string \<Rightarrow> string result"
where
  "probeURL split url_string addr endpoint =
     (case split addr of
        Inl e \<Rightarrow> Inl (WrapError (''admin.addr '' @ go_quote addr @ '': '') e)
      | Inr (hst, port) \<Rightarrow> Inr (url_string ''http'' (JoinHostPort (probe_host hst) port) endpoint))"

definition healthcheck ::
  "('k, 'v) proc \<Rightarrow> (string \<Rightarrow> (string \<times> string) result) \<Rightarrow> (string \<Rightarrow> string \<Rightarrow> string \<Rightarrow> string) \<Rightarrow>
   (string \<Rightarrow> int result) \<Rightarrow> flag_set \<Rightarrow> string \<Rightarrow> string result"
where
  "healthcheck p split url_string get fs endpoint =
     (case cli_load p fs of
        Inl e \<Rightarrow> Inl e
      | Inr res \<Rightarrow>
          (case probeURL split url_string (ad_addr (cf_admin (ld_Config res))) endpoint of
             Inl e \<Rightarrow> Inl e
           | Inr target \<Rightarrow>
               (case get target of
                  Inl e \<Rightarrow> Inl (WrapError (''probe '' @ target @ '': '') e)
                | Inr status \<Rightarrow>
                    if status \<noteq> 200 then Inl (PlainError (''probe '' @ target @ '': status '' @ itoa status))
                    else Inr (''ok'' @ [CHR 0x0A]))))"

subsection \<open>What a command does with a configuration\<close>

lemma valid_logging:
  assumes "config_Validate cl c = None"
  shows "checkLevel (lg_level (cf_logging c)) = None \<and> lg_format (cf_logging c) \<in> {''auto'', ''text'', ''json''}"
proof -
  have "config_problems cl c = []" using assms by (auto simp: config_Validate_def problems_Err_def split: if_splits)
  then show ?thesis
    unfolding config_problems_def validateAcrossSections_def Let_def
    by (auto simp: config_simps split: if_splits)
qed

text \<open>The level and format names validation accepts are the ones the logger understands: a valid configuration always boots.\<close>

lemma logging_New_ok:
  assumes "checkLevel lvl = None" and "format \<in> {''auto'', ''text'', ''json''}"
  shows "\<exists>f. logging_New lvl format tty = ((fst (ParseLevel lvl), f), None) \<and> f \<in> {''text'', ''json''}"
proof -
  have "lvl \<noteq> []" using assms(1) by (auto simp: checkLevel_def lower_def split: if_splits)
  moreover have "snd (ParseLevel lvl) = None" using assms(1) by (auto simp: checkLevel_def ParseLevel_def Let_def split: if_splits)
  ultimately have "resolveLevel lvl = (fst (ParseLevel lvl), None)" by (auto simp: resolveLevel_def split: prod.splits option.splits)
  moreover have "\<exists>f. resolveFormat format tty = Inr f \<and> f \<in> {''text'', ''json''}"
  proof -
    have "lower (trim_space s) = s" if "s \<in> {''auto'', ''text'', ''json''}" for s
      using that by auto (code_simp)+
    then show ?thesis using assms(2) by (auto simp: resolveFormat_def Let_def)
  qed
  ultimately show ?thesis by (auto simp: logging_New_def errors_Join_def)
qed

lemma boot_valid:
  "boot p fs = Inr b \<longleftrightarrow>
   (\<exists>res f. cli_load p fs = Inr res \<and> config_Validate (pr_lib p) (ld_Config res) = None \<and>
      resolveFormat (lg_format (cf_logging (ld_Config res))) (pr_terminal p) = Inr f \<and>
      b = \<lparr>bt_cfg = ld_Config res, bt_log = (fst (ParseLevel (lg_level (cf_logging (ld_Config res)))), f),
           bt_file = ld_File res, bt_warnings = ld_Warnings res\<rparr>)"
proof (cases "cli_load p fs")
  case (Inr res)
  show ?thesis
  proof (cases "config_Validate (pr_lib p) (ld_Config res)")
    case None
    obtain f where f: "logging_New (lg_level (cf_logging (ld_Config res))) (lg_format (cf_logging (ld_Config res)))
        (pr_terminal p) = ((fst (ParseLevel (lg_level (cf_logging (ld_Config res)))), f), None)"
      using valid_logging [OF None] logging_New_ok by blast
    moreover have "resolveFormat (lg_format (cf_logging (ld_Config res))) (pr_terminal p) = Inr f"
      using f by (auto simp: logging_New_def errors_Join_def split: prod.splits sum.splits option.splits)
    ultimately show ?thesis using Inr None by (auto simp: boot_def Let_def)
  qed (simp add: boot_def Inr)
qed (simp add: boot_def)

text \<open>
  Nothing is started for a configuration that does not load or does not validate, and nothing else stops the
  bootstrap: whatever runs was validated, and \<open>--print-config\<close> runs nothing.
\<close>

theorem run_only_valid:
  assumes "cr_drained (runMode p x ev fs mode) \<noteq> []"
  shows "\<exists>res a :: unit app. cli_load p fs = Inr res \<and> config_Validate (pr_lib p) (ld_Config res) = None \<and>
    \<not> PrintConfigRequested (Some fs) \<and>
    app_New x \<lparr>op_Mode = mode, op_Config = Some (ld_Config res), op_Logger = True\<rparr> = Inr a \<and>
    cr_drained (runMode p x ev fs mode) = map wk_name (filter wk_stop (app_workers a))"
proof -
  have np: "\<not> PrintConfigRequested (Some fs)"
    using assms by (auto simp: runMode_def printed_def failed_command_def split: sum.splits)
  then obtain b where b: "boot p fs = Inr b"
    using assms by (cases "boot p fs") (simp_all add: runMode_def failed_command_def)
  let ?o = "\<lparr>op_Mode = mode, op_Config = Some (bt_cfg b), op_Logger = True\<rparr>"
  obtain a :: "unit app" where a: "app_New x ?o = Inr a"
    using assms np b by (cases "app_New x ?o :: unit app result") (simp_all add: runMode_def failed_command_def)
  obtain asked err where r: "app_Run ev (bt_cfg b) a = (asked, err)" by (metis prod.exhaust)
  have "asked = map wk_name (filter wk_stop (app_workers a))"
    using r drain_stops_asked [of "rv_stop ev" "app_workers a" None]
    by (auto simp: app_Run_def runWorkers_def drain_def Let_def split: prod.splits)
  moreover have "cr_drained (runMode p x ev fs mode) = asked" using np b a r by (simp add: runMode_def)
  moreover obtain res where "cli_load p fs = Inr res" "config_Validate (pr_lib p) (ld_Config res) = None"
    "bt_cfg b = ld_Config res" using b by (auto simp: boot_valid)
  ultimately show ?thesis using np a by metis
qed

text \<open>What \<open>--print-config\<close> writes is the same for every connection string.\<close>

definition with_dsn :: "string \<Rightarrow> config \<Rightarrow> config" where
  "with_dsn dsn c =
     c\<lparr>cf_storage := (cf_storage c)\<lparr>so_postgres := (so_postgres (cf_storage c))\<lparr>pg_dsn := dsn\<rparr>\<rparr>\<rparr>"

theorem print_config_hides_dsn:
  assumes "dsn \<noteq> []" and "dsn' \<noteq> []"
  shows "WriteYAML p (with_dsn dsn c) = WriteYAML p (with_dsn dsn' c)"
  using assms by (simp add: WriteYAML_def Redacted_def with_dsn_def)

text \<open>A rollback that was not confirmed reads no configuration and touches no schema.\<close>

theorem unconfirmed_rollback: "snd (migrate_down_command p lib entries fs False d) = d"
  by (simp add: migrate_down_command_def)

text \<open>A migration command that reports success reports a clean schema with nothing pending.\<close>

theorem migrate_up_reports:
  assumes "newest_after_up lib names" and "migrate_up_command p lib (Inr names) fs d = (Inr out, d')"
  shows "\<exists>v. out = ''schema is up to date: '' @ status_text \<lparr>ms_version = v, ms_dirty = False, ms_pending = 0\<rparr>"
proof -
  obtain dsn where dsn: "migrationDSN p fs = Inr dsn"
    using assms(2) by (auto simp: migrate_up_command_def split: sum.splits)
  obtain e d1 where up: "MigrateUp lib dsn d = (e, d1)" by (metis prod.exhaust)
  then have e: "e = None" "d1 = d'" and rep: "report lib (Inr names) dsn ''schema is up to date'' d' = Inr out"
    using assms(2) dsn by (auto simp: migrate_up_command_def split: option.splits)
  obtain v where "MigrateStatus lib (Inr names) dsn d' = Inr \<lparr>ms_version = v, ms_dirty = False, ms_pending = 0\<rparr>"
    using migrate_up_completes [OF assms(1), of dsn d d'] up e by auto
  then show ?thesis using rep by (auto simp: report_def)
qed

text \<open>The probe never dials the wildcard address a listener may be configured with.\<close>

lemma probe_host_dialable: "probe_host h \<notin> {[], ''0.0.0.0'', ''::'', ''[::]''}"
  by (simp add: probe_host_def)

end
