(* ===== verification/Admin.thy ===== *)
theory Admin
  imports Lifecycle Logging Config_Load
begin

text \<open>
  The private listener: health, readiness and version (\<open>internal/admin/admin.go\<close>), the debug surface
  (\<open>debug.go\<close>) and the build metadata it reports (\<open>internal/buildinfo\<close>). Readiness itself is in
  \<open>Lifecycle\<close>; here are the responses. Prometheus and pprof are handlers of their libraries.
\<close>

subsection \<open>Build metadata (buildinfo.go)\<close>

record build_vars =
  bv_version :: string
  bv_commit :: string
  bv_date :: string

definition build_unset :: build_vars where
  "build_unset = \<lparr>bv_version = ''dev'', bv_commit = ''none'', bv_date = ''unknown''\<rparr>"

definition vcs_setting :: "string \<times> string \<Rightarrow> build_vars \<Rightarrow> build_vars" where
  "vcs_setting kv b =
     (if fst kv = ''vcs.revision'' then
        (if length (snd kv) \<ge> 7 then b\<lparr>bv_commit := take 7 (snd kv)\<rparr> else b)
      else if fst kv = ''vcs.time'' then
        (if bv_date b = ''unknown'' then b\<lparr>bv_date := snd kv\<rparr> else b)
      else b)"

definition buildinfo_Set ::
  "(string \<times> string) list option \<Rightarrow> string \<Rightarrow> string \<Rightarrow> string \<Rightarrow> build_vars \<Rightarrow> build_vars" where
  "buildinfo_Set settings v c d b0 =
     (let b1 = (if v \<noteq> [] then b0\<lparr>bv_version := v\<rparr> else b0);
          b2 = (if c \<noteq> [] then b1\<lparr>bv_commit := c\<rparr> else b1);
          b3 = (if d \<noteq> [] then b2\<lparr>bv_date := d\<rparr> else b2)
      in if bv_commit b3 = ''none'' then
           (case settings of None \<Rightarrow> b3 | Some kvs \<Rightarrow> fold vcs_setting kvs b3)
         else b3)"

definition info_string :: "string \<Rightarrow> string \<Rightarrow> build_vars \<Rightarrow> string" where
  "info_string goVersion platform b =
     ''taskapi '' @ bv_version b @ '' (commit '' @ bv_commit b @ '', built '' @ bv_date b @ '', '' @ goVersion @
     '', '' @ platform @ '')''"

definition info_json :: "string \<Rightarrow> string \<Rightarrow> build_vars \<Rightarrow> string" where
  "info_json goVersion platform b =
     ''{'' @ json_members [json_member ''version'' (json_quote (bv_version b)), json_member ''commit'' (json_quote (bv_commit b)),
       json_member ''date'' (json_quote (bv_date b)), json_member ''go_version'' (json_quote goVersion),
       json_member ''platform'' (json_quote platform)] @ ''}''"

subsection \<open>Health and version (admin.go)\<close>

text \<open>\<open>json.Encoder\<close> ends its output with a newline; the members of a map come out in key order.\<close>

definition writeJSON :: "int \<Rightarrow> string \<Rightarrow> writer \<Rightarrow> writer" where
  "writeJSON status body w =
     Write (body @ [CHR 0x0A])
       (WriteHeader status (set_header ''Cache-Control'' ''no-store'' (set_header ''Content-Type'' ''application/json'' w)))"

definition json_strings :: "(string \<times> string) list \<Rightarrow> string" where
  "json_strings kvs =
     ''{'' @ json_members (map (\<lambda>(k, v). json_member k (json_quote v)) (sort_by (\<lambda>a b. fst a < fst b) kvs)) @ ''}''"

text \<open>\<open>Duration.Round(time.Second)\<close>: half a second rounds away from zero.\<close>

definition round_second :: "duration \<Rightarrow> duration" where
  "round_second d =
     (let r = \<bar>d\<bar> mod second in sgn d * (if 2 * r < second then \<bar>d\<bar> - r else \<bar>d\<bar> + second - r))"

definition healthz :: "time \<Rightarrow> time \<Rightarrow> writer \<Rightarrow> writer" where
  "healthz started now w =
     writeJSON 200 (json_strings [(''status'', ''ok''), (''uptime'', duration_string (round_second (now - started)))]) w"

definition serve_readyz :: "(string \<Rightarrow> go_error option) \<Rightarrow> health \<Rightarrow> writer \<Rightarrow> writer" where
  "serve_readyz probe h w =
     (case readyz probe h of
        (status, label, results) \<Rightarrow>
          if hl_draining h then writeJSON status (json_strings [(''status'', label)]) w
          else
            writeJSON status
              (''{'' @ json_members [json_member ''checks'' (json_strings results), json_member ''status'' (json_quote label)] @ ''}'') w)"

definition serve_version :: "string \<Rightarrow> string \<Rightarrow> build_vars \<Rightarrow> writer \<Rightarrow> writer" where
  "serve_version goVersion platform b w = writeJSON 200 (info_json goVersion platform b) w"

subsection \<open>The debug surface (debug.go)\<close>

record debug_surface =
  dg_Config :: bool
  dg_Level :: bool
  dg_Metrics :: bool
  dg_Pprof :: bool

definition registerPprof :: "string list" where
  "registerPprof = [''GET /debug/pprof/'', ''GET /debug/pprof/cmdline'', ''GET /debug/pprof/profile'',
     ''GET /debug/pprof/symbol'', ''POST /debug/pprof/symbol'', ''GET /debug/pprof/trace'']"

definition admin_register :: "debug_surface \<Rightarrow> string list" where
  "admin_register d =
     (if dg_Metrics d then [''GET /metrics''] else []) @
     (if dg_Config d then [''GET /debug/config''] else []) @
     (if dg_Level d then [''GET /debug/log-level'', ''PUT /debug/log-level''] else []) @
     (if dg_Pprof d then registerPprof else [])"

definition admin_Mux :: "debug_surface \<Rightarrow> string list" where
  "admin_Mux d = [''GET /healthz'', ''GET /readyz'', ''GET /version''] @ admin_register d"

text \<open>The renderer writes what it can before it fails.\<close>

definition configHandler :: "string \<times> go_error option \<Rightarrow> writer \<Rightarrow> writer" where
  "configHandler rendered w =
     (let w1 = set_header ''Cache-Control'' ''no-store'' (set_header ''Content-Type'' ''application/yaml'' w);
          w2 = (if fst rendered = [] then w1 else Write (fst rendered) w1)
      in case snd rendered of
           None \<Rightarrow> w2
         | Some e \<Rightarrow> Write ([CHR 0x0A] @ ''# error rendering configuration: '' @ error_text e @ [CHR 0x0A]) w2)"

definition getLevel :: "level \<Rightarrow> writer \<Rightarrow> writer" where
  "getLevel lvl w = writeJSON 200 (json_strings [(''level'', LevelName lvl)]) w"

definition read_limited :: "nat \<Rightarrow> body \<Rightarrow> string result" where
  "read_limited n b = (if length (fst b) \<ge> n then Inr (take n (fst b)) else ReadAll b)"

text \<open>\<open>setLevel\<close> on the level the process runs with; \<open>query\<close> is the parameter \<open>level\<close> of the URL.\<close>

definition setLevel :: "body \<Rightarrow> string \<Rightarrow> level \<Rightarrow> writer \<Rightarrow> writer \<times> level" where
  "setLevel b query lvl w =
     (case read_limited 64 b of
        Inl e \<Rightarrow> (writeJSON 400 (json_strings [(''error'', ''could not read the body'')]) w, lvl)
      | Inr text' \<Rightarrow>
          (let want = (if trim_space text' = [] then trim_space query else trim_space text') in
           case SetLevel want lvl of
             (Some e, lvl') \<Rightarrow> (writeJSON 400 (json_strings [(''error'', error_text e)]) w, lvl')
           | (None, lvl') \<Rightarrow> (writeJSON 200 (json_strings [(''level'', LevelName lvl')]) w, lvl')))"

subsection \<open>Answers\<close>

lemma writeJSON_conn:
  "w_status (writeJSON st b conn_writer) = st \<and> w_body (writeJSON st b conn_writer) = b @ [CHR 0x0A] \<and>
   header_Get (w_sent (writeJSON st b conn_writer)) ''Cache-Control'' = ''no-store''"
  by (simp add: writeJSON_def conn_writer_def set_header_def WriteHeader_def Write_def header_Set_def header_Get_def Let_def)

text \<open>A draining replica, or one whose database is gone, is out of rotation but alive.\<close>

theorem liveness_ignores_dependencies:
  "w_status (healthz started now conn_writer) = 200 \<and>
   w_status (serve_readyz probe (StartDraining h) conn_writer) = 503 \<and>
   (w_status (serve_readyz probe h conn_writer) = 200 \<longleftrightarrow>
      \<not> hl_draining h \<and> (\<forall>c \<in> set (hl_checks h). probe c = None))"
proof -
  have "w_status (serve_readyz probe g conn_writer) = fst (readyz probe g)" for g
    by (auto simp: serve_readyz_def writeJSON_conn split: prod.splits)
  then show ?thesis using readyz_spec [of probe h] by (simp add: healthz_def writeJSON_conn)
qed

text \<open>
  The level changes exactly when the name is one of the logger's, and then the answer, and every later
  look at it, shows the level in force; a name it does not know is a 400 that changes nothing.
\<close>

theorem level_knob:
  assumes "setLevel b query lvl conn_writer = (w, lvl')"
  shows "w_status w = 200 \<and> w_body w = w_body (getLevel lvl' conn_writer) \<and>
      lvl' \<in> {LevelTrace, LevelDebug, LevelInfo, LevelWarn, LevelError} \<or>
    w_status w = 400 \<and> lvl' = lvl"
proof -
  have levels: "l \<in> {LevelTrace, LevelDebug, LevelInfo, LevelWarn, LevelError}" if "ParseLevel s = (l, None)" for s l
    using that by (auto simp: ParseLevel_def Let_def split: if_splits)
  show ?thesis
    using assms levels
    by (auto simp: setLevel_def SetLevel_def getLevel_def writeJSON_conn Let_def split: sum.splits prod.splits option.splits)
qed

text \<open>Profiling is reachable only where it was turned on, and nothing but the three probes is there by default.\<close>

lemma pprof_only_when_enabled: "set registerPprof \<inter> set (admin_Mux d) \<noteq> {} \<longleftrightarrow> dg_Pprof d"
  by (auto simp: admin_Mux_def admin_register_def registerPprof_def split: if_splits)

text \<open>Values set at link time win over the stamps of the version control system.\<close>

lemma vcs_keeps:
  "bv_version (fold vcs_setting kvs b) = bv_version b \<and>
   (bv_date b \<noteq> ''unknown'' \<longrightarrow> bv_date (fold vcs_setting kvs b) = bv_date b)"
  by (induction kvs arbitrary: b) (simp_all add: vcs_setting_def)

theorem link_time_wins:
  assumes "v \<noteq> []" and "c \<noteq> []" and "c \<noteq> ''none''" and "d \<noteq> []"
  shows "buildinfo_Set settings v c d b = \<lparr>bv_version = v, bv_commit = c, bv_date = d\<rparr>"
  using assms by (simp add: buildinfo_Set_def Let_def)

end
