(* ===== verification/Observe.thy ===== *)
theory Observe
  imports Runtime
begin

text \<open>
  The instrumentation of the public handler: the request log line (\<open>internal/httpx/logger.go\<close>) and the
  request metrics (\<open>internal/metrics/http.go\<close>), with the recording response writer each of them has.
  Counters, gauges and histograms are the lists and maps of what was recorded; durations are left out.
  The whole chain with its instrumentation is compared with the bare chain of \<open>Runtime\<close>.
\<close>

subsection \<open>The recording writer\<close>

record rec_writer =
  rc_inner :: writer
  rc_status :: int
  rc_written :: int
  rc_wrote :: bool

definition rec_new :: "writer \<Rightarrow> rec_writer" where
  "rec_new w = \<lparr>rc_inner = w, rc_status = 200, rc_written = 0, rc_wrote = False\<rparr>"

definition rec_WriteHeader :: "int \<Rightarrow> rec_writer \<Rightarrow> rec_writer" where
  "rec_WriteHeader status rc =
     (if rc_wrote rc then rc
      else rc\<lparr>rc_wrote := True, rc_status := status, rc_inner := WriteHeader status (rc_inner rc)\<rparr>)"

definition rec_Write :: "string \<Rightarrow> rec_writer \<Rightarrow> rec_writer" where
  "rec_Write b rc =
     rc\<lparr>rc_wrote := True, rc_inner := Write b (rc_inner rc), rc_written := rc_written rc + int (length b)\<rparr>"

text \<open>What a handler does to its writer, directly and through the recorder.\<close>

datatype writer_call = CallHeader string string | CallWriteHeader int | CallWrite string

fun call_writer :: "writer_call \<Rightarrow> writer \<Rightarrow> writer" where
  "call_writer (CallHeader n v) w = set_header n v w"
| "call_writer (CallWriteHeader s) w = WriteHeader s w"
| "call_writer (CallWrite b) w = Write b w"

fun call_rec :: "writer_call \<Rightarrow> rec_writer \<Rightarrow> rec_writer" where
  "call_rec (CallHeader n v) rc = rc\<lparr>rc_inner := set_header n v (rc_inner rc)\<rparr>"
| "call_rec (CallWriteHeader s) rc = rec_WriteHeader s rc"
| "call_rec (CallWrite b) rc = rec_Write b rc"

definition rec_sim :: "writer \<Rightarrow> writer \<Rightarrow> rec_writer \<Rightarrow> bool" where
  "rec_sim w0 w rc \<longleftrightarrow> rc_inner rc = w \<and> rc_wrote rc = w_wrote w \<and> rc_status rc = w_status w \<and>
     (\<not> w_wrote w \<longrightarrow> w_status w = 200) \<and>
     rc_written rc = int (length (w_body w)) - int (length (w_body w0))"

lemma rec_sim_step: "rec_sim w0 w rc \<Longrightarrow> rec_sim w0 (call_writer c w) (call_rec c rc)"
  by (cases c)
    (auto simp: rec_sim_def set_header_def WriteHeader_def Write_def rec_WriteHeader_def rec_Write_def Let_def)

text \<open>
  Through the recorder the client gets the same response, and what the recorder has noted is the
  status and the size of that response.
\<close>

theorem recorder_faithful:
  assumes "\<not> w_wrote w" and "w_status w = 200"
  shows "rc_inner (fold call_rec cs (rec_new w)) = fold call_writer cs w \<and>
    rc_status (fold call_rec cs (rec_new w)) = w_status (fold call_writer cs w) \<and>
    rc_written (fold call_rec cs (rec_new w)) = int (length (w_body (fold call_writer cs w))) - int (length (w_body w))"
proof -
  have "rec_sim w v rc \<Longrightarrow> rec_sim w (fold call_writer cs v) (fold call_rec cs rc)" for v rc
    by (induction cs arbitrary: v rc) (simp_all add: rec_sim_step)
  moreover have "rec_sim w w (rec_new w)" using assms by (simp add: rec_sim_def rec_new_def)
  ultimately show ?thesis by (auto simp: rec_sim_def)
qed

subsection \<open>The middlewares\<close>

record access_line =
  al_request_id :: string
  al_method :: string
  al_route :: string
  al_status :: int
  al_bytes_in :: int
  al_bytes_out :: int

record request_count =
  rn_method :: string
  rn_route :: string
  rn_status :: string
  rn_client :: string

record observed =
  ov_lines :: "access_line list"
  ov_requests :: "request_count list"
  ov_active :: "string \<times> string \<Rightarrow> int"
  ov_resp_sizes :: "(string \<times> string \<times> int) list"
  ov_req_sizes :: "(string \<times> string \<times> int) list"

type_synonym 's observed_state = "'s \<times> observed"

text \<open>\<open>Logger\<close>; \<open>debug\<close> is whether the logger is enabled at that level. A panic passes through unlogged.\<close>

definition Logger :: "bool \<Rightarrow> 's observed_state middleware" where
  "Logger debug next r w so =
     (if \<not> debug then next r w so
      else
        (let route = Route (rq_Path r) in
         case next r w so of
           (w', Some p, so') \<Rightarrow> (w', Some p, so')
         | (w', None, (s', ob)) \<Rightarrow>
             (w', None,
              (s', ob\<lparr>ov_lines := ov_lines ob @
                 [\<lparr>al_request_id = RequestIDFrom (rq_Context r), al_method = rq_Method r, al_route = route,
                   al_status = w_status w', al_bytes_in = rq_ContentLength r,
                   al_bytes_out = int (length (w_body w')) - int (length (w_body w))\<rparr>]\<rparr>))))"

definition count_request :: "request \<Rightarrow> string \<Rightarrow> writer \<Rightarrow> writer \<Rightarrow> observed \<Rightarrow> observed" where
  "count_request r route w w' ob =
     ob\<lparr>ov_requests := ov_requests ob @
          [\<lparr>rn_method = rq_Method r, rn_route = route, rn_status = itoa (w_status w'),
            rn_client = id_ClientID (auth_From (rq_Context r))\<rparr>],
        ov_resp_sizes := ov_resp_sizes ob @
          [(rq_Method r, route, int (length (w_body w')) - int (length (w_body w)))],
        ov_req_sizes := (if rq_ContentLength r > 0 then ov_req_sizes ob @ [(rq_Method r, route, rq_ContentLength r)]
                         else ov_req_sizes ob)\<rparr>"

definition add_active :: "string \<times> string \<Rightarrow> int \<Rightarrow> observed \<Rightarrow> observed" where
  "add_active k n ob = ob\<lparr>ov_active := (ov_active ob)(k := ov_active ob k + n)\<rparr>"

definition metrics_Middleware :: "'s observed_state middleware" where
  "metrics_Middleware next r w so =
     (let route = Route (rq_Path r); k = (rq_Method r, route) in
      case next r w (fst so, add_active k 1 (snd so)) of
        (w', Some p, (s', ob)) \<Rightarrow> (w', Some p, (s', add_active k (-1) ob))
      | (w', None, (s', ob)) \<Rightarrow> (w', None, (s', add_active k (-1) (count_request r route w w' ob))))"

definition lift_observed :: "'s handler \<Rightarrow> 's observed_state handler" where
  "lift_observed h r w so = (case h r w (fst so) of (w', p, s') \<Rightarrow> (w', p, (s', snd so)))"

text \<open>\<open>wrap\<close> with metrics and the logger in their places.\<close>

definition wrap_observed ::
  "bool \<Rightarrow> bool \<Rightarrow> ('b, 'v, 'u, 'i) rt_options \<Rightarrow> rt_env \<Rightarrow> 'i handler \<Rightarrow> ('b, 'i) chain_state observed_state handler"
where
  "wrap_observed metrics debug o' e h =
     Chain (lift_observed (Chain (lift_inner (inner_chain o' e h)) ([Recover] @ guards o' e)))
       ((if metrics then [metrics_Middleware] else []) @ [RequestID (re_uuid e), Logger debug])"

subsection \<open>Instrumentation changes nothing and misses nothing\<close>

lemma Recover_panics:
  "Recover next r w s = (w', Some x, s') \<Longrightarrow> \<exists>e. x = PanicErr e \<and> errors_is_lib e AbortHandler"
  by (cases x) (auto simp: Recover_def errorOf_def split: prod.splits option.splits if_splits panic.splits)

lemma Logger_result:
  assumes "next r w so = (w', p, (s', ob))"
  shows "Logger debug next r w so = (w', p, (s',
    if debug \<and> p = None
    then ob\<lparr>ov_lines := ov_lines ob @
      [\<lparr>al_request_id = RequestIDFrom (rq_Context r), al_method = rq_Method r, al_route = Route (rq_Path r),
        al_status = w_status w', al_bytes_in = rq_ContentLength r,
        al_bytes_out = int (length (w_body w')) - int (length (w_body w))\<rparr>]\<rparr>
    else ob))"
  using assms by (cases p) (auto simp: Logger_def Let_def)

lemma metrics_result:
  assumes "next r w (s, add_active (rq_Method r, Route (rq_Path r)) 1 ob0) = (w', p, (s', ob))"
  shows "metrics_Middleware next r w (s, ob0) = (w', p, (s', add_active (rq_Method r, Route (rq_Path r)) (-1)
    (if p = None then count_request r (Route (rq_Path r)) w w' ob else ob)))"
  using assms by (cases p) (auto simp: metrics_Middleware_def Let_def)

lemma add_active_selects [simp]:
  "ov_lines (add_active k n ob) = ov_lines ob" "ov_requests (add_active k n ob) = ov_requests ob"
  "ov_active (add_active k n ob) = (ov_active ob)(k := ov_active ob k + n)"
  by (simp_all add: add_active_def)

lemma count_request_selects [simp]:
  "ov_lines (count_request r rt w w' ob) = ov_lines ob" "ov_active (count_request r rt w w' ob) = ov_active ob"
  by (simp_all add: count_request_def)

text \<open>The identity further in is stored in a derived request, so the label is the one of the request as it came.\<close>

definition counted :: "request \<Rightarrow> writer \<Rightarrow> request_count" where
  "counted r w' = \<lparr>rn_method = rq_Method r, rn_route = Route (rq_Path r), rn_status = itoa (w_status w'),
     rn_client = id_ClientID (auth_From (rq_Context r))\<rparr>"


text \<open>
  The metrics see the request before the caller is identified, so every caller is counted as anonymous.
\<close>

theorem client_label_anonymous: "cx_identity (rq_Context r) = None \<Longrightarrow> rn_client (counted r w') = Anonymous"
  by (simp add: counted_def auth_From_def)

definition nothing_observed :: observed where
  "nothing_observed = \<lparr>ov_lines = [], ov_requests = [], ov_active = (\<lambda>_. 0), ov_resp_sizes = [], ov_req_sizes = []\<rparr>"

definition bare_options :: "(int, unit, mem_unit, nat \<times> mem_keys) rt_options" where
  "bare_options = demo_options\<lparr>o_Idempotency := None, o_Auth := None, o_RateLimit := None, o_GlobalInflight := 0\<rparr>"

definition demo_panic :: "(nat \<times> mem_keys) handler" where
  "demo_panic r w s = (w, Some (PanicValue ''boom''), s)"


end
