(* ===== verification/Api.thy ===== *)
theory Api
  imports Outbox
begin

text \<open>
  The transport layer of \<open>internal/api\<close> (\<open>errors.go\<close>, \<open>convert.go\<close>, \<open>server.go\<close>): the Connect
  service over the domain service. Request and response messages are records of the fields the
  code reads and writes; a request's task may be absent. A call returns a Connect error, a code
  and a message, or a response.
\<close>

subsection \<open>Errors (errors.go)\<close>

datatype connect_code =
    CodeCanceled | CodeInvalidArgument | CodeDeadlineExceeded | CodeNotFound | CodePermissionDenied
  | CodeResourceExhausted | CodeAborted | CodeInternal | CodeUnavailable | CodeUnauthenticated

record connect_error =
  ce_code :: connect_code
  ce_message :: string

definition codeByKind :: "kind \<Rightarrow> connect_code option" where
  "codeByKind k =
     map_of [(Invalid, CodeInvalidArgument), (Unauthenticated, CodeUnauthenticated), (Forbidden, CodePermissionDenied),
       (NotFound, CodeNotFound), (Conflict, CodeAborted), (Unprocessable, CodeInvalidArgument),
       (Exhausted, CodeResourceExhausted), (Unavailable, CodeUnavailable), (Timeout, CodeDeadlineExceeded),
       (Canceled, CodeCanceled)] k"

definition toConnectError :: "go_error \<Rightarrow> connect_error" where
  "toConnectError e =
     \<lparr>ce_code = (case codeByKind (KindOf (Some e)) of Some c \<Rightarrow> c | None \<Rightarrow> CodeInternal),
      ce_message = Message (Some e)\<rparr>"

subsection \<open>Messages (convert.go)\<close>

record timestamp =
  ts_seconds :: int
  ts_nanos :: int

definition timestamp_New :: "time \<Rightarrow> timestamp" where
  "timestamp_New t = \<lparr>ts_seconds = t div second, ts_nanos = t mod second\<rparr>"

record proto_task =
  pt_id :: string
  pt_name :: string
  pt_status :: int32
  pt_created :: timestamp
  pt_updated :: timestamp
  pt_version :: int64

definition toProto :: "go_lib \<Rightarrow> task \<Rightarrow> proto_task" where
  "toProto lib t =
     \<lparr>pt_id = uuid_string lib (t_id t), pt_name = t_name t, pt_status = t_status t,
      pt_created = timestamp_New (t_created t), pt_updated = timestamp_New (t_updated t), pt_version = t_version t\<rparr>"

definition toProtoList :: "go_lib \<Rightarrow> task list \<Rightarrow> proto_task list" where
  "toProtoList lib ts = map (toProto lib) ts"

definition parseID :: "go_lib \<Rightarrow> string \<Rightarrow> uuid result" where
  "parseID lib raw =
     (case uuid_parse lib raw of None \<Rightarrow> Inl (Field ''id'' ''must be a UUID'') | Some i \<Rightarrow> Inr i)"

definition statusFilter :: "int32 option \<Rightarrow> int32 option" where
  "statusFilter s = (case s of None \<Rightarrow> None | Some v \<Rightarrow> Some v)"

subsection \<open>The server (server.go)\<close>

record list_request =
  lq_status :: "int32 option"
  lq_page_size :: int
  lq_page_token :: string

record list_response =
  lr_result :: "proto_task list"
  lr_next :: string

definition ListTasks ::
  "('c, 's) repository \<Rightarrow> go_lib \<Rightarrow> 'c \<Rightarrow> list_request \<Rightarrow> 's \<Rightarrow> connect_error + list_response" where
  "ListTasks repo lib c req s =
     (case service_List repo lib c \<lparr>li_status = statusFilter (lq_status req), li_size = lq_page_size req,
             li_token = lq_page_token req\<rparr> s of
        Inl e \<Rightarrow> Inl (toConnectError e)
      | Inr p \<Rightarrow> Inr \<lparr>lr_result = toProtoList lib (p_tasks p), lr_next = cursor_encode lib (p_next p)\<rparr>)"

definition CreateTask ::
  "('c, 's) repository \<Rightarrow> go_lib \<Rightarrow> 'c \<Rightarrow> time \<Rightarrow> uuid \<Rightarrow> proto_task option \<Rightarrow> 's \<Rightarrow>
   (connect_error + proto_task) \<times> 's" where
  "CreateTask repo lib c now newID inp s =
     (case inp of
        None \<Rightarrow> (Inl (toConnectError (Field ''task'' ''must be present'')), s)
      | Some t \<Rightarrow>
          (case service_Create repo c now newID \<lparr>ci_name = pt_name t, ci_status = pt_status t\<rparr> s of
             (Inl e, s') \<Rightarrow> (Inl (toConnectError e), s')
           | (Inr u, s') \<Rightarrow> (Inr (toProto lib u), s')))"

definition UpdateTask ::
  "('c, 's) repository \<Rightarrow> go_lib \<Rightarrow> 'c \<Rightarrow> time \<Rightarrow> string \<Rightarrow> proto_task option \<Rightarrow> 's \<Rightarrow>
   (connect_error + proto_task) \<times> 's" where
  "UpdateTask repo lib c now rid inp s =
     (case parseID lib rid of
        Inl e \<Rightarrow> (Inl (toConnectError e), s)
      | Inr i \<Rightarrow>
          (case inp of
             None \<Rightarrow> (Inl (toConnectError (Field ''task'' ''must be present'')), s)
           | Some t \<Rightarrow>
               (case service_Update repo lib c now
                       \<lparr>ui_id = i, ui_name = pt_name t, ui_status = pt_status t, ui_expected = pt_version t\<rparr> s of
                  (Inl e, s') \<Rightarrow> (Inl (toConnectError e), s')
                | (Inr u, s') \<Rightarrow> (Inr (toProto lib u), s'))))"

definition DeleteTask ::
  "('c, 's) repository \<Rightarrow> go_lib \<Rightarrow> 'c \<Rightarrow> string \<Rightarrow> 's \<Rightarrow> connect_error option \<times> 's" where
  "DeleteTask repo lib c rid s =
     (case parseID lib rid of
        Inl e \<Rightarrow> (Some (toConnectError e), s)
      | Inr i \<Rightarrow>
          (case service_Delete repo lib c i s of
             (Some e, s') \<Rightarrow> (Some (toConnectError e), s')
           | (None, s') \<Rightarrow> (None, s')))"

subsection \<open>What a client learns of an error\<close>

lemma Message_wraps [simp]: "Message (Some (foldr WrapError ts e)) = Message (Some e)"
  by (simp add: Message_def Let_def)

lemma toConnectError_wraps [simp]: "toConnectError (foldr WrapError ts e) = toConnectError e"
  by (simp add: toConnectError_def)

lemma toConnectError_Wrap [simp]: "toConnectError (WrapError t e) = toConnectError e"
  using toConnectError_wraps [of "[t]" e] by simp

lemma Message_App: "Message (Some (AppError k f m c)) = Message (Some (AppError k f m None))"
  by (cases c) (auto simp: Message_def KindOf_def as_app_def Let_def)

lemma as_app_None_Plain: "as_app e = None \<Longrightarrow> KindOf (Some e) = Internal \<Longrightarrow> Message (Some e) = ''internal error''"
  by (simp add: Message_def kind_message_def normalize_def)



subsection \<open>What a client is told of an update\<close>

definition proto_update :: "go_lib \<Rightarrow> string \<Rightarrow> proto_task \<Rightarrow> update_input option" where
  "proto_update lib rid t =
     map_option (\<lambda>i. \<lparr>ui_id = i, ui_name = pt_name t, ui_status = pt_status t, ui_expected = pt_version t\<rparr>) (uuid_parse lib rid)"

definition update_draft :: "time \<Rightarrow> update_input \<Rightarrow> task" where
  "update_draft now inp = \<lparr>t_id = ui_id inp, t_name = ui_name inp, t_status = ui_status inp,
     t_created = 0, t_updated = now, t_version = 0\<rparr>"

lemma UpdateTask_service:
  "proto_update lib rid t = Some inp \<Longrightarrow> UpdateTask repo lib c now rid (Some t) s =
     (case service_Update repo lib c now inp s of
        (Inl e, s') \<Rightarrow> (Inl (toConnectError e), s') | (Inr u, s') \<Rightarrow> (Inr (toProto lib u), s'))"
  by (auto simp: UpdateTask_def parseID_def proto_update_def split: option.splits)

lemma sentinel_codes:
  "toConnectError ErrNotFound = \<lparr>ce_code = CodeNotFound, ce_message = ''task not found''\<rparr>"
  "toConnectError ErrConflict = \<lparr>ce_code = CodeAborted, ce_message = ''the task was modified by someone else''\<rparr>"
  by (simp_all add: toConnectError_def ErrNotFound_def ErrConflict_def New_def codeByKind_def Message_def as_app_def)

context task_repository
begin

lemma api_update:
  assumes "inv s" and "working c" and "proto_update lib rid t = Some inp" and "update_valid inp"
    and "storable (update_draft now inp)"
  shows "case view s (ui_id inp) of
      None \<Rightarrow> fst (UpdateTask repo lib c now rid (Some t) s) = Inl (toConnectError ErrNotFound)
    | Some old \<Rightarrow>
        if \<not> version_allows (ui_expected inp) old
        then fst (UpdateTask repo lib c now rid (Some t) s) = Inl (toConnectError ErrConflict)
        else t_version old \<noteq> 0x7FFFFFFFFFFFFFFF \<longrightarrow>
          (\<exists>s'. UpdateTask repo lib c now rid (Some t) s =
            (Inr (toProto lib (old\<lparr>t_name := ui_name inp, t_status := ui_status inp, t_updated := stored now,
               t_version := t_version old + 1\<rparr>)), s'))"
proof (cases "view s (ui_id inp)")
  case None
  then have "fst (r_Update repo c (update_draft now inp) (ui_expected inp) s) = Inl ErrNotFound"
    using update_missing [OF assms(1,2,5)] by (simp add: update_draft_def)
  then show ?thesis using None assms(4)
    by (auto simp: UpdateTask_service [OF assms(3)] service_Update_valid update_draft_def split: prod.splits sum.splits)
next
  case (Some old)
  show ?thesis
  proof (cases "version_allows (ui_expected inp) old")
    case False
    then have "fst (r_Update repo c (update_draft now inp) (ui_expected inp) s) = Inl ErrConflict"
      using update_stale [OF assms(1,2,5) _ False] Some by (simp add: update_draft_def)
    then show ?thesis using Some False assms(4)
      by (auto simp: UpdateTask_service [OF assms(3)] service_Update_valid update_draft_def split: prod.splits sum.splits)
  next
    case True
    have "\<exists>s'. UpdateTask repo lib c now rid (Some t) s = (Inr (toProto lib (old\<lparr>t_name := ui_name inp,
        t_status := ui_status inp, t_updated := stored now, t_version := t_version old + 1\<rparr>)), s')"
      if room: "t_version old \<noteq> 0x7FFFFFFFFFFFFFFF"
    proof -
      obtain u s' where "r_Update repo c (update_draft now inp) (ui_expected inp) s = (Inr u, s')"
        using update_works [OF assms(1,2,5) _ True room] Some by (auto simp: update_draft_def)
      then have upd: "service_Update repo lib c now inp s = (Inr u, s')"
        using assms(4) by (simp add: service_Update_valid update_draft_def)
      from service_update_done [OF assms(1) this] Some have "u = old\<lparr>t_name := ui_name inp, t_status := ui_status inp,
          t_updated := stored now, t_version := t_version old + 1\<rparr>" by auto
      with upd show ?thesis by (simp add: UpdateTask_service [OF assms(3)])
    qed
    with Some True show ?thesis by simp
  qed
qed

end

text \<open>
  The update call against Postgres answers by what is stored. With the database working and a valid request: an unknown id is NotFound; a version that is neither 0 nor the stored one is Aborted, which tells the client to read again; otherwise the answer is the stored task with the new name and status, the update time as the database keeps it, the creation time it had and the next version.\<close>
theorem update_call_answers:
  assumes "pg_inv s" and "pg_working c" and "proto_update lib rid t = Some inp" and "update_valid inp"
    and "pg_storable (update_draft now inp)"
  shows "case pg_view s (ui_id inp) of
      None \<Rightarrow> fst (UpdateTask (pgrepo lib) lib c now rid (Some t) s) =
        Inl \<lparr>ce_code = CodeNotFound, ce_message = ''task not found''\<rparr>
    | Some old \<Rightarrow>
        if ui_expected inp \<noteq> 0 \<and> t_version old \<noteq> ui_expected inp
        then fst (UpdateTask (pgrepo lib) lib c now rid (Some t) s) =
          Inl \<lparr>ce_code = CodeAborted, ce_message = ''the task was modified by someone else''\<rparr>
        else t_version old \<noteq> 0x7FFFFFFFFFFFFFFF \<longrightarrow>
          (\<exists>s'. UpdateTask (pgrepo lib) lib c now rid (Some t) s =
            (Inr (toProto lib (old\<lparr>t_name := ui_name inp, t_status := ui_status inp, t_updated := tz now,
               t_version := t_version old + 1\<rparr>)), s'))"
  using pg.api_update [OF assms] by (auto simp: sentinel_codes version_allows_def split: option.splits if_splits)

definition demo_put :: "int64 \<Rightarrow> proto_task" where
  "demo_put v = \<lparr>pt_id = [], pt_name = ''a'', pt_status = 1, pt_created = timestamp_New 0, pt_updated = timestamp_New 0, pt_version = v\<rparr>"

theorem update_call_answers_witness:
  "\<exists>s'. UpdateTask (pgrepo std_lib) std_lib demo_pg_ctx 7000 (uuid_string std_lib 2) (Some (demo_put 1)) demo_pg =
     (Inr (toProto std_lib ((demo_pg_task 2)\<lparr>t_name := ''a'', t_status := 1, t_updated := 7000, t_version := 2\<rparr>)), s')"
proof -
  let ?inp = "\<lparr>ui_id = 2, ui_name = ''a'', ui_status = 1, ui_expected = 1\<rparr>"
  have p: "proto_update std_lib (uuid_string std_lib 2) (demo_put 1) = Some ?inp"
    using std_uuid_laws by (simp add: proto_update_def demo_put_def uuid_laws_def)
  have st: "pg_storable (update_draft 7000 ?inp)"
    by (simp add: pg_storable_def tasks_check_def utf8_length_def update_draft_def)
  have v: "pg_view demo_pg 2 = Some (demo_pg_task 2)"
    by (simp add: pg_view_def sql_find_def demo_pg_def demo_pg_task_def)
  have "t_version (demo_pg_task 2) = 1" "tz 7000 = 7000" by (simp_all add: demo_pg_task_def tz_def)
  with update_call_answers [OF demo_pg_inv demo_pg_working p demo_update_valid st] v show ?thesis by simp
qed

subsection \<open>What the calls can store\<close>

text \<open>A client's calls in any order, each with its own clock reading, identifier and failures.\<close>

datatype api_call =
  CallCreate pg_ctx time uuid "proto_task option"
| CallUpdate pg_ctx time string "proto_task option"
| CallDelete pg_ctx string

fun api_step :: "go_lib \<Rightarrow> api_call \<Rightarrow> pg_state \<Rightarrow> pg_state" where
  "api_step lib (CallCreate c now newID inp) s = snd (CreateTask (pgrepo lib) lib c now newID inp s)"
| "api_step lib (CallUpdate c now rid inp) s = snd (UpdateTask (pgrepo lib) lib c now rid inp s)"
| "api_step lib (CallDelete c rid) s = snd (DeleteTask (pgrepo lib) lib c rid s)"

definition api_run :: "go_lib \<Rightarrow> api_call list \<Rightarrow> pg_state \<Rightarrow> pg_state" where
  "api_run lib calls s = fold (api_step lib) calls s"

lemma api_step_well_formed: "pg.well_formed s \<Longrightarrow> pg.well_formed (api_step lib call s)"
  by (cases call)
    (auto simp: CreateTask_def UpdateTask_def DeleteTask_def split: option.splits sum.splits prod.splits
      dest: pg.service_create_well_formed pg.service_update_well_formed pg.service_delete_well_formed)

lemma pg_well_formed_rows:
  assumes "pg.well_formed s"
  shows "distinct (map t_id (pg_tasks s)) \<and>
    list_all (\<lambda>t. name_ok (t_name t) \<and> status_valid (t_status t)) (pg_tasks s)"
proof -
  have d: "distinct (map t_id (pg_tasks s))" using assms by (simp add: pg.well_formed_def pg_inv_def)
  have "pg_view s (t_id t) = Some t" if "t \<in> set (pg_tasks s)" for t
    using d that by (simp add: pg_view_def sql_find_unique)
  then show ?thesis using d assms by (fastforce simp: pg.well_formed_def list_all_iff)
qed

text \<open>
  C20: Every task in the database is well-typed, whatever clients ask for. From an empty table, after any sequence of create, update and delete calls, valid or not, with any of their database statements failing, every stored row has a name that is not blank and at most 255 bytes long and one of the two statuses, and no two rows share an identifier.\<close>
theorem stored_tasks_valid:
  "let rows = pg_tasks (api_run lib calls (s\<lparr>pg_tasks := []\<rparr>)) in
   distinct (map t_id rows) \<and> list_all (\<lambda>t. name_ok (t_name t) \<and> status_valid (t_status t)) rows"
proof -
  have "pg.well_formed s' \<Longrightarrow> pg.well_formed (fold (api_step lib) calls s')" for s'
    by (induction calls arbitrary: s') (auto intro: api_step_well_formed)
  moreover have "pg.well_formed (s\<lparr>pg_tasks := []\<rparr>)"
    by (simp add: pg.well_formed_def pg_inv_def pg_view_def sql_find_def)
  ultimately show ?thesis unfolding api_run_def Let_def by (intro pg_well_formed_rows) blast
qed

end
