(* ===== verification/Sink.thy ===== *)
theory Sink
  imports Httpx Config
begin

text \<open>
  The unreliable webhook receiver used to demonstrate delivery, \<open>deploy/webhook-sink/main.go\<close>. It
  counts deliveries per event, so that its statistics show how often an event arrived. The JSON
  decoder and encoder, the duration parser and the text of the control reply are arguments.
\<close>

record sink =
  sk_seen :: "(string \<times> nat) list"
  sk_received :: nat
  sk_failRate :: float64
  sk_latency :: duration
  sk_down :: bool

definition http_Error :: "string \<Rightarrow> int \<Rightarrow> writer \<Rightarrow> writer" where
  "http_Error msg status w =
     Write (msg @ [CHR 0x0A])
       (WriteHeader status
         (set_header ''X-Content-Type-Options'' ''nosniff''
           (set_header ''Content-Type'' ''text/plain; charset=utf-8'' w)))"

definition seen_count :: "string \<Rightarrow> sink \<Rightarrow> nat" where
  "seen_count i s = (case map_of (sk_seen s) i of None \<Rightarrow> 0 | Some n \<Rightarrow> n)"

text \<open>
  \<open>receive\<close>: \<open>gone\<close> is whether the caller went away during the injected latency, \<open>draw\<close> the random
  number in [0, 1).
\<close>

definition sink_receive :: "bool \<Rightarrow> rat \<Rightarrow> request \<Rightarrow> writer \<Rightarrow> sink \<Rightarrow> writer \<times> sink" where
  "sink_receive gone draw r w s =
     (if sk_latency s > 0 \<and> gone then (w, s)
      else if sk_down s then (http_Error ''sink is down'' 503 w, s)
      else if f_greater (sk_failRate s) 0 \<and> f_greater (sk_failRate s) draw then
        (http_Error ''injected failure'' 500 w, s)
      else
        (let i = header_Get (rq_Header r) ''X-Event-Id'' in
         (WriteHeader 200 w,
          s\<lparr>sk_received := Suc (sk_received s), sk_seen := AList.update i (Suc (seen_count i s)) (sk_seen s)\<rparr>)))"

record sink_stats =
  ss_received :: nat
  ss_distinct :: nat
  ss_duplicates :: nat
  ss_by_event :: "(string \<times> nat) list"

definition stats :: "sink \<Rightarrow> sink_stats" where
  "stats s = \<lparr>ss_received = sk_received s, ss_distinct = length (sk_seen s),
     ss_duplicates = sum_list (map (\<lambda>(i, n). if n > 1 then n - 1 else 0) (sk_seen s)), ss_by_event = sk_seen s\<rparr>"

record control_request =
  cq_FailRate :: "float64 option"
  cq_Latency :: "string option"
  cq_Down :: "bool option"
  cq_Reset :: bool

definition sink_control ::
  "(string \<Rightarrow> control_request result) \<Rightarrow> (string \<Rightarrow> duration result) \<Rightarrow> (sink \<Rightarrow> string) \<Rightarrow> string \<Rightarrow> writer \<Rightarrow>
   sink \<Rightarrow> writer \<times> sink"
where
  "sink_control decode parse render body w s =
     (case decode body of
        Inl e \<Rightarrow> (http_Error (error_text e) 400 w, s)
      | Inr req \<Rightarrow>
          (let s1 = (case cq_FailRate req of None \<Rightarrow> s | Some f \<Rightarrow> s\<lparr>sk_failRate := f\<rparr>) in
           case (case cq_Latency req of None \<Rightarrow> Inr (sk_latency s1) | Some t \<Rightarrow> parse t) of
             Inl e \<Rightarrow> (http_Error (error_text e) 400 w, s1)
           | Inr d \<Rightarrow>
               (let s2 = s1\<lparr>sk_latency := d\<rparr>;
                    s3 = (case cq_Down req of None \<Rightarrow> s2 | Some b \<Rightarrow> s2\<lparr>sk_down := b\<rparr>);
                    s4 = (if cq_Reset req then s3\<lparr>sk_seen := [], sk_received := 0\<rparr> else s3)
                in (Write (render s4) w, s4))))"

text \<open>\<open>envFloat\<close> and \<open>envDuration\<close>: a value that does not parse counts as none.\<close>

definition env_or :: "(string \<Rightarrow> 'a option) \<Rightarrow> string \<Rightarrow> 'a \<Rightarrow> 'a" where
  "env_or parse v def = (if v = [] then def else (case parse v of None \<Rightarrow> def | Some x \<Rightarrow> x))"

definition sink_new :: "(string \<Rightarrow> float64 option) \<Rightarrow> (string \<Rightarrow> duration option) \<Rightarrow> string \<Rightarrow> string \<Rightarrow> sink" where
  "sink_new scan parse rate latency =
     \<lparr>sk_seen = [], sk_received = 0, sk_failRate = env_or scan rate (Finite 0),
      sk_latency = env_or parse latency 0, sk_down = False\<rparr>"

subsection \<open>The statistics are exact\<close>

definition sink_ok :: "sink \<Rightarrow> bool" where
  "sink_ok s \<longleftrightarrow> distinct (map fst (sk_seen s)) \<and> (\<forall>(i, n) \<in> set (sk_seen s). n > 0) \<and>
     sum_list (map snd (sk_seen s)) = sk_received s"

lemma sum_update:
  "sum_list (map snd (AList.update i (Suc (case map_of xs i of None \<Rightarrow> 0 | Some n \<Rightarrow> n)) xs)) = Suc (sum_list (map snd xs))"
  by (induction xs) auto

lemma update_positive:
  "\<forall>(i, n) \<in> set xs. (n :: nat) > 0 \<Longrightarrow> \<forall>(i, n) \<in> set (AList.update k (Suc m) xs). n > 0"
  by (induction xs) auto

lemma sink_ok_new: "sink_ok (sink_new scan parse rate latency)"
  by (simp add: sink_ok_def sink_new_def)

lemma sink_ok_count:
  assumes "sink_ok s"
  shows "sink_ok (s\<lparr>sk_received := Suc (sk_received s), sk_seen := AList.update i (Suc (seen_count i s)) (sk_seen s)\<rparr>)"
  using assms update_positive [of "sk_seen s" i "seen_count i s"] sum_update [of i "sk_seen s"]
  by (simp add: sink_ok_def seen_count_def distinct_update)

lemma sink_ok_receive: "sink_ok s \<Longrightarrow> sink_receive gone draw r w s = (w', s') \<Longrightarrow> sink_ok s'"
  using sink_ok_count by (auto simp: sink_receive_def Let_def split: if_splits)

lemma sink_ok_control: "sink_ok s \<Longrightarrow> sink_control decode parse render body w s = (w', s') \<Longrightarrow> sink_ok s'"
  by (auto simp: sink_control_def sink_ok_def Let_def split: sum.splits option.splits if_splits)

lemma duplicates_sum:
  assumes "\<forall>(i, n) \<in> set xs. (n :: nat) > 0"
  shows "sum_list (map (\<lambda>(i, n). if n > 1 then n - 1 else 0) xs) + length xs = sum_list (map snd xs)"
  using assms by (induction xs) auto

text \<open>Every delivery received is the first of its event or counted as a duplicate.\<close>

theorem stats_exact:
  assumes "sink_ok s"
  shows "ss_distinct (stats s) + ss_duplicates (stats s) = ss_received (stats s)"
  using assms duplicates_sum [of "sk_seen s"] by (simp add: stats_def sink_ok_def)

text \<open>A control request that is refused for its latency has already changed the failure rate.\<close>

theorem refused_control_applies:
  assumes "decode body = Inr \<lparr>cq_FailRate = Some f, cq_Latency = Some t, cq_Down = dn, cq_Reset = rs\<rparr>"
    and "parse t = Inl e"
  shows "sink_control decode parse render body conn_writer s =
    (http_Error (error_text e) 400 conn_writer, s\<lparr>sk_failRate := f\<rparr>)"
  using assms by (simp add: sink_control_def)

end
