(* ===== verification/Serving.thy ===== *)
theory Serving
  imports Observe Api Lifecycle Sink
begin

text \<open>
  How the service is served: the JSON codecs (\<open>internal/runtime/codec.go\<close>), the route table and the handler around it
  (\<open>internal/runtime/handler.go\<close>), the API documentation (\<open>docs/docs.go\<close>, \<open>docs/serve.go\<close>) and the listeners
  (\<open>internal/app/http.go\<close>). protojson, vanguard and yaml.v3 are arguments: what decoding a body, building the
  transcoder and parsing the embedded document answer. The transcoder itself is the handler \<open>tc\<close>.
\<close>

subsection \<open>Codecs (codec.go)\<close>

text \<open>An error of a codec: its text, and the Connect code when the error or one it wraps carries one.\<close>

record codec_error =
  xe_text :: string
  xe_code :: "connect_code option"

definition asInvalidArgument :: "codec_error option \<Rightarrow> codec_error option" where
  "asInvalidArgument err =
     (case err of
        None \<Rightarrow> None
      | Some e \<Rightarrow>
          (case xe_code e of
             Some c \<Rightarrow> Some e
           | None \<Rightarrow> Some \<lparr>xe_text = ''malformed request body: '' @ xe_text e, xe_code = Some CodeInvalidArgument\<rparr>))"

text \<open>
  \<open>Unmarshal\<close> of the transcoder's codec, for a whole message or one field, and of the handler's own codec, which is
  given any value and refuses what is not a message.
\<close>

definition jsonCodec_Unmarshal :: "('m \<Rightarrow> string \<Rightarrow> codec_error + 'm) \<Rightarrow> string \<Rightarrow> 'm \<Rightarrow> codec_error option \<times> 'm" where
  "jsonCodec_Unmarshal decode data msg =
     (case decode msg data of
        Inl e \<Rightarrow> (asInvalidArgument (Some e), msg)
      | Inr msg' \<Rightarrow> (asInvalidArgument None, msg'))"

definition connect_Unmarshal ::
  "('m \<Rightarrow> string \<Rightarrow> codec_error + 'm) \<Rightarrow> string \<Rightarrow> string \<Rightarrow> 'm option \<Rightarrow> codec_error option \<times> 'm option" where
  "connect_Unmarshal decode type_name data msg =
     (case msg of
        None \<Rightarrow> (Some \<lparr>xe_text = ''json codec cannot unmarshal into '' @ type_name, xe_code = None\<rparr>, None)
      | Some m \<Rightarrow> (case jsonCodec_Unmarshal decode data m of (e, m') \<Rightarrow> (e, Some m')))"

definition connect_Marshal :: "('m \<Rightarrow> codec_error + string) \<Rightarrow> string \<Rightarrow> 'm option \<Rightarrow> codec_error + string" where
  "connect_Marshal encode type_name msg =
     (case msg of
        None \<Rightarrow> Inl \<lparr>xe_text = ''json codec cannot marshal '' @ type_name, xe_code = None\<rparr>
      | Some m \<Rightarrow> encode m)"

subsection \<open>The documentation (docs.go, serve.go)\<close>

definition PathYAML :: string where "PathYAML = ''/openapi.yaml''"
definition PathJSON :: string where "PathJSON = ''/openapi.json''"
definition PathUI :: string where "PathUI = ''/docs''"

record docs_files =
  df_yaml :: string
  df_html :: string

text \<open>The result of the conversion is kept from the first call on (\<open>sync.Once\<close>).\<close>

definition docs_convert :: "(string \<Rightarrow> go_error + 'd) \<Rightarrow> ('d \<Rightarrow> string result) \<Rightarrow> string \<Rightarrow> string result" where
  "docs_convert parse marshal yaml =
     (case parse yaml of
        Inl e \<Rightarrow> Inl (WrapError ''parse embedded openapi.yaml: '' e)
      | Inr doc \<Rightarrow> marshal doc)"

definition docs_JSON :: "string result \<Rightarrow> string result option \<Rightarrow> string result \<times> string result option" where
  "docs_JSON converted once = (case once of Some r \<Rightarrow> (r, once) | None \<Rightarrow> (converted, Some converted))"

definition serve_yaml :: "docs_files \<Rightarrow> writer \<Rightarrow> writer" where
  "serve_yaml d w =
     Write (df_yaml d) (set_header ''Cache-Control'' ''public, max-age=300'' (set_header ''Content-Type'' ''application/yaml'' w))"

definition serve_json :: "string result \<Rightarrow> writer \<Rightarrow> writer" where
  "serve_json r w =
     (case r of
        Inl e \<Rightarrow> http_Error ''openapi document is unavailable'' 500 w
      | Inr body \<Rightarrow>
          Write body (set_header ''Cache-Control'' ''public, max-age=300'' (set_header ''Content-Type'' ''application/json'' w)))"

definition serve_ui :: "docs_files \<Rightarrow> writer \<Rightarrow> writer" where
  "serve_ui d w = Write (df_html d) (set_header ''Content-Type'' ''text/html; charset=utf-8'' w)"

subsection \<open>Routes (handler.go)\<close>

text \<open>
  Where \<open>http.ServeMux\<close> sends a request. A path that is not in canonical form is answered with a redirect to the
  canonical one; a pattern for GET serves HEAD too; everything else is the transcoder's.
\<close>

datatype route_target = TargetYAML | TargetJSON | TargetUI | TargetRoot | TargetRedirect string

definition clean_step :: "string \<Rightarrow> string list \<Rightarrow> string list" where
  "clean_step s st = (if s = [] \<or> s = ''.'' then st else if s = ''..'' then butlast st else st @ [s])"

definition clean_segments :: "string list \<Rightarrow> string list" where
  "clean_segments ss = fold clean_step ss []"

definition slashed :: "string list \<Rightarrow> string" where
  "slashed ss = concat (map (\<lambda>s. CHR ''/'' # s) ss)"

definition cleanPath :: "string \<Rightarrow> string" where
  "cleanPath p =
     (let ss = clean_segments (split_on (CHR ''/'') p) in
      if ss = [] then ''/'' else slashed ss @ (if p \<noteq> [] \<and> last p = CHR ''/'' then ''/'' else []))"

definition mux_route :: "string \<Rightarrow> string \<Rightarrow> route_target" where
  "mux_route method path =
     (if method \<noteq> ''CONNECT'' \<and> cleanPath path \<noteq> path then TargetRedirect (cleanPath path)
      else if (method = ''GET'' \<or> method = ''HEAD'') \<and> path = PathYAML then TargetYAML
      else if (method = ''GET'' \<or> method = ''HEAD'') \<and> path = PathJSON then TargetJSON
      else if (method = ''GET'' \<or> method = ''HEAD'') \<and> path = PathUI then TargetUI
      else TargetRoot)"

text \<open>\<open>routes\<close>; the redirect is the mux's own handler.\<close>

definition rt_routes ::
  "docs_files \<Rightarrow> string result \<Rightarrow> (string \<Rightarrow> 's handler) \<Rightarrow> 's handler \<Rightarrow> (string result option \<times> 's) handler" where
  "rt_routes d converted redirect tc r w s =
     (case mux_route (rq_Method r) (rq_Path r) of
        TargetYAML \<Rightarrow> (serve_yaml d w, None, s)
      | TargetJSON \<Rightarrow> (case docs_JSON converted (fst s) of (res, once) \<Rightarrow> (serve_json res w, None, (once, snd s)))
      | TargetUI \<Rightarrow> (serve_ui d w, None, s)
      | TargetRoot \<Rightarrow> (case tc r w (snd s) of (w', p, s') \<Rightarrow> (w', p, (fst s, s')))
      | TargetRedirect to \<Rightarrow> (case redirect to r w (snd s) of (w', p, s') \<Rightarrow> (w', p, (fst s, s'))))"

text \<open>\<open>transcoder\<close> and \<open>NewHandler\<close>: what can fail before anything is served.\<close>

definition rt_transcoder :: "go_error + 's handler \<Rightarrow> 's handler result" where
  "rt_transcoder t = (case t of Inl e \<Rightarrow> Inl (WrapError ''runtime: build transcoder: '' e) | Inr h \<Rightarrow> Inr h)"

definition NewHandler ::
  "bool \<Rightarrow> docs_files \<Rightarrow> string result \<Rightarrow> (string \<Rightarrow> 's handler) \<Rightarrow> go_error + 's handler \<Rightarrow>
   ('b, 'v, 'u, string result option \<times> 's) rt_options \<Rightarrow> rt_env \<Rightarrow>
   ('b, string result option \<times> 's) chain_state handler result" where
  "NewHandler has_service d converted redirect t o' e =
     (if \<not> has_service then Inl (PlainError ''runtime: a task service is required'')
      else
        (case rt_transcoder t of
           Inl err \<Rightarrow> Inl err
         | Inr tc \<Rightarrow> Inr (wrap o' e (rt_routes d converted redirect tc))))"

text \<open>\<open>tracingMiddleware\<close>: the span's name, and the requests that get none.\<close>

definition span_name :: "request \<Rightarrow> string" where
  "span_name r = rq_Method r @ '' '' @ Route (rq_Path r)"

definition traced_request :: "request \<Rightarrow> bool" where
  "traced_request r \<longleftrightarrow> rq_Path r \<notin> {''/healthz'', ''/readyz'', ''/metrics'', ''/version''}"

subsection \<open>Listeners (http.go)\<close>

record http_server =
  hs_Addr :: string
  hs_ReadHeaderTimeout :: duration
  hs_ReadTimeout :: duration
  hs_WriteTimeout :: duration
  hs_IdleTimeout :: duration
  hs_listener :: string

definition newHTTPServer :: "http_cfg \<Rightarrow> string \<Rightarrow> http_server" where
  "newHTTPServer cfg name =
     \<lparr>hs_Addr = ht_addr cfg, hs_ReadHeaderTimeout = ht_read_header_timeout cfg, hs_ReadTimeout = ht_read_timeout cfg,
      hs_WriteTimeout = ht_write_timeout cfg, hs_IdleTimeout = ht_idle_timeout cfg, hs_listener = name\<rparr>"

definition adminHTTP :: "config \<Rightarrow> http_cfg" where
  "adminHTTP cfg = (cf_http cfg)\<lparr>ht_addr := ad_addr (cf_admin cfg)\<rparr>"

definition newAPIServer :: "config \<Rightarrow> 'h result \<Rightarrow> (http_server \<times> 'h) result" where
  "newAPIServer cfg built = (case built of Inl e \<Rightarrow> Inl e | Inr h \<Rightarrow> Inr (newHTTPServer (cf_http cfg) ''api'', h))"

text \<open>
  \<open>serveWorker\<close>: \<open>Run\<close> from what listening and serving answered (\<open>errors.Is(err, http.ErrServerClosed)\<close> is a flag of
  the serve error), \<open>Stop\<close> from what the graceful shutdown answered, with whether the server was closed hard.
\<close>

definition serve_Run :: "http_server \<Rightarrow> go_error option \<Rightarrow> (bool \<times> go_error) option \<Rightarrow> go_error option" where
  "serve_Run srv listen served =
     (case listen of
        Some e \<Rightarrow> Some (WrapError (''listen on '' @ hs_Addr srv @ '': '') e)
      | None \<Rightarrow> (case served of Some (was_closed, e) \<Rightarrow> if was_closed then None else Some e | None \<Rightarrow> None))"

definition serve_Stop :: "string \<Rightarrow> go_error option \<Rightarrow> bool \<times> go_error option" where
  "serve_Stop name shutdown =
     (case shutdown of
        Some e \<Rightarrow> (True, Some (WrapError (''drain '' @ name @ '': '') e))
      | None \<Rightarrow> (False, None))"

subsection \<open>A bad body is the caller's error\<close>

text \<open>
  Whatever a decoder answers, an error that leaves the codec carries a Connect code, so it never turns into an unlabelled
  internal error: the one it had, or invalid argument. A message is only changed by a decode that succeeded.
\<close>

theorem decode_errors_coded:
  assumes "jsonCodec_Unmarshal decode data msg = (err, msg')"
  shows "(case err of
      Some e \<Rightarrow> msg' = msg \<and> (\<exists>e0. decode msg data = Inl e0 \<and>
        xe_code e = Some (case xe_code e0 of Some c \<Rightarrow> c | None \<Rightarrow> CodeInvalidArgument))
    | None \<Rightarrow> decode msg data = Inr msg')"
  using assms by (auto simp: jsonCodec_Unmarshal_def asInvalidArgument_def split: sum.splits option.splits)

subsection \<open>Canonical paths\<close>

definition proper :: "string \<Rightarrow> bool" where
  "proper s \<longleftrightarrow> s \<noteq> [] \<and> s \<noteq> ''.'' \<and> s \<noteq> ''..'' \<and> CHR ''/'' \<notin> set s"

lemma split_on_no_sep: "s \<in> set (split_on c p) \<Longrightarrow> c \<notin> set s"
  by (induction c p arbitrary: s rule: split_on.induct) (auto split: if_splits list.splits)

lemma clean_segments_proper:
  assumes "list_all (\<lambda>s. CHR ''/'' \<notin> set s) ss" and "list_all proper st"
  shows "list_all proper (fold clean_step ss st)"
  using assms
proof (induction ss arbitrary: st)
  case (Cons s ss)
  have "list_all proper (clean_step s st)"
    using Cons.prems by (auto simp: clean_step_def proper_def list_all_iff dest: in_set_butlastD)
  then show ?case using Cons by simp
qed simp

lemma fold_clean_proper: "list_all proper ss \<Longrightarrow> fold clean_step ss st = st @ ss"
  by (induction ss arbitrary: st) (auto simp: clean_step_def proper_def)

lemma split_on_plain: "c \<notin> set s \<Longrightarrow> split_on c s = [s]"
  by (induction s) auto

lemma split_on_slashed: "list_all proper ss \<Longrightarrow> split_on (CHR ''/'') (slashed ss) = [] # ss"
proof (induction ss)
  case (Cons s ss)
  have "split_on (CHR ''/'') (s @ slashed ss) = s # ss" if "list_all proper (s # ss)" for s
  proof (cases ss)
    case Nil
    then show ?thesis using that by (simp add: slashed_def split_on_plain proper_def)
  next
    case (Cons t ts)
    then have "slashed ss = CHR ''/'' # (t @ slashed ts)" by (simp add: slashed_def)
    then have "split_on (CHR ''/'') (s @ slashed ss) = split_on (CHR ''/'') s @ split_on (CHR ''/'') (t @ slashed ts)"
      by (simp only: split_on_append)
    moreover have "[] # split_on (CHR ''/'') (t @ slashed ts) = [] # ss"
      using \<open>slashed ss = _\<close> Cons.IH that by simp
    ultimately show ?thesis using that by (simp add: split_on_plain proper_def)
  qed
  then show ?case using Cons.prems by (simp add: slashed_def)
qed (simp add: slashed_def)

lemma cleanPath_idem: "cleanPath (cleanPath p) = cleanPath p"
proof -
  define ss where "ss = clean_segments (split_on (CHR ''/'') p)"
  have ok: "list_all proper ss"
    unfolding ss_def clean_segments_def
    by (rule clean_segments_proper) (simp_all add: list_all_iff split_on_no_sep)
  show ?thesis
  proof (cases "ss = []")
    case True
    then have c: "cleanPath p = ''/''" by (simp add: cleanPath_def Let_def flip: ss_def)
    show ?thesis unfolding c by (simp add: cleanPath_def clean_segments_def clean_step_def)
  next
    case False
    have seg: "clean_segments (split_on (CHR ''/'') (slashed ss)) = ss"
      using ok by (simp add: split_on_slashed clean_segments_def clean_step_def fold_clean_proper)
    have "split_on (CHR ''/'') (slashed ss @ CHR ''/'' # []) = ([] # ss) @ [[]]"
      using ok by (simp only: split_on_append split_on_slashed split_on.simps)
    then have seg': "clean_segments (split_on (CHR ''/'') (slashed ss @ ''/'')) = ss"
      using ok by (simp add: clean_segments_def clean_step_def fold_clean_proper)
    obtain t ts where ts: "ss = ts @ [t]" using False by (metis rev_exhaust)
    have t: "t \<noteq> []" "CHR ''/'' \<notin> set t" using ok by (simp_all add: ts proper_def)
    then have "last t \<noteq> CHR ''/''" using last_in_set [of t] by metis
    with t(1)
    have last: "slashed ss \<noteq> []" "last (slashed ss) \<noteq> CHR ''/''" by (simp_all add: ts slashed_def)
    show ?thesis
    proof (cases "p \<noteq> [] \<and> last p = CHR ''/''")
      case True
      then have c: "cleanPath p = slashed ss @ ''/''" using False by (simp add: cleanPath_def Let_def flip: ss_def)
      show ?thesis unfolding c unfolding cleanPath_def seg' Let_def using False by simp
    next
      case no: False
      then have c: "cleanPath p = slashed ss" using False by (auto simp: cleanPath_def Let_def simp flip: ss_def)
      show ?thesis unfolding c unfolding cleanPath_def seg Let_def using False last by simp
    qed
  qed
qed

lemma mux_route_redirect:
  "mux_route m p = TargetRedirect q \<longleftrightarrow> m \<noteq> ''CONNECT'' \<and> cleanPath p \<noteq> p \<and> q = cleanPath p"
  unfolding mux_route_def by (cases "m \<noteq> ''CONNECT'' \<and> cleanPath p \<noteq> p") (simp_all only: if_True if_False, auto)

text \<open>
  A redirect is followed once: the canonical path is served, never redirected again. The documentation is
  served on its three paths only, and a write to one of them goes to the transcoder like any other path.
\<close>

theorem redirects_settle:
  "mux_route m p = TargetRedirect q \<Longrightarrow> cleanPath q = q \<and> (\<forall>q'. mux_route m' q \<noteq> TargetRedirect q')"
  "m \<noteq> ''GET'' \<Longrightarrow> m \<noteq> ''HEAD'' \<Longrightarrow> cleanPath p = p \<Longrightarrow> mux_route m p = TargetRoot"
proof -
  assume "mux_route m p = TargetRedirect q"
  then have "q = cleanPath p" by (simp add: mux_route_redirect)
  then show "cleanPath q = q \<and> (\<forall>q'. mux_route m' q \<noteq> TargetRedirect q')"
    by (simp add: mux_route_redirect cleanPath_idem)
qed (simp add: mux_route_def)

text \<open>The document is converted once: later calls answer what the first did, whatever the converter would say.\<close>

theorem docs_converted_once:
  assumes "docs_JSON c once = (r, once')"
  shows "docs_JSON c' once' = (r, once')"
  using assms by (auto simp: docs_JSON_def split: option.splits)

text \<open>
  A request for a document never reaches the transcoder or the application's state; any other request with a canonical
  path gets exactly the transcoder's answer.
\<close>

theorem routes_split:
  assumes "cleanPath (rq_Path r) = rq_Path r" and "rt_routes d cv rd tc r w (once, s) = (w', p, (once', s'))"
  shows "(rq_Path r \<in> {PathYAML, PathJSON, PathUI} \<and> rq_Method r \<in> {''GET'', ''HEAD''} \<longrightarrow> s' = s \<and> p = None) \<and>
    (\<not> (rq_Path r \<in> {PathYAML, PathJSON, PathUI} \<and> rq_Method r \<in> {''GET'', ''HEAD''}) \<longrightarrow> tc r w s = (w', p, s'))"
  using assms by (auto simp: rt_routes_def mux_route_def split: prod.splits if_splits)

subsection \<open>No listener without limits\<close>

text \<open>
  An accepted configuration gives both listeners, the private one included, a positive limit on reading headers,
  reading a body, writing and idling; they differ in their address only.
\<close>

theorem listeners_bounded:
  assumes "config_Validate cl c = None" and "srv = newHTTPServer (cf_http c) ''api'' \<or> srv = newHTTPServer (adminHTTP c) ''admin''"
  shows "0 < hs_ReadHeaderTimeout srv \<and> 0 < hs_ReadTimeout srv \<and> 0 < hs_WriteTimeout srv \<and> 0 < hs_IdleTimeout srv"
  using accepted_sections(3) [OF assms(1)] assms(2) by (auto simp: newHTTPServer_def adminHTTP_def http_ok_def)

text \<open>A shutdown is the normal end of a listener; a drain that runs out of time closes what is left and says so.\<close>

theorem serve_ends:
  "serve_Run srv None (Some (True, e)) = None" "serve_Run srv None (Some (False, e)) = Some e"
  "fst (serve_Stop name sd) \<longleftrightarrow> snd (serve_Stop name sd) \<noteq> None"
  by (auto simp: serve_Run_def serve_Stop_def split: option.splits)

end
