(* ===== verification/Metrics.thy ===== *)
theory Metrics
  imports Pool
begin

text \<open>
  The Prometheus surface, \<open>internal/metrics\<close>: the metric sets of \<open>queue.go\<close>, \<open>guards.go\<close>, \<open>deps.go\<close> and
  the declarations of \<open>http.go\<close> (whose middleware is in \<open>Observe\<close>), the exemplars of \<open>exemplar.go\<close>, the registry of \<open>metrics.go\<close> and the
  scrape-time collectors of \<open>collectors.go\<close>.

  The client library is reduced to what it keeps: a counter or gauge vector is a map from label values to a number, a
  histogram the list of its observations with their labels and exemplars, a registry the list of the descriptors
  registered in it. The library converts counts and durations to \<open>float64\<close>; here they stay the integers they are.
  Bucket bounds in seconds are written in thousandths.
\<close>

subsection \<open>Declarations\<close>

record metric_desc =
  md_name :: string
  md_labels :: "string list"
  md_buckets :: "int list"
  md_native :: bool

definition plain_desc :: "string \<Rightarrow> string list \<Rightarrow> metric_desc" where
  "plain_desc name labels = \<lparr>md_name = name, md_labels = labels, md_buckets = [], md_native = False\<rparr>"

definition nativeOpts :: "metric_desc \<Rightarrow> bool \<Rightarrow> metric_desc" where
  "nativeOpts o' native = (if \<not> native then o' else o'\<lparr>md_native := True\<rparr>)"

definition histogram_desc :: "string \<Rightarrow> string list \<Rightarrow> int list \<Rightarrow> metric_desc" where
  "histogram_desc name labels buckets = (plain_desc name labels)\<lparr>md_buckets := buckets\<rparr>"

definition httpBuckets :: "int list" where
  "httpBuckets = [5, 10, 25, 50, 75, 100, 250, 500, 750, 1000, 2500, 5000, 7500, 10000]"

definition jobBuckets :: "int list" where
  "jobBuckets = [50, 100, 250, 500, 1000, 2500, 5000, 10000, 30000, 60000, 120000, 300000]"

definition sizeBuckets :: "int list" where
  "sizeBuckets = map (\<lambda>i. 64 * 4 ^ i) [0..<8]"

definition metrics_newHTTP :: "bool \<Rightarrow> metric_desc list" where
  "metrics_newHTTP native =
     [plain_desc ''http_server_requests_total'' [''method'', ''route'', ''status'', ''client_id''],
      nativeOpts (histogram_desc ''http_server_request_duration_seconds'' [''method'', ''route'', ''status''] httpBuckets) native,
      plain_desc ''http_server_active_requests'' [''method'', ''route''],
      nativeOpts (histogram_desc ''http_server_request_body_size_bytes'' [''method'', ''route''] sizeBuckets) native,
      nativeOpts (histogram_desc ''http_server_response_body_size_bytes'' [''method'', ''route''] sizeBuckets) native]"

definition metrics_newQueue :: "bool \<Rightarrow> metric_desc list" where
  "metrics_newQueue native =
     [plain_desc ''jobs_processed_total'' [''kind'', ''result''],
      plain_desc ''jobs_enqueued_total'' [''kind'', ''outcome''],
      plain_desc ''jobs_retried_total'' [''kind''],
      plain_desc ''job_leases_expired_total'' [''result''],
      plain_desc ''dead_letter_jobs_total'' [''kind''],
      nativeOpts (histogram_desc ''job_wait_duration_seconds'' [''kind''] jobBuckets) native,
      nativeOpts (histogram_desc ''job_processing_duration_seconds'' [''kind'', ''result''] jobBuckets) native,
      histogram_desc ''job_claim_batch_size'' [] (map (\<lambda>i. 2 * int i) [0..<11]),
      plain_desc ''job_workers_configured'' []]"

definition metrics_newGuards :: "metric_desc list" where
  "metrics_newGuards =
     [plain_desc ''ratelimit_decisions_total'' [''tier'', ''decision''],
      plain_desc ''ratelimit_active_keys'' [''scope''],
      plain_desc ''http_server_inflight_rejected_total'' [],
      plain_desc ''auth_decisions_total'' [''result''],
      plain_desc ''circuit_breaker_state'' [''name''],
      plain_desc ''circuit_breaker_transitions_total'' [''name'', ''from'', ''to''],
      plain_desc ''circuit_breaker_calls_total'' [''name'', ''result'']]"

definition metrics_newDeps :: "bool \<Rightarrow> metric_desc list" where
  "metrics_newDeps native =
     [nativeOpts (histogram_desc ''dependency_request_duration_seconds'' [''target'', ''result''] httpBuckets) native,
      plain_desc ''dependency_retries_total'' [''target''],
      plain_desc ''config_reloads_total'' [''result'']]"

definition buildInfo :: "metric_desc list" where
  "buildInfo = [plain_desc ''build_info'' [''version'', ''commit'', ''go_version'', ''build_date'']]"

text \<open>
  \<open>New\<close>: everything registered, in order. The series of the Go runtime and of the process come from the library and
  are an argument.
\<close>

record metrics_cfg =
  mx_enabled :: bool
  mx_native :: bool

record metrics_registry =
  mr_descs :: "metric_desc list"
  mr_enabled :: bool

definition metrics_New :: "metric_desc list \<Rightarrow> metrics_cfg \<Rightarrow> metrics_registry" where
  "metrics_New runtime cfg =
     \<lparr>mr_descs = metrics_newHTTP (mx_native cfg) @ metrics_newQueue (mx_native cfg) @ metrics_newGuards @ metrics_newDeps (mx_native cfg) @ runtime @ buildInfo,
      mr_enabled = mx_enabled cfg\<rparr>"

definition NewQueueCollector :: "metric_desc list" where
  "NewQueueCollector =
     [plain_desc ''job_queue_depth'' [''kind'', ''state''],
      plain_desc ''job_queue_oldest_pending_age_seconds'' [''kind''],
      plain_desc ''job_queue_stats_errors_total'' []]"

definition NewPoolCollector :: "metric_desc list" where
  "NewPoolCollector =
     [plain_desc ''db_pool_connections'' [''pool'', ''state''],
      plain_desc ''db_pool_acquires_total'' [''pool'', ''result''],
      plain_desc ''db_pool_acquire_duration_seconds_total'' [''pool'']]"

text \<open>\<open>Register\<close>: the registry refuses a collector one of whose series it already has.\<close>

definition already_registered :: go_error where
  "already_registered = PlainError ''duplicate metrics collector registration attempted''"

definition metrics_Register :: "metric_desc list \<Rightarrow> metrics_registry \<Rightarrow> go_error option \<times> metrics_registry" where
  "metrics_Register ds reg =
     (if list_ex (\<lambda>d. list_ex (\<lambda>d'. md_name d = md_name d') (mr_descs reg)) ds then (Some already_registered, reg)
      else (None, reg\<lparr>mr_descs := mr_descs reg @ ds\<rparr>))"

text \<open>\<open>registerCollectors\<close> (\<open>internal/app/observability.go\<close>).\<close>

definition add_collectors :: "bool \<Rightarrow> bool \<Rightarrow> metrics_registry \<Rightarrow> go_error option \<times> metrics_registry" where
  "add_collectors has_pool consumes reg =
     (if \<not> has_pool then (None, reg)
      else
        (case metrics_Register NewPoolCollector reg of
           (Some e, reg') \<Rightarrow> (Some (WrapError ''register pool collector: '' e), reg')
         | (None, reg') \<Rightarrow>
             if \<not> consumes then (None, reg')
             else
               (case metrics_Register NewQueueCollector reg' of
                  (Some e, reg'') \<Rightarrow> (Some (WrapError ''register queue collector: '' e), reg'')
                | (None, reg'') \<Rightarrow> (None, reg''))))"

subsection \<open>Recording\<close>

type_synonym counter_vec = "string list \<Rightarrow> int"

definition add_to :: "string list \<Rightarrow> int \<Rightarrow> counter_vec \<Rightarrow> counter_vec" where
  "add_to labels n c = c(labels := c labels + n)"

definition set_to :: "string list \<Rightarrow> int \<Rightarrow> counter_vec \<Rightarrow> counter_vec" where
  "set_to labels n c = c(labels := n)"

record observation =
  oo_labels :: "string list"
  oo_value :: int
  oo_exemplar :: "string option"

text \<open>\<open>observe\<close>; \<open>carries\<close> is whether the observer can take an exemplar.\<close>

definition observe :: "bool \<Rightarrow> string list \<Rightarrow> int \<Rightarrow> string \<Rightarrow> observation list \<Rightarrow> observation list" where
  "observe carries labels v traceID h =
     h @ [\<lparr>oo_labels = labels, oo_value = v,
           oo_exemplar = (if traceID = [] then None else if \<not> carries then None else Some traceID)\<rparr>]"

record queue_metrics =
  qm_processed :: counter_vec
  qm_enqueued :: counter_vec
  qm_retried :: counter_vec
  qm_leaseLost :: counter_vec
  qm_deadLetter :: counter_vec
  qm_wait :: "observation list"
  qm_processing :: "observation list"
  qm_claimBatch :: "int list"
  qm_workersConfigured :: int

record job_event =
  je_JobID :: int
  je_Kind :: string
  je_Attempt :: int
  je_Outcome :: outcome
  je_Err :: "go_error option"
  je_Waited :: duration
  je_Took :: duration
  je_TraceID :: string

fun outcome_text :: "outcome \<Rightarrow> string" where
  "outcome_text OutcomeSucceeded = ''succeeded''"
| "outcome_text OutcomeRetried = ''retried''"
| "outcome_text OutcomeCancelled = ''cancelled''"
| "outcome_text OutcomeDiscarded = ''discarded''"
| "outcome_text OutcomeSnoozed = ''snoozed''"
| "outcome_text OutcomeLost = ''lost''"

definition Configured :: "int \<Rightarrow> queue_metrics \<Rightarrow> queue_metrics" where
  "Configured n q = q\<lparr>qm_workersConfigured := n\<rparr>"

definition Finished :: "job_event \<Rightarrow> queue_metrics \<Rightarrow> queue_metrics" where
  "Finished e q =
     (let result = outcome_text (je_Outcome e);
          q = q\<lparr>qm_processed := add_to [je_Kind e, result] 1 (qm_processed q)\<rparr>;
          q = q\<lparr>qm_processing := observe True [je_Kind e, result] (je_Took e) (je_TraceID e) (qm_processing q)\<rparr>;
          q = (if je_Waited e > 0 then q\<lparr>qm_wait := observe True [je_Kind e] (je_Waited e) [] (qm_wait q)\<rparr> else q) in
      case je_Outcome e of
        OutcomeRetried \<Rightarrow> q\<lparr>qm_retried := add_to [je_Kind e] 1 (qm_retried q)\<rparr>
      | OutcomeDiscarded \<Rightarrow> q\<lparr>qm_deadLetter := add_to [je_Kind e] 1 (qm_deadLetter q)\<rparr>
      | _ \<Rightarrow> q)"

definition Enqueued :: "string \<Rightarrow> string \<Rightarrow> queue_metrics \<Rightarrow> queue_metrics" where
  "Enqueued kind outc q = q\<lparr>qm_enqueued := add_to [kind, outc] 1 (qm_enqueued q)\<rparr>"

definition Claimed :: "int \<Rightarrow> queue_metrics \<Rightarrow> queue_metrics" where
  "Claimed n q = q\<lparr>qm_claimBatch := qm_claimBatch q @ [n]\<rparr>"

definition LeasesExpired :: "int \<Rightarrow> int \<Rightarrow> queue_metrics \<Rightarrow> queue_metrics" where
  "LeasesExpired retried discarded q =
     (let q = (if retried > 0 then q\<lparr>qm_leaseLost := add_to [''retryable''] retried (qm_leaseLost q)\<rparr> else q) in
      if discarded > 0 then q\<lparr>qm_leaseLost := add_to [''discarded''] discarded (qm_leaseLost q)\<rparr> else q)"

text \<open>The event \<open>run\<close> publishes for a job, with the trace its span had.\<close>

definition run_event :: "job \<Rightarrow> outcome \<Rightarrow> go_error option \<Rightarrow> duration \<Rightarrow> duration \<Rightarrow> string \<Rightarrow> job_event" where
  "run_event j outc err waited took traceID =
     \<lparr>je_JobID = job_id j, je_Kind = job_kind j, je_Attempt = job_attempt j, je_Outcome = outc, je_Err = err,
      je_Waited = waited, je_Took = took, je_TraceID = traceID\<rparr>"

text \<open>
  \<open>recordJobOutcomes\<close>: what the subscription delivers until the context ends or the channel is closed.
\<close>

datatype outcome_feed = FeedEvent job_event | FeedClosed | FeedDone

fun recordJobOutcomes :: "outcome_feed list \<Rightarrow> queue_metrics \<Rightarrow> queue_metrics" where
  "recordJobOutcomes [] q = q"
| "recordJobOutcomes (FeedDone # fs) q = q"
| "recordJobOutcomes (FeedClosed # fs) q = q"
| "recordJobOutcomes (FeedEvent e # fs) q = recordJobOutcomes fs (Finished e q)"

record guard_metrics =
  gm_rateLimit :: counter_vec
  gm_activeKeys :: counter_vec
  gm_shed :: int
  gm_authz :: counter_vec
  gm_breakerState :: counter_vec
  gm_breakerTransitions :: counter_vec
  gm_breakerCalls :: counter_vec

definition RateLimited :: "string \<Rightarrow> bool \<Rightarrow> guard_metrics \<Rightarrow> guard_metrics" where
  "RateLimited tier allowed g =
     (let decision = (if allowed then ''allowed'' else ''throttled'') in
      g\<lparr>gm_rateLimit := add_to [tier, decision] 1 (gm_rateLimit g)\<rparr>)"

definition ActiveKeys :: "int \<Rightarrow> guard_metrics \<Rightarrow> guard_metrics" where
  "ActiveKeys n g = g\<lparr>gm_activeKeys := set_to [''client''] n (gm_activeKeys g)\<rparr>"

definition Shed :: "guard_metrics \<Rightarrow> guard_metrics" where
  "Shed g = g\<lparr>gm_shed := gm_shed g + 1\<rparr>"

definition Authenticated :: "string \<Rightarrow> guard_metrics \<Rightarrow> guard_metrics" where
  "Authenticated result g = g\<lparr>gm_authz := add_to [result] 1 (gm_authz g)\<rparr>"

definition BreakerState :: "string \<Rightarrow> string \<Rightarrow> string \<Rightarrow> int \<Rightarrow> guard_metrics \<Rightarrow> guard_metrics" where
  "BreakerState name old new state g =
     g\<lparr>gm_breakerState := set_to [name] state (gm_breakerState g),
       gm_breakerTransitions := add_to [name, old, new] 1 (gm_breakerTransitions g)\<rparr>"

definition BreakerCall :: "string \<Rightarrow> string \<Rightarrow> guard_metrics \<Rightarrow> guard_metrics" where
  "BreakerCall name result g = g\<lparr>gm_breakerCalls := add_to [name, result] 1 (gm_breakerCalls g)\<rparr>"

record dep_metrics =
  dm_requests :: "observation list"
  dm_retries :: counter_vec
  dm_configReloads :: counter_vec

definition deps_Request :: "string \<Rightarrow> string \<Rightarrow> string \<Rightarrow> duration \<Rightarrow> dep_metrics \<Rightarrow> dep_metrics" where
  "deps_Request traceID target result took d =
     d\<lparr>dm_requests := observe True [target, result] took traceID (dm_requests d)\<rparr>"

definition deps_Retry :: "string \<Rightarrow> dep_metrics \<Rightarrow> dep_metrics" where
  "deps_Retry target d = d\<lparr>dm_retries := add_to [target] 1 (dm_retries d)\<rparr>"

definition ConfigReloaded :: "string \<Rightarrow> dep_metrics \<Rightarrow> dep_metrics" where
  "ConfigReloaded result d = d\<lparr>dm_configReloads := add_to [result] 1 (dm_configReloads d)\<rparr>"

subsection \<open>The collectors\<close>

record scrape =
  sc_depth :: "(string \<times> job_state \<times> nat) list"
  sc_oldest :: "string \<rightharpoonup> duration"
  sc_failures :: nat

text \<open>Reading a Go map of numbers: zero for a key that is not there.\<close>

definition map_get :: "(string \<rightharpoonup> duration) \<Rightarrow> string \<Rightarrow> duration" where
  "map_get m k = (case m k of None \<Rightarrow> 0 | Some a \<Rightarrow> a)"

definition fold_oldest :: "time \<Rightarrow> stat \<Rightarrow> (string \<rightharpoonup> duration) \<Rightarrow> (string \<rightharpoonup> duration)" where
  "fold_oldest now s oldest =
     (let age = max (now - st_oldest s) 0;
          seen = map_get oldest (st_kind s) in
      if age > seen then oldest(st_kind s \<mapsto> age) else oldest)"

text \<open>\<open>QueueCollector.Collect\<close>: the scrape and the failure counter after it.\<close>

definition queue_Collect :: "db_outcome \<Rightarrow> time \<Rightarrow> jobs \<Rightarrow> nat \<Rightarrow> scrape \<times> nat" where
  "queue_Collect db now rows failures =
     (case Stats db rows of
        Inl e \<Rightarrow> (\<lparr>sc_depth = [], sc_oldest = Map.empty, sc_failures = Suc failures\<rparr>, Suc failures)
      | Inr stats \<Rightarrow>
          (\<lparr>sc_depth = map (\<lambda>s. (st_kind s, st_state s, st_count s)) stats,
            sc_oldest = fold (fold_oldest now) stats Map.empty, sc_failures = failures\<rparr>, failures))"

text \<open>What pgxpool says of itself, and \<open>PoolCollector.Collect\<close>: the series, their labels and values.\<close>

record pool_stat =
  ps_acquired :: int
  ps_idle :: int
  ps_constructing :: int
  ps_total :: int
  ps_max :: int
  ps_acquire_count :: int
  ps_empty_acquires :: int
  ps_canceled_acquires :: int
  ps_acquire_duration :: duration

definition pool_Collect :: "string \<Rightarrow> pool_stat \<Rightarrow> (string \<times> string list \<times> int) list" where
  "pool_Collect name s =
     map (\<lambda>(state, v). (''db_pool_connections'', [name, state], v))
       [(''acquired'', ps_acquired s), (''idle'', ps_idle s), (''constructing'', ps_constructing s),
        (''total'', ps_total s), (''max'', ps_max s)] @
     map (\<lambda>(result, v). (''db_pool_acquires_total'', [name, result], v))
       [(''ok'', ps_acquire_count s), (''empty'', ps_empty_acquires s), (''canceled'', ps_canceled_acquires s)] @
     [(''db_pool_acquire_duration_seconds_total'', [name], ps_acquire_duration s)]"

subsection \<open>The registry never refuses\<close>

text \<open>
  The library panics when two collectors share a name or when bucket bounds do not increase. Neither can happen,
  with native histograms or without, in any mode.
\<close>

definition desc_ok :: "metric_desc \<Rightarrow> bool" where
  "desc_ok d \<longleftrightarrow> sorted_wrt (<) (md_buckets d) \<and> distinct (md_labels d)"

definition own_descs :: "bool \<Rightarrow> metric_desc list" where
  "own_descs native = metrics_newHTTP native @ metrics_newQueue native @ metrics_newGuards @ metrics_newDeps native @ buildInfo @ NewPoolCollector @ NewQueueCollector"

lemma nativeOpts_selects [simp]:
  "md_name (nativeOpts o' b) = md_name o'" "md_buckets (nativeOpts o' b) = md_buckets o'" "md_labels (nativeOpts o' b) = md_labels o'"
  by (simp_all add: nativeOpts_def)

lemma desc_selects [simp]:
  "md_name (plain_desc n l) = n" "md_buckets (plain_desc n l) = []" "md_labels (plain_desc n l) = l"
  "md_name (histogram_desc n l b) = n" "md_buckets (histogram_desc n l b) = b" "md_labels (histogram_desc n l b) = l"
  by (simp_all add: plain_desc_def histogram_desc_def)

lemmas desc_lists = own_descs_def metrics_newHTTP_def metrics_newQueue_def metrics_newGuards_def metrics_newDeps_def buildInfo_def NewPoolCollector_def NewQueueCollector_def

lemma own_names_distinct: "distinct (map md_name (own_descs native))"
  by (simp add: desc_lists)

lemma buckets_increase: "sorted_wrt (<) httpBuckets" "sorted_wrt (<) jobBuckets" "sorted_wrt (<) sizeBuckets"
  "sorted_wrt (<) (map (\<lambda>i. 2 * int i) [0..<11])"
  by (simp_all add: httpBuckets_def jobBuckets_def sizeBuckets_def upt_conv_Cons)

lemma own_descs_ok: "list_all desc_ok (own_descs native)"
  using buckets_increase by (simp add: desc_lists desc_ok_def)

lemma own_names_prefix:
  "d \<in> set (own_descs native) \<Longrightarrow> \<not> starts_with ''go_'' (md_name d) \<and> \<not> starts_with ''process_'' (md_name d)"
  by (auto simp: desc_lists starts_with_def)

definition runtime_descs :: "metric_desc list \<Rightarrow> bool" where
  "runtime_descs ds \<longleftrightarrow> distinct (map md_name ds) \<and>
     list_all (\<lambda>d. starts_with ''go_'' (md_name d) \<or> starts_with ''process_'' (md_name d)) ds"

text \<open>
  Whatever the library registers for the runtime under its two prefixes, no two series of the process have the same
  name, and the collectors the application adds in its mode are accepted.
\<close>

theorem registry_complete:
  assumes "runtime_descs rt"
  shows "\<exists>reg. add_collectors has_pool consumes (metrics_New rt cfg) = (None, reg) \<and> distinct (map md_name (mr_descs reg)) \<and>
    mr_enabled reg = mx_enabled cfg \<and>
    (has_pool \<and> consumes \<longrightarrow> set (mr_descs reg) = set (own_descs (mx_native cfg)) \<union> set rt)"
proof -
  let ?n = "mx_native cfg"
  have dist: "distinct (map md_name (own_descs ?n))" by (rule own_names_distinct)
  have apart: "md_name d \<noteq> md_name d'" if "d \<in> set rt" "d' \<in> set (own_descs ?n)" for d d'
    using that assms own_names_prefix [OF that(2)] by (auto simp: runtime_descs_def list_all_iff)
  define base where "base = metrics_newHTTP ?n @ metrics_newQueue ?n @ metrics_newGuards @ metrics_newDeps ?n @ rt @ buildInfo"
  have names: "distinct (map md_name (base @ NewPoolCollector @ NewQueueCollector))"
  proof -
    have "distinct (map md_name (own_descs ?n @ rt))" using dist apart assms by (fastforce simp: runtime_descs_def)
    moreover have "mset (map md_name (own_descs ?n @ rt)) = mset (map md_name (base @ NewPoolCollector @ NewQueueCollector))"
      by (simp add: own_descs_def base_def ac_simps)
    ultimately show ?thesis using mset_eq_imp_distinct_iff by blast
  qed
  then have sub: "distinct (map md_name base)" "distinct (map md_name (base @ NewPoolCollector))"
    "distinct (map md_name ((base @ NewPoolCollector) @ NewQueueCollector))"
    by (simp_all only: map_append distinct_append set_append append_assoc) blast+
  have fresh: "\<not> list_ex (\<lambda>d. list_ex (\<lambda>d'. md_name d = md_name d') xs) ys" if "distinct (map md_name (xs @ ys))" for xs ys
    using that by (auto simp: list_ex_iff)
  have new: "metrics_New rt cfg = \<lparr>mr_descs = base, mr_enabled = mx_enabled cfg\<rparr>" by (simp add: metrics_New_def base_def)
  have all: "set ((base @ NewPoolCollector) @ NewQueueCollector) = set (own_descs ?n) \<union> set rt"
    by (auto simp: own_descs_def base_def)
  show ?thesis
    using sub all fresh [OF sub(2)] fresh [OF sub(3)]
    by (simp add: add_collectors_def metrics_Register_def new del: append_assoc map_append list_ex_append set_append)
qed

subsection \<open>The counters agree with the events\<close>

definition no_queue_metrics :: queue_metrics where
  "no_queue_metrics = \<lparr>qm_processed = (\<lambda>_. 0), qm_enqueued = (\<lambda>_. 0), qm_retried = (\<lambda>_. 0), qm_leaseLost = (\<lambda>_. 0),
     qm_deadLetter = (\<lambda>_. 0), qm_wait = [], qm_processing = [], qm_claimBatch = [], qm_workersConfigured = 0\<rparr>"

definition event_count :: "(job_event \<Rightarrow> bool) \<Rightarrow> job_event list \<Rightarrow> int" where
  "event_count P es = int (length (filter P es))"

lemma outcome_text_inject [simp]: "outcome_text a = outcome_text b \<longleftrightarrow> a = b"
  by (cases a; cases b) simp_all

lemma Finished_counters:
  "qm_processed (Finished e q) = add_to [je_Kind e, outcome_text (je_Outcome e)] 1 (qm_processed q)"
  "qm_retried (Finished e q) = (if je_Outcome e = OutcomeRetried then add_to [je_Kind e] 1 (qm_retried q) else qm_retried q)"
  "qm_deadLetter (Finished e q) = (if je_Outcome e = OutcomeDiscarded then add_to [je_Kind e] 1 (qm_deadLetter q) else qm_deadLetter q)"
  "qm_leaseLost (Finished e q) = qm_leaseLost q"
  "length (qm_processing (Finished e q)) = Suc (length (qm_processing q))"
  by (cases "je_Outcome e"; simp add: Finished_def Let_def observe_def)+

text \<open>
  However many events there were, the processed counter of a kind and a result is the number of events with them;
  the retry and dead-letter counters are the processed counter's retried and discarded series; every job is one
  observation of the processing histogram.
\<close>

theorem counters_count_events:
  "qm_processed (fold Finished es no_queue_metrics) [k, outcome_text oc] = event_count (\<lambda>e. je_Kind e = k \<and> je_Outcome e = oc) es \<and>
   qm_retried (fold Finished es no_queue_metrics) [k] = qm_processed (fold Finished es no_queue_metrics) [k, ''retried''] \<and>
   qm_deadLetter (fold Finished es no_queue_metrics) [k] = qm_processed (fold Finished es no_queue_metrics) [k, ''discarded''] \<and>
   length (qm_processing (fold Finished es no_queue_metrics)) = length es"
proof -
  have proc: "qm_processed (fold Finished es q) [k, outcome_text oc] =
      qm_processed q [k, outcome_text oc] + event_count (\<lambda>e. je_Kind e = k \<and> je_Outcome e = oc) es" for q oc
    by (induction es arbitrary: q) (auto simp: Finished_counters add_to_def event_count_def)
  have retr: "qm_retried (fold Finished es q) [k] = qm_retried q [k] + event_count (\<lambda>e. je_Kind e = k \<and> je_Outcome e = OutcomeRetried) es" for q
    by (induction es arbitrary: q) (auto simp: Finished_counters add_to_def event_count_def)
  have dead: "qm_deadLetter (fold Finished es q) [k] = qm_deadLetter q [k] + event_count (\<lambda>e. je_Kind e = k \<and> je_Outcome e = OutcomeDiscarded) es" for q
    by (induction es arbitrary: q) (auto simp: Finished_counters add_to_def event_count_def)
  have len: "length (qm_processing (fold Finished es q)) = length (qm_processing q) + length es" for q
    by (induction es arbitrary: q) (simp_all add: Finished_counters)
  show ?thesis
    using proc [of no_queue_metrics] proc [of no_queue_metrics OutcomeRetried] proc [of no_queue_metrics OutcomeDiscarded]
      retr [of no_queue_metrics] dead [of no_queue_metrics] len [of no_queue_metrics]
    by (simp add: no_queue_metrics_def)
qed

text \<open>The label values are bounded by the kinds there are: no series appears for anything else.\<close>

theorem processed_series_bounded:
  assumes "qm_processed (fold Finished es no_queue_metrics) l \<noteq> 0"
  shows "\<exists>k oc. k \<in> je_Kind ` set es \<and> l = [k, outcome_text oc]"
proof -
  have "qm_processed (fold Finished es q) l = qm_processed q l \<or> (\<exists>k oc. k \<in> je_Kind ` set es \<and> l = [k, outcome_text oc])" for q
  proof (induction es arbitrary: q)
    case (Cons e es)
    show ?case
    proof (cases "l = [je_Kind e, outcome_text (je_Outcome e)]")
      case True
      then show ?thesis by auto
    next
      case False
      then have "qm_processed (Finished e q) l = qm_processed q l" by (simp add: Finished_counters add_to_def)
      then show ?thesis using Cons.IH [of "Finished e q"] by auto
    qed
  qed simp
  then show ?thesis using assms by (metis no_queue_metrics_def queue_metrics.select_convs(1))
qed

text \<open>
  A job that uses up its attempts by losing its lease is discarded by the reaper, which reports it as a lost lease
  only: the dead-letter counter does not see it.
\<close>

theorem reaped_not_dead_lettered: "qm_deadLetter (LeasesExpired r d q) = qm_deadLetter q"
  by (simp add: LeasesExpired_def Let_def)

lemma recordJobOutcomes_events:
  "recordJobOutcomes fs q = fold Finished (List.map_filter (\<lambda>f. case f of FeedEvent e \<Rightarrow> Some e | _ \<Rightarrow> None)
     (takeWhile (\<lambda>f. \<exists>e. f = FeedEvent e) fs)) q"
  by (induction fs q rule: recordJobOutcomes.induct) (simp_all add: List.map_filter_simps)

subsection \<open>The backlog is what the table holds\<close>

lemma Stats_ok:
  "Stats DbOk rows = Inr (map (stat_of (filter (\<lambda>r. live (j_state r)) rows))
     (remdups (map (\<lambda>r. (j_kind r, j_state r)) (filter (\<lambda>r. live (j_state r)) rows))))"
  by (simp add: Stats_def Let_def)

definition ages :: "time \<Rightarrow> string \<Rightarrow> stat list \<Rightarrow> duration set" where
  "ages now k stats = (\<lambda>s. max (now - st_oldest s) 0) ` {s \<in> set stats. st_kind s = k}"

lemma ages_simps [simp]:
  "ages now k [] = {}"
  "ages now k (s # stats) = (if st_kind s = k then insert (max (now - st_oldest s) 0) (ages now k stats) else ages now k stats)"
  by (auto simp: ages_def)

lemma finite_ages [simp]: "finite (ages now k stats)"
  by (simp add: ages_def)

lemma map_get_fold_oldest:
  "map_get (fold_oldest now s m) k = (if st_kind s = k then max (map_get m k) (max (now - st_oldest s) 0) else map_get m k)"
  by (auto simp: fold_oldest_def map_get_def Let_def max_def split: option.splits)

lemma fold_oldest_max: "map_get (fold (fold_oldest now) stats m) k = Max (insert (map_get m k) (ages now k stats))"
proof (induction stats arbitrary: m)
  case (Cons s stats)
  have "Max (insert (map_get (fold_oldest now s m) k) (ages now k stats)) = Max (insert (map_get m k) (ages now k (s # stats)))"
    by (cases "ages now k stats = {}") (auto simp: map_get_fold_oldest max.assoc)
  then show ?case using Cons.IH [of "fold_oldest now s m"] by simp
qed simp

lemma fold_oldest_positive:
  "(\<And>a. m k = Some a \<Longrightarrow> 0 < a) \<Longrightarrow> fold (fold_oldest now) stats m k = Some a \<Longrightarrow> 0 < a"
proof (induction stats arbitrary: m)
  case (Cons s stats)
  have "0 < a" if "fold_oldest now s m k = Some a" for a
    using that Cons.prems(1) by (auto simp: fold_oldest_def Let_def map_get_def split: if_splits option.splits)
  then show ?case using Cons.IH [of "fold_oldest now s m"] Cons.prems(2) by simp
qed simp

text \<open>The age of a live row is how long it has been due; rows that are not due count for nothing.\<close>

definition overdue :: "time \<Rightarrow> string \<Rightarrow> jobs \<Rightarrow> duration set" where
  "overdue now k rows = (\<lambda>r. now - j_scheduled_at r) ` {r \<in> set rows. live (j_state r) \<and> j_kind r = k}"

lemma Max_ages:
  assumes "stats = map (stat_of lv) (remdups (map (\<lambda>r. (j_kind r, j_state r)) lv))" and "lv = filter (\<lambda>r. live (j_state r)) rows"
  shows "Max (insert 0 (ages now k stats)) = Max (insert 0 (overdue now k rows))"
proof (rule antisym)
  let ?grp = "\<lambda>g. filter (\<lambda>r. j_kind r = fst g \<and> j_state r = snd g) lv"
  have fin: "finite (overdue now k rows)" by (simp add: overdue_def)
  have kind: "st_kind (stat_of lv g) = fst g" for g by (simp add: stat_of_def Let_def)
  have groups: "ages now k stats =
      (\<lambda>g. max (now - st_oldest (stat_of lv g)) 0) ` {g \<in> (\<lambda>r. (j_kind r, j_state r)) ` set lv. fst g = k}"
    unfolding ages_def assms(1) using kind by (auto simp: image_iff)
  show "Max (insert 0 (ages now k stats)) \<le> Max (insert 0 (overdue now k rows))"
  proof (rule Max.boundedI)
    fix a assume "a \<in> insert 0 (ages now k stats)"
    then consider "a = 0" | g where "g \<in> (\<lambda>r. (j_kind r, j_state r)) ` set lv" "fst g = k" "a = max (now - st_oldest (stat_of lv g)) 0"
      unfolding groups by blast
    then show "a \<le> Max (insert 0 (overdue now k rows))"
    proof cases
      case 1
      then show ?thesis using fin by simp
    next
      case 2
      then have "j_scheduled_at ` set (?grp g) \<noteq> {}" by auto
      then have "st_oldest (stat_of lv g) \<in> j_scheduled_at ` set (?grp g)" by (simp add: stat_of_def Let_def Min_in)
      then obtain r where "r \<in> set (?grp g)" "st_oldest (stat_of lv g) = j_scheduled_at r" by blast
      then have "now - st_oldest (stat_of lv g) \<in> overdue now k rows" using 2(2) assms(2) by (auto simp: overdue_def)
      then have "now - st_oldest (stat_of lv g) \<le> Max (insert 0 (overdue now k rows))" using fin by simp
      moreover have "0 \<le> Max (insert 0 (overdue now k rows))" using fin by simp
      ultimately show ?thesis using 2(3) by simp
    qed
  qed simp_all
  show "Max (insert 0 (overdue now k rows)) \<le> Max (insert 0 (ages now k stats))"
  proof (rule Max.boundedI)
    fix a assume "a \<in> insert 0 (overdue now k rows)"
    then consider "a = 0" | r where "r \<in> set lv" "j_kind r = k" "a = now - j_scheduled_at r"
      using assms(2) by (auto simp: overdue_def)
    then show "a \<le> Max (insert 0 (ages now k stats))"
    proof cases
      case 2
      let ?g = "(j_kind r, j_state r)"
      have "st_oldest (stat_of lv ?g) \<le> j_scheduled_at r" using 2(1) by (simp add: stat_of_def Let_def)
      then have "a \<le> max (now - st_oldest (stat_of lv ?g)) 0" using 2(3) by simp
      moreover have "max (now - st_oldest (stat_of lv ?g)) 0 \<in> ages now k stats"
        unfolding groups using 2(1,2) by force
      ultimately show ?thesis by (meson Max_ge finite_ages finite_insert insertI2 order_trans)
    qed simp
  qed (use fin in simp_all)
qed

text \<open>
  A scrape that can read the queue reports it exactly: one depth for every kind and state that has live jobs, equal to
  the number of rows, and for a kind the age of its longest overdue live job, or nothing when none is overdue. One
  that cannot reports no backlog at all and counts the failure, so that an unreadable queue never looks empty.
\<close>

theorem scrape_reports_backlog:
  "queue_Collect DbOk now rows n = (sc, n') \<Longrightarrow>
     n' = n \<and> sc_failures sc = n \<and>
     set (sc_depth sc) = (\<lambda>(k, st). (k, st, sql_count (\<lambda>r. j_kind r = k \<and> j_state r = st) rows)) `
       {(j_kind r, j_state r) | r. r \<in> set rows \<and> live (j_state r)} \<and>
     distinct (map (\<lambda>(k, st, c). (k, st)) (sc_depth sc)) \<and>
     sc_oldest sc k = (let m = Max (insert 0 (overdue now k rows)) in if m > 0 then Some m else None)"
  "queue_Collect (DbFailed e) now rows n = (\<lparr>sc_depth = [], sc_oldest = Map.empty, sc_failures = Suc n\<rparr>, Suc n)"
proof -
  assume c: "queue_Collect DbOk now rows n = (sc, n')"
  define lv where "lv = filter (\<lambda>r. live (j_state r)) rows"
  define gs where "gs = remdups (map (\<lambda>r. (j_kind r, j_state r)) lv)"
  define stats where "stats = map (stat_of lv) gs"
  have sc: "sc = \<lparr>sc_depth = map (\<lambda>s. (st_kind s, st_state s, st_count s)) stats,
      sc_oldest = fold (fold_oldest now) stats Map.empty, sc_failures = n\<rparr>" "n' = n"
    using c unfolding queue_Collect_def Stats_ok lv_def [symmetric] gs_def [symmetric] stats_def [symmetric] by auto
  have cnt: "length (filter (\<lambda>r. j_kind r = k' \<and> j_state r = st) lv) = sql_count (\<lambda>r. j_kind r = k' \<and> j_state r = st) rows"
    if "(k', st) \<in> set gs" for k' st
  proof -
    have "live st" using that by (auto simp: gs_def lv_def)
    then have "filter (\<lambda>r. j_kind r = k' \<and> j_state r = st) lv = filter (\<lambda>r. j_kind r = k' \<and> j_state r = st) rows"
      unfolding lv_def by (auto intro: filter_cong)
    then show ?thesis by (simp add: sql_count_def)
  qed
  have depth: "sc_depth sc = map (\<lambda>(k', st). (k', st, sql_count (\<lambda>r. j_kind r = k' \<and> j_state r = st) rows)) gs"
    using cnt by (auto simp: sc(1) stats_def stat_of_def Let_def)
  have gset: "set gs = {(j_kind r, j_state r) | r. r \<in> set rows \<and> live (j_state r)}"
    by (auto simp: gs_def lv_def)
  have "map (\<lambda>(k, st, c). (k, st)) (sc_depth sc) = gs" by (simp add: depth case_prod_beta comp_def)
  then have dist: "distinct (map (\<lambda>(k, st, c). (k, st)) (sc_depth sc))" by (simp add: gs_def)
  have dset: "set (sc_depth sc) = (\<lambda>(k, st). (k, st, sql_count (\<lambda>r. j_kind r = k \<and> j_state r = st) rows)) `
      {(j_kind r, j_state r) | r. r \<in> set rows \<and> live (j_state r)}"
    unfolding depth set_map gset ..
  have failed: "sc_failures sc = n" by (simp add: sc(1))
  have "map_get (sc_oldest sc) k = Max (insert 0 (overdue now k rows))"
    using fold_oldest_max [of now stats Map.empty k] Max_ages [OF stats_def [unfolded gs_def] lv_def, of now k]
    by (simp add: sc(1) map_get_def)
  moreover have "0 < a" if "sc_oldest sc k = Some a" for a
    using fold_oldest_positive [of Map.empty k now stats a] that by (simp add: sc(1))
  ultimately have "sc_oldest sc k = (let m = Max (insert 0 (overdue now k rows)) in if m > 0 then Some m else None)"
    by (cases "sc_oldest sc k") (auto simp: map_get_def Let_def)
  then show "n' = n \<and> sc_failures sc = n \<and>
     set (sc_depth sc) = (\<lambda>(k, st). (k, st, sql_count (\<lambda>r. j_kind r = k \<and> j_state r = st) rows)) `
       {(j_kind r, j_state r) | r. r \<in> set rows \<and> live (j_state r)} \<and>
     distinct (map (\<lambda>(k, st, c). (k, st)) (sc_depth sc)) \<and>
     sc_oldest sc k = (let m = Max (insert 0 (overdue now k rows)) in if m > 0 then Some m else None)"
    using sc(2) failed dist dset by blast
qed (simp add: queue_Collect_def Stats_def Let_def)

end
