(* ===== verification/Telemetry.thy ===== *)
theory Telemetry
  imports Logging
begin

text \<open>
  The logger a request carries and the trace it is stamped with: the construction of the logger
  (\<open>internal/logging/logging.go\<close>), loggers in contexts (\<open>context.go\<close>), the trace handler (\<open>trace.go\<close>), and the
  tracing provider with its identifiers (\<open>internal/tracing/tracing.go\<close>). Redaction and throttling are those of
  \<open>Logging\<close>. The OpenTelemetry SDK is an argument: what building the exporter, merging resources and shutting
  down answer; a span context is what the SDK says of it.
\<close>

subsection \<open>Building the logger (logging.go)\<close>

record log_options =
  lg_Level :: string
  lg_Format :: string
  lg_Service :: string
  lg_Version :: string
  lg_AddSource :: bool
  lg_NoThrottle :: bool
  lg_TimeFormat :: string

text \<open>What the process sees of its environment: whether the writer is a terminal, and two variables.\<close>

record log_env =
  ln_terminal :: bool
  ln_NO_COLOR :: "string option"
  ln_FORCE_COLOR :: "string option"

definition TimeOnly :: string where "TimeOnly = ''15:04:05''"

definition log_withDefaults :: "log_options \<Rightarrow> log_options" where
  "log_withDefaults o' = (if lg_TimeFormat o' = [] then o'\<lparr>lg_TimeFormat := TimeOnly\<rparr> else o')"

definition colorEnabled :: "log_env \<Rightarrow> bool" where
  "colorEnabled e =
     (if ln_NO_COLOR e \<noteq> None then False
      else
        (let v = (case ln_FORCE_COLOR e of None \<Rightarrow> [] | Some v \<Rightarrow> v) in
         if v \<noteq> [] \<and> v \<noteq> ''0'' then True else ln_terminal e))"

datatype backend = TextBackend bool bool string | JSONBackend bool

definition newBackend :: "log_options \<Rightarrow> log_env \<Rightarrow> backend \<times> go_error option" where
  "newBackend o' e =
     (case resolveFormat (lg_Format o') (ln_terminal e) of
        Inl err \<Rightarrow> (JSONBackend (lg_AddSource o'), Some err)
      | Inr f \<Rightarrow>
          (if f = ''text'' then TextBackend (lg_AddSource o') (\<not> colorEnabled e) (lg_TimeFormat o')
           else JSONBackend (lg_AddSource o'), None))"

text \<open>
  A logger: the back end, the shared level, and the attributes given to it with \<open>With\<close>, which the redaction handler has
  cleaned. \<open>nop\<close> discards everything.
\<close>

record logger =
  lo_backend :: "backend option"
  lo_throttled :: bool
  lo_attrs :: "attr list"

definition logger_With :: "attr list \<Rightarrow> logger \<Rightarrow> logger" where
  "logger_With as l = l\<lparr>lo_attrs := (if lo_backend l = None then lo_attrs l else lo_attrs l @ redact_WithAttrs as)\<rparr>"

definition withBaseAttrs :: "log_options \<Rightarrow> logger \<Rightarrow> logger" where
  "withBaseAttrs o' l =
     (let l = (if lg_Service o' \<noteq> [] then logger_With [(''service'', KindString (lg_Service o'))] l else l) in
      if lg_Version o' \<noteq> [] then logger_With [(''version'', KindString (lg_Version o'))] l else l)"

definition join_errors :: "go_error option list \<Rightarrow> go_error list" where
  "join_errors es = List.map_filter id es"

definition logging_Build :: "log_options \<Rightarrow> log_env \<Rightarrow> (logger \<times> level) \<times> go_error list" where
  "logging_Build opts e =
     (let o' = log_withDefaults opts;
          (lvl, lvlErr) = resolveLevel (lg_Level o');
          (backend, fmtErr) = newBackend o' e;
          l = \<lparr>lo_backend = Some backend, lo_throttled = \<not> lg_NoThrottle o', lo_attrs = []\<rparr> in
      ((withBaseAttrs o' l, lvl), join_errors [lvlErr, fmtErr]))"

text \<open>\<open>replaceAttr\<close>: the level by its name, durations as text.\<close>

datatype raw_value = RawLevel level | RawDuration duration | RawOther slog_value

definition replaceAttr :: "string \<times> raw_value \<Rightarrow> string \<times> raw_value" where
  "replaceAttr a =
     (case a of (key, v) \<Rightarrow>
        if key = ''level'' then
          (key, case v of RawLevel l \<Rightarrow> RawOther (KindString (LevelName l)) | _ \<Rightarrow> v)
        else (key, case v of RawDuration d \<Rightarrow> RawOther (KindString (duration_string d)) | _ \<Rightarrow> v))"

subsection \<open>Traces\<close>

record span_context =
  sp_valid :: bool
  sp_sampled :: bool
  sp_TraceID :: string
  sp_SpanID :: string

definition TraceID :: "span_context \<Rightarrow> string" where
  "TraceID sc = (if \<not> sp_valid sc then [] else sp_TraceID sc)"

definition SpanID :: "span_context \<Rightarrow> string" where
  "SpanID sc = (if \<not> sp_valid sc then [] else sp_SpanID sc)"

definition trace_Handle :: "span_context \<Rightarrow> log_record \<Rightarrow> log_record" where
  "trace_Handle sc r =
     (if sp_valid sc then
        (if sp_sampled sc then
           r\<lparr>lr_attrs := lr_attrs r @ [(''trace_id'', KindString (sp_TraceID sc)), (''span_id'', KindString (sp_SpanID sc))]\<rparr>
         else r)
      else r)"

text \<open>\<open>decorate\<close> with the trace handler around the throttle and the redaction.\<close>

definition decorate_traced ::
  "bool \<Rightarrow> span_context \<Rightarrow> time \<Rightarrow> log_record \<Rightarrow> throttleHandler \<Rightarrow> log_record option \<times> throttleHandler" where
  "decorate_traced noThrottle sc now r h = decorate noThrottle now (trace_Handle sc r) h"

text \<open>\<open>New\<close> and \<open>buildResource\<close> of the tracing package.\<close>

record otel_sdk =
  os_exporter :: "string \<Rightarrow> go_error option"
  os_merge :: "(string \<times> string) list \<Rightarrow> (string \<times> string) list result"
  os_shutdown :: "go_error option"

record tracing_cfg =
  tg_Enabled :: bool
  tg_OTLPEndpoint :: string

datatype tracer = NoopTracer | SDKTracer "(string \<times> string) list"

record provider =
  pv_tracer :: tracer
  pv_shutdown :: "go_error option"

definition buildResource :: "otel_sdk \<Rightarrow> string \<Rightarrow> string \<Rightarrow> string \<Rightarrow> (string \<times> string) list" where
  "buildResource sdk version service instance =
     (let ours = [(''service.name'', service), (''service.version'', version), (''service.instance.id'', instance)] in
      case os_merge sdk ours of Inl e \<Rightarrow> ours | Inr merged \<Rightarrow> merged)"

definition tracing_New :: "otel_sdk \<Rightarrow> string \<Rightarrow> tracing_cfg \<Rightarrow> string \<Rightarrow> string \<Rightarrow> provider result" where
  "tracing_New sdk version cfg service instance =
     (if \<not> tg_Enabled cfg then Inr \<lparr>pv_tracer = NoopTracer, pv_shutdown = None\<rparr>
      else
        (case os_exporter sdk (tg_OTLPEndpoint cfg) of
           Some e \<Rightarrow> Inl (WrapError ''tracing: build exporter: '' e)
         | None \<Rightarrow>
             Inr \<lparr>pv_tracer = SDKTracer (buildResource sdk version service instance), pv_shutdown = os_shutdown sdk\<rparr>))"

subsection \<open>Loggers in contexts (context.go)\<close>

record log_ctx =
  lx_logger :: "logger option"
  lx_span :: span_context

definition nop :: logger where
  "nop = \<lparr>lo_backend = None, lo_throttled = False, lo_attrs = []\<rparr>"

definition log_Into :: "log_ctx \<Rightarrow> logger option \<Rightarrow> log_ctx" where
  "log_Into c l = (case l of None \<Rightarrow> c | Some l \<Rightarrow> c\<lparr>lx_logger := Some l\<rparr>)"

text \<open>The context may be nil, and \<open>slog.Default\<close> is an argument.\<close>

definition log_From :: "logger option \<Rightarrow> log_ctx option \<Rightarrow> logger" where
  "log_From dflt c =
     (case (case c of None \<Rightarrow> None | Some c \<Rightarrow> lx_logger c) of
        Some l \<Rightarrow> l
      | None \<Rightarrow> (case dflt of Some d \<Rightarrow> d | None \<Rightarrow> nop))"

definition log_With :: "logger option \<Rightarrow> attr list \<Rightarrow> log_ctx \<Rightarrow> log_ctx" where
  "log_With dflt as c = (if as = [] then c else log_Into c (Some (logger_With as (log_From dflt (Some c)))))"

definition log_Enabled :: "logger option \<Rightarrow> level \<Rightarrow> log_ctx \<Rightarrow> level \<Rightarrow> bool" where
  "log_Enabled dflt threshold c l \<longleftrightarrow> lo_backend (log_From dflt (Some c)) \<noteq> None \<and> threshold \<le> l"

text \<open>
  Emitting a record through the logger of a context: what the back end is given, with the logger's own attributes
  first. \<open>Trace\<close> is the same call at its level.
\<close>

definition log_Log ::
  "logger option \<Rightarrow> level \<Rightarrow> log_ctx \<Rightarrow> time \<Rightarrow> log_record \<Rightarrow> throttleHandler \<Rightarrow> attr list option \<times> throttleHandler" where
  "log_Log dflt threshold c now r h =
     (let l = log_From dflt (Some c) in
      if \<not> log_Enabled dflt threshold c (lr_level r) then (None, h)
      else
        (case decorate_traced (\<not> lo_throttled l) (lx_span c) now r h of
           (out, h') \<Rightarrow> (map_option (\<lambda>r. lo_attrs l @ lr_attrs r) out, h')))"

definition log_Trace ::
  "logger option \<Rightarrow> level \<Rightarrow> log_ctx \<Rightarrow> time \<Rightarrow> string \<Rightarrow> attr list \<Rightarrow> throttleHandler \<Rightarrow> attr list option \<times> throttleHandler" where
  "log_Trace dflt threshold c now msg as h =
     log_Log dflt threshold c now \<lparr>lr_level = LevelTrace, lr_msg = msg, lr_attrs = as\<rparr> h"

subsection \<open>A logger is always there\<close>

text \<open>
  Whatever the options, a working logger comes back. A level or format that is not understood is reported and
  replaced by the default, and nothing is reported when both are understood.
\<close>

theorem logger_always_works:
  assumes "logging_Build opts e = ((l, lvl), errs)"
  shows "lo_backend l \<noteq> None \<and>
    (errs = [] \<longleftrightarrow> snd (resolveLevel (lg_Level opts)) = None \<and> (\<exists>f. resolveFormat (lg_Format opts) (ln_terminal e) = Inr f)) \<and>
    (snd (resolveLevel (lg_Level opts)) \<noteq> None \<longrightarrow> lvl = LevelInfo)"
proof -
  obtain lv le where r: "resolveLevel (lg_Level opts) = (lv, le)" by (metis prod.exhaust)
  have d: "lg_Level (log_withDefaults opts) = lg_Level opts" "lg_Format (log_withDefaults opts) = lg_Format opts"
    by (simp_all add: log_withDefaults_def)
  obtain b fe where n: "newBackend (log_withDefaults opts) e = (b, fe)" by (metis prod.exhaust)
  have fe: "fe = None \<longleftrightarrow> (\<exists>f. resolveFormat (lg_Format opts) (ln_terminal e) = Inr f)"
    using n by (auto simp: newBackend_def d split: sum.splits)
  have "lo_backend (withBaseAttrs (log_withDefaults opts) \<lparr>lo_backend = Some b, lo_throttled = t, lo_attrs = []\<rparr>) = Some b" for t
    by (simp add: withBaseAttrs_def logger_With_def Let_def)
  then have "lo_backend l = Some b" "lvl = lv" "errs = join_errors [le, fe]"
    using assms by (auto simp: logging_Build_def Let_def d r n)
  then show ?thesis using fe r resolveLevel_error [of "lg_Level opts"] by (cases le; cases fe) (auto simp: join_errors_def List.map_filter_simps)
qed

text \<open>Scope accumulates: attributes added to a context come after those it had, and are cleaned.\<close>

theorem With_keeps_scope:
  assumes "lo_backend (log_From dflt (Some c)) \<noteq> None"
  shows "lo_attrs (log_From dflt (Some (log_With dflt as c))) = lo_attrs (log_From dflt (Some c)) @ map sanitize as"
proof -
  have "log_From dflt (Some (log_With dflt as c)) = (if as = [] then log_From dflt (Some c) else logger_With as (log_From dflt (Some c)))"
    by (simp add: log_With_def log_Into_def log_From_def)
  then show ?thesis using assms by (auto simp: logger_With_def redact_WithAttrs_def)
qed

subsection \<open>Stamping\<close>

lemma trace_Handle_same [simp]: "lr_level (trace_Handle sc r) = lr_level r" "lr_msg (trace_Handle sc r) = lr_msg r"
  by (simp_all add: trace_Handle_def)

lemma admit_trace: "admit now (trace_Handle sc r) h = admit now r h"
  by (simp add: admit_def throttle_key_def)

text \<open>
  The trace does not defeat the throttle: two records that differ only in their span are the same line to it, so
  what is emitted and what is counted does not depend on tracing. The stamp is there exactly on the records of a
  sampled span, cleaned like every attribute.
\<close>

theorem stamping_keeps_throttle:
  "snd (decorate_traced nt sc now r h) = snd (decorate nt now r h) \<and>
   (fst (decorate_traced nt sc now r h) = None \<longleftrightarrow> fst (decorate nt now r h) = None)"
  by (auto simp: decorate_traced_def decorate_def throttle_Handle_def admit_trace split: prod.splits)

theorem stamped_when_sampled:
  assumes "decorate_traced nt sc now r h = (Some out, h')"
  shows "sanitize (''trace_id'', KindString (sp_TraceID sc)) \<in> set (lr_attrs out) \<or> \<not> (sp_valid sc \<and> sp_sampled sc)"
    and "list_all clean (lr_attrs out)"
proof -
  let ?r = "trace_Handle sc r"
  obtain x where x: "out = redact_Handle x" "set (lr_attrs ?r) \<subseteq> set (lr_attrs x)"
  proof -
    obtain x where "out = redact_Handle x" "x = ?r \<or> (\<exists>a. x = ?r\<lparr>lr_attrs := lr_attrs ?r @ [a]\<rparr>)"
      using assms unfolding decorate_traced_def decorate_def throttle_Handle_def by (auto split: if_splits prod.splits)
    moreover from this(2) have "set (lr_attrs ?r) \<subseteq> set (lr_attrs x)" by (elim disjE exE) (simp_all add: subset_insertI)
    ultimately show thesis using that [of x] by blast
  qed
  have "(''trace_id'', KindString (sp_TraceID sc)) \<in> set (lr_attrs ?r)" if "sp_valid sc" "sp_sampled sc"
    using that by (simp add: trace_Handle_def)
  then show "sanitize (''trace_id'', KindString (sp_TraceID sc)) \<in> set (lr_attrs out) \<or> \<not> (sp_valid sc \<and> sp_sampled sc)"
    using x by (auto simp: redact_Handle_def simp del: sanitize.simps)
  show "list_all clean (lr_attrs out)" by (simp add: x(1) redact_Handle_def list_all_iff clean_sanitize del: sanitize.simps)
qed

text \<open>
  The log and the exemplars disagree about unsampled traces: the log leaves their identifier out, since nobody stored
  the span, and \<open>TraceID\<close>, which the histograms use, gives it.
\<close>

theorem unsampled_trace_exposed:
  assumes "sp_valid sc" and "\<not> sp_sampled sc" and "sp_TraceID sc \<noteq> []"
  shows "TraceID sc \<noteq> [] \<and> trace_Handle sc r = r"
  using assms by (simp add: TraceID_def trace_Handle_def)

text \<open>Telemetry never stops the service: a resource that cannot be merged is replaced, and only the exporter can fail.\<close>

theorem tracing_failures:
  "tracing_New sdk v cfg s i = Inl e \<Longrightarrow> tg_Enabled cfg \<and> (\<exists>e'. os_exporter sdk (tg_OTLPEndpoint cfg) = Some e')"
  "os_merge sdk [(''service.name'', s), (''service.version'', v), (''service.instance.id'', i)] = Inl e \<Longrightarrow>
   buildResource sdk v s i = [(''service.name'', s), (''service.version'', v), (''service.instance.id'', i)]"
  by (auto simp: tracing_New_def buildResource_def split: if_splits option.splits)

end
