(* ===== verification/Instruments.thy ===== *)
theory Instruments
  imports Webhook Ratelimit Metrics Telemetry
begin

text \<open>
  Where the components report to the metrics and the log: the outbox write (\<open>internal/task/pgrepo/pgrepo.go\<close>), the
  worker pool's outcome line and trace (\<open>internal/queue/pool.go\<close>), the webhook's attempts
  (\<open>internal/queue/handler/webhook.go\<close>) and the rate limiter's loop (\<open>internal/ratelimit/limiter.go\<close>). The operations
  are those of the components' theories; here each is paired with what it records, and the theorems say how the
  record relates to what happened.
\<close>

subsection \<open>The outbox write\<close>

definition outcomeOf :: "bool \<Rightarrow> string" where
  "outcomeOf inserted = (if inserted then ''inserted'' else ''deduped'')"

text \<open>\<open>write\<close> with an observer: the enqueue is counted as soon as its statement has succeeded.\<close>

definition pg_write_counted ::
  "go_lib \<Rightarrow> bool \<Rightarrow> pg_ctx \<Rightarrow> string \<Rightarrow> ('a pg_state_scheme \<Rightarrow> task result \<times> 'a pg_state_scheme) \<Rightarrow>
   'a pg_state_scheme \<Rightarrow> queue_metrics \<Rightarrow> (task result \<times> 'a pg_state_scheme) \<times> queue_metrics" where
  "pg_write_counted lib joined c name fn s q =
     (pg_write lib joined c name fn s,
      case (if joined then None else pc_begin c) of
        Some e \<Rightarrow> q
      | None \<Rightarrow>
          (case fn s of
             (Inl e, s1) \<Rightarrow> q
           | (Inr t, s1) \<Rightarrow>
               (case enqueue_event lib c name t s1 of
                  (Inl e, s2) \<Rightarrow> q
                | (Inr inserted, s2) \<Rightarrow> Enqueued JobKind (outcomeOf inserted) q)))"

subsection \<open>The worker pool\<close>

definition traceIDOf :: "span_context \<Rightarrow> string" where
  "traceIDOf sc = (if \<not> sp_valid sc \<or> \<not> sp_sampled sc then [] else sp_TraceID sc)"

text \<open>\<open>logOutcome\<close>: the level and the message; the duration's rendering in milliseconds is an argument.\<close>

definition logOutcome :: "job \<Rightarrow> outcome \<Rightarrow> go_error option \<Rightarrow> string \<Rightarrow> log_record" where
  "logOutcome j outc cause dur_ms =
     (let attrs = [(''job_id'', KindOther (itoa (job_id j))), (''kind'', KindString (job_kind j)),
            (''attempt'', KindOther (itoa (job_attempt j))), (''dur_ms'', KindOther dur_ms)];
          attrs = attrs @ (case cause of None \<Rightarrow> [] | Some e \<Rightarrow> [(''err'', KindError (error_text e))]) in
      case outc of
        OutcomeDiscarded \<Rightarrow> \<lparr>lr_level = LevelError, lr_msg = ''job discarded'', lr_attrs = attrs\<rparr>
      | OutcomeRetried \<Rightarrow> \<lparr>lr_level = LevelWarn, lr_msg = ''job '' @ outcome_text outc, lr_attrs = attrs\<rparr>
      | OutcomeCancelled \<Rightarrow> \<lparr>lr_level = LevelWarn, lr_msg = ''job '' @ outcome_text outc, lr_attrs = attrs\<rparr>
      | _ \<Rightarrow> \<lparr>lr_level = LevelDebug, lr_msg = ''job '' @ outcome_text outc, lr_attrs = attrs\<rparr>)"

subsection \<open>The webhook\<close>

definition webhook_target :: string where "webhook_target = ''webhook''"

definition send_result :: "webhook_env \<Rightarrow> nat \<Rightarrow> delivery \<Rightarrow> string" where
  "send_result env n req =
     (case we_do env n req of Inl e \<Rightarrow> ''error'' | Inr status \<Rightarrow> resultOf (classify status))"

definition send_observed :: "webhook_env \<Rightarrow> nat \<Rightarrow> delivery \<Rightarrow> string \<Rightarrow> duration \<Rightarrow> dep_metrics \<Rightarrow> dep_metrics" where
  "send_observed env n req trace took d = deps_Request trace webhook_target (send_result env n req) took d"

text \<open>The closure \<open>deliver\<close> gives the chain, on its \<open>n\<close>-th call from zero, and a delivery of \<open>n\<close> attempts.\<close>

definition attempt_observed :: "webhook_env \<Rightarrow> delivery \<Rightarrow> string \<Rightarrow> (nat \<Rightarrow> duration) \<Rightarrow> nat \<Rightarrow> dep_metrics \<Rightarrow> dep_metrics" where
  "attempt_observed env req trace took n d =
     (let d = (if n > 0 then deps_Retry webhook_target d else d) in
      case rewind env n req of
        Inl e \<Rightarrow> d
      | Inr req' \<Rightarrow> send_observed env n req' trace (took n) d)"

definition deliver_observed :: "webhook \<Rightarrow> webhook_env \<Rightarrow> delivery \<Rightarrow> string \<Rightarrow> (nat \<Rightarrow> duration) \<Rightarrow> dep_metrics \<Rightarrow> dep_metrics" where
  "deliver_observed w env req trace took d =
     (case wh_guard w of
        None \<Rightarrow> send_observed env 0 req trace (took 0) d
      | Some g \<Rightarrow> fold (attempt_observed env req trace took) [0..<fst (gd_Run g (webhook_attempt env req))] d)"

subsection \<open>The rate limiter's loop\<close>

definition limiter_report :: "bool \<Rightarrow> 'b limiter \<Rightarrow> guard_metrics \<Rightarrow> guard_metrics" where
  "limiter_report observed l g = (if observed then ActiveKeys (int (limiter_Len l)) g else g)"

text \<open>
  \<open>Run\<close>: a report at the start, then a sweep and a report at every tick until the context ends. Between two ticks the
  middleware changes the limiter, which is part of the tick.
\<close>

fun limiter_Run :: "bool \<Rightarrow> (time \<times> ('b limiter \<Rightarrow> 'b limiter)) list \<Rightarrow> 'b limiter \<Rightarrow> guard_metrics \<Rightarrow> 'b limiter \<times> guard_metrics" where
  "limiter_Run observed [] l g = (l, limiter_report observed l g)"
| "limiter_Run observed ((now, traffic) # ticks) l g =
     limiter_Run observed ticks (snd (Sweep now (traffic l))) (limiter_report observed l g)"

subsection \<open>The counters and what happened\<close>

text \<open>
  A write that succeeds is counted once, under the outcome of its enqueue, and a write that fails before its enqueue
  is not counted. The write itself is not changed by being observed.
\<close>

theorem write_counted:
  assumes "pg_write_counted lib False c name fn s q = ((r, s'), q')"
  shows "pg_write lib False c name fn s = (r, s') \<and> (q' = q \<or> (\<exists>b. q' = Enqueued JobKind (outcomeOf b) q)) \<and>
    (\<forall>t. r = Inr t \<longrightarrow> q' \<noteq> q) \<and> (q' = q \<longrightarrow> pg_jobs s' = pg_jobs s)"
proof -
  have ne: "Enqueued JobKind (outcomeOf b) q \<noteq> q" for b
  proof
    assume "Enqueued JobKind (outcomeOf b) q = q"
    then have "qm_enqueued (Enqueued JobKind (outcomeOf b) q) [JobKind, outcomeOf b] = qm_enqueued q [JobKind, outcomeOf b]" by simp
    then show False by (simp add: Enqueued_def add_to_def)
  qed
  show ?thesis
    using assms ne
    by (auto simp: pg_write_counted_def pg_write_def Let_def rollback_def
        split: option.splits prod.splits sum.splits db_outcome.splits)
qed

text \<open>
  The count does not wait for the commit: a write whose commit fails leaves no job and is counted as inserted.
\<close>

theorem enqueued_before_commit:
  assumes "pc_begin c = None" and "fn s = (Inr t, s1)" and "enqueue_event lib c name t s1 = (Inr True, s2)"
    and "pc_commit c = DbFailed e"
  shows "\<exists>err s'. pg_write_counted lib False c name fn s q = ((Inl err, s'), Enqueued JobKind ''inserted'' q) \<and> pg_jobs s' = pg_jobs s"
  using assms by (simp add: pg_write_counted_def pg_write_def Let_def rollback_def outcomeOf_def)

text \<open>The failures an operator must see are never below warning, and a job's error is scrubbed like any other.\<close>

theorem outcome_levels:
  "lr_level (logOutcome j OutcomeDiscarded cause d) = LevelError"
  "oc \<in> {OutcomeRetried, OutcomeCancelled} \<Longrightarrow> lr_level (logOutcome j oc cause d) = LevelWarn"
  "oc \<in> {OutcomeSucceeded, OutcomeSnoozed, OutcomeLost} \<Longrightarrow> lr_level (logOutcome j oc cause d) = LevelDebug"
  "lr_msg (logOutcome j oc cause d) = ''job '' @ outcome_text oc"
  by (auto simp: logOutcome_def Let_def split: outcome.splits)

text \<open>
  The pool and the log agree on which traces are worth a link, unlike \<open>TraceID\<close>: an event carries a trace exactly
  when the log line of the same span is stamped with it.
\<close>

theorem event_trace_matches_log:
  assumes "sp_TraceID sc \<noteq> []"
  shows "traceIDOf sc \<noteq> [] \<longleftrightarrow> trace_Handle sc r \<noteq> r"
proof -
  have "r\<lparr>lr_attrs := lr_attrs r @ xs\<rparr> = r \<longleftrightarrow> xs = []" for xs
    by (metis append_self_conv log_record.select_convs(3) log_record.surjective log_record.update_convs(3) self_append_conv)
  then show ?thesis using assms by (auto simp: traceIDOf_def trace_Handle_def)
qed

lemma attempts_observed:
  assumes "\<And>n. we_get_body env n = None"
  shows "dm_retries (fold (attempt_observed env req tr took) [0..<n] d) [webhook_target] = dm_retries d [webhook_target] + int (n - 1) \<and>
    length (dm_requests (fold (attempt_observed env req tr took) [0..<n] d)) = length (dm_requests d) + n"
proof (induction n)
  case (Suc n)
  then show ?case
    by (cases n) (auto simp: attempt_observed_def rewind_def assms send_observed_def deps_Request_def deps_Retry_def add_to_def observe_def Let_def)
qed simp

text \<open>
  Every attempt the resilience chain makes is one observation of the dependency's latency, and every attempt beyond the
  first is one retry, whatever the answers were.
\<close>

theorem deliveries_observed:
  assumes "\<And>n. we_get_body env n = None" and "wh_guard w = Some g" and "fst (gd_Run g (webhook_attempt env req)) = n"
  shows "dm_retries (deliver_observed w env req tr took d) [webhook_target] = dm_retries d [webhook_target] + int (n - 1) \<and>
    length (dm_requests (deliver_observed w env req tr took d)) = length (dm_requests d) + n"
  using attempts_observed [OF assms(1)] by (simp add: deliver_observed_def assms(2,3))

text \<open>The result label has four values, whatever the endpoint answers.\<close>

theorem result_labels_bounded: "send_result env n req \<in> {''error'', ''success'', ''rejected'', ''failure''}"
  by (auto simp: send_result_def resultOf_def split: sum.splits option.splits)

text \<open>After every tick the gauge is the number of buckets held.\<close>

theorem gauge_is_current:
  "limiter_Run True ticks l g = (l', g') \<Longrightarrow> gm_activeKeys g' [''client''] = int (limiter_Len l')"
  by (induction True ticks l g rule: limiter_Run.induct) (auto simp: limiter_report_def ActiveKeys_def set_to_def)

end
