(* ===== verification/Spec2Isabelle.thy ===== *)
theory Spec2Isabelle
  imports Delivery Purger Resilience Maintenance Reload Duration_Text Command Admin Serving Instruments
begin

text \<open>
  A verification of the task API: a Go service that stores tasks in memory or in Postgres,
  publishes every change through a transactional outbox, and delivers the resulting jobs to a
  webhook with a pool of queue workers. Paths below are relative to \<open>src/internal\<close>.

  \<^bold>\<open>The parts and how they interact.\<close> A request enters the middleware chain of \<open>runtime/handler.go\<close>:
  request id, panic recovery, load shedding, caller identity, rate limit, deprecation headers, body
  limit, idempotency. Behind it the RPC surface (\<open>api\<close>) calls the task service (\<open>task/service.go\<close>),
  which validates and calls a repository: \<open>task/memrepo\<close> or \<open>task/pgrepo\<close>. The Postgres repository
  writes the task row and an outbox row in one transaction; with an idempotency key that
  transaction is the one the key lives in, so key, task and event commit together. The outbox row
  is a job. Worker pools (\<open>queue/pool.go\<close>) claim jobs under leases, run the webhook handler and
  record the outcome under a guard on worker and attempt; maintenance (\<open>queue/service.go\<close>), on one
  replica at a time, makes due jobs claimable, takes jobs from dead workers and purges old ones.
  The configuration is merged from four layers, validated, and partly replaceable while running;
  the composition root builds the parts and drains them in a fixed order.

  \<^bold>\<open>Theories and sources.\<close>
  \<^item> \<open>Prelude\<close>: integers, text (decimal, Go quoting, trimming, durations), tables of rows, sorting.
  \<^item> \<open>Apperr\<close> (\<open>apperr\<close>): kinds, classified and wrapped errors, what a client may see.
  \<^item> \<open>Base64\<close>, \<open>Task_Domain\<close> (\<open>task/task.go\<close>, \<open>task/repository.go\<close>): tasks, validation, cursors,
    page tokens, ordering. \<open>Go_Lib_Instance\<close>: an instance of the library parameters.
  \<^item> \<open>Task_Service\<close> (\<open>task/service.go\<close>): the operations, and the locale \<open>task_repository\<close> with what
    every backend promises; the service's behaviour and pagination are proved in it once.
  \<^item> \<open>Memrepo\<close> (\<open>task/memrepo\<close>), \<open>Pgrepo\<close> (\<open>task/pgrepo\<close>, \<open>postgres/tx.go\<close>), \<open>Outbox\<close>
    (\<open>outbox\<close>): the two backends, each an interpretation of the locale; the atomic outbox.
  \<^item> \<open>Job_Table\<close> (\<open>queue/queue.go\<close>, \<open>store.go\<close>, \<open>maintenance.go\<close>), \<open>Backoff\<close> (\<open>backoff.go\<close>), \<open>Pool\<close>
    (\<open>pool.go\<close>, \<open>events.go\<close>): statements on the jobs table, retry delays in exact float64, the pool.
    \<open>Job_Lifecycle\<close>: the queue as a step relation over these statements, its invariant, stale
    workers refused. \<open>Job_Recovery\<close>: finality, crash recovery, heartbeats, drain, exhaustion.
    \<open>Pool_Loop\<close>: the claim loop, which drains any backlog and needs no notification.
    \<open>Delivery\<close>: the path of one event through all of them, from the service's answer to the accepted webhook.
  \<^item> \<open>Maintenance\<close> (\<open>queue/service.go\<close>, \<open>queue/listener.go\<close>, \<open>postgres/leader.go\<close>): ticks under the
    advisory lock as runs of the step relation, the lock keys, the reconnect pauses.
  \<^item> \<open>Webhook\<close> (\<open>queue/handler\<close>), \<open>Resilience\<close> (\<open>resilience\<close>): delivery through the resilience guard and
    what the pool makes of it; the policy chain, and that it is such a guard.
  \<^item> \<open>Httpx\<close> (\<open>httpx\<close>), \<open>Sha256\<close>, \<open>Idempotency\<close>, \<open>Idempotency_Mem\<close>, \<open>Idempotency_Pg\<close>
    (\<open>idempotency\<close>): requests, response writers and middlewares; fingerprints, the middleware, the
    locale \<open>idempotency_store\<close> and its two interpretations; atomicity and replay. \<open>Purger\<close>: the purge
    loop over the locale \<open>purge_store\<close>, interpreted on both stores.
  \<^item> \<open>Auth\<close> (\<open>auth\<close>), \<open>Ratelimit\<close> (\<open>ratelimit\<close>), \<open>Runtime\<close> (\<open>runtime/handler.go\<close>), \<open>Api\<close> (\<open>api\<close>): who
    calls, how much they may, the chain as composed, and the four calls with their answers.
    \<open>Observe\<close> (\<open>httpx/logger.go\<close>, \<open>metrics/http.go\<close>): the chain with its request log and metrics.
    \<open>Serving\<close> (\<open>runtime/codec.go\<close>, \<open>runtime/handler.go\<close>, \<open>app/http.go\<close>, and \<open>docs\<close> beside \<open>internal\<close>): the errors of the codecs,
    the route table with its documents and canonical paths, the listeners and their limits.
  \<^item> \<open>Config\<close>, \<open>Config_Load\<close>, \<open>Reload\<close> (\<open>config\<close>, \<open>app/reload.go\<close>): defaults and validation, the
    merge of layers, hot reload. \<open>Duration_Text\<close> (\<open>config/duration.go\<close>): durations as text, with \<open>time.ParseDuration\<close>.
  \<^item> \<open>Logging\<close>, \<open>Telemetry\<close> (\<open>logging\<close>, \<open>tracing\<close>): levels, redaction with its regular expressions, throttling; building
    a logger, loggers in contexts, the trace on a log line. \<open>Metrics\<close> (\<open>metrics\<close>, \<open>app/observability.go\<close>): every metric
    set, the registry, the collectors that read the queue on a scrape. \<open>Instruments\<close>: where the outbox write, the
    pool, the webhook and the limiter report to them.
  \<^item> \<open>Lifecycle\<close> (\<open>app\<close>, \<open>admin/admin.go\<close>): wiring by mode and backend, the drain table, the runner,
    readiness. \<open>Admin\<close> (\<open>admin\<close>, \<open>buildinfo\<close>): the answers of the private listener.
  \<^item> \<open>Postgres_Conn\<close> (\<open>postgres/pool.go\<close>, \<open>migrate.go\<close>, \<open>version.go\<close>), \<open>Command\<close> (\<open>cli\<close>): pool settings,
    migrations, and the commands that use them.
  \<^item> \<open>Sink\<close> (\<open>deploy/webhook-sink\<close> beside \<open>internal\<close>): the receiver used in demonstrations.

  \<^bold>\<open>How code becomes definitions.\<close> A struct is a record, an enum a datatype or a word, a table a list
  of rows, an error a value of \<open>go_error\<close>, an operation a function that takes the state and returns
  the answer and the new state, on every branch. Calls that can fail outside the program (a
  statement, a commit, a socket, a parser) take their outcome from an argument, and a database
  outcome is one of done, failed, or done with the answer lost. Middlewares are functions between
  handlers. Concurrency is the interleaving of atomic statements: \<open>queue_step\<close> for the queue, lists
  of operations for the memory store, the limiter and the in-flight slots.

  \<^bold>\<open>What the theorems show.\<close> One commit for task, event and idempotency key, and exact replay of a
  retried request (Postgres and, within the time to live, memory); the queue's invariant over every
  reachable state, at most one completion a claim, refusal of stale workers, recovery of jobs of
  dead workers by a sweep, pickup of every due job at the next poll, delivery of every acknowledged
  change to an endpoint that accepts it, exact exhaustion of attempts;
  a policy chain that keeps the contract delivery relies on; complete and duplicate-free pagination on
  both backends, page tokens and durations that read back; validity of every stored row; callers that cannot
  choose their address behind a configured number of proxies, isolated quotas, bounded buckets and
  slots, a chain that stops refused requests before any work, and instrumentation that changes no
  answer and counts every one, a backlog gauge equal to the table's content; causes of errors hidden from
  clients and secrets kept from logs; accepted configurations that are sound, layers in the
  documented order, reloads that are all or nothing; only validated configurations run; a shutdown
  in the documented order. Some theorems prove defects of the code: a reaped job that is never
  purged, an expired reservation that overwrites a newer one, a forwarded-for header of which only
  the first line is read, claimed jobs stranded by a shutdown, a statement timeout that is lost,
  callers all counted as anonymous, rolled-back jobs counted as enqueued.

  \<^bold>\<open>Parameters and their laws.\<close> \<open>go_lib\<close> (uuid and RFC 3339 text) with \<open>uuid_laws\<close> and \<open>time_laws\<close>;
  \<open>rate_lib\<close> (golang.org/x/time/rate); the \<open>guard\<close> of a delivery with \<open>guard_laws\<close>, which
  \<open>Resilience\<close> derives from \<open>policy_laws\<close> (failsafe-go); \<open>migrate_lib\<close> (golang-migrate) with
  \<open>newest_after_up\<close>; \<open>koanf_lib\<close> with \<open>koanf_laws\<close> and \<open>decode_laws\<close>; \<open>config_lib\<close> (URL and address parsing); JSON and YAML codecs. Every
  theorem that assumes laws has a witness with a concrete instance.

  \<^bold>\<open>Bounds and termination.\<close> No definition runs on fuel: loops are structural recursions on the
  rows, bytes or events they consume, or terminate by a measure given with them. The one loop that
  producers can keep busy for ever, the inner claim loop, is a partial function into \<open>option\<close>, with
  the theorem that it returns once nobody adds to the backlog. Machine integers
  are words where they can wrap (versions, statuses, hashes, lock keys) and integers with explicit
  wrapping elsewhere; float64 values are rationals rounded after each operation.

  \<^bold>\<open>Not modelled.\<close> The generated RPC code, the transcoder and the spans around requests and jobs, which are
  libraries; the plumbing of net/http, pgx, golang-migrate, Prometheus, OpenTelemetry and cobra (sockets, connections,
  exposition formats, declarations of commands and flags); the scheduling of goroutines beyond the
  interleaving of atomic steps, and with it the start of the pool's goroutines and signal handling;
  the formatting of log lines; the harness of the end-to-end tests.
\<close>

end
